theory Spec2Isabelle
  imports Main "HOL-Library.Sublist" "HOL-Library.Word"
begin

section \<open>Record model\<close>

text \<open>
  The struct declarations of package \<open>smsbackuprestore\<close> (\<open>SMS\<close>, \<open>MMS\<close>, \<open>Part\<close>,
  the address entries and the named scalar types \<open>PhoneNumber\<close>, \<open>AndroidTS\<close>,
  \<open>SMSMessageType\<close>, ...) are used by the sources under study but declared elsewhere.
  Every field is kept under the name the code uses for it, prefixed by the struct name
  (record fields share one name space).  A field of a named scalar type carries the raw
  attribute text it was decoded from; the \<open>String()\<close> method of such a type is a function
  parameter of the operation that calls it.
\<close>

record SMS =
  SMS_Protocol :: string
  SMS_Address :: string
  SMS_Type :: string
  SMS_Subject :: string
  SMS_Body :: string
  SMS_ServiceCenter :: string
  SMS_Status :: string
  SMS_Read :: string
  SMS_Date :: string
  SMS_Locked :: string
  SMS_DateSent :: string
  SMS_ReadableDate :: string
  SMS_ContactName :: string

record MMSAddress =
  Addr_Address :: string
  Addr_Type :: string
  Addr_Charset :: string

record Part =
  Part_ContentType :: string
  Part_Name :: string
  Part_FileName :: string
  Part_ContentDisplay :: string
  Part_Text :: string
  Part_Base64Data :: string

record MMS =
  MMS_TextOnly :: string
  MMS_Read :: string
  MMS_Date :: string
  MMS_Locked :: string
  MMS_DateSent :: string
  MMS_ReadableDate :: string
  MMS_ContactName :: string
  MMS_Seen :: string
  MMS_FromAddress :: string
  MMS_Address :: string
  MMS_MessageClassifier :: string
  MMS_MessageSize :: string
  MMS_Addresses :: "MMSAddress list"
  MMS_Parts :: "Part list"

record Messages =
  Messages_SMS :: "SMS list"
  Messages_MMS :: "MMS list"

section \<open>Contact guessing (guessing.go)\<close>

record Contact =
  Contact_Name :: string
  Contact_CanonicalNumber :: string
  Contact_RawNumbers :: "string list"

text \<open>
  \<open>log.Printf\<close> writes diagnostics to the process log and never fails.  The model
  collects them, in order, as values: one constructor per format string of
  \<open>GuessContacts\<close>, carrying the arguments of the call.
\<close>

datatype diag =
    MultipleNames string string string
  | MmsCountMismatch nat nat string
  | RawNumsList "string list"
  | ContactNames "string list"
  | PartText string

text \<open>\<open>Contact.addRawNum\<close>: append the raw number unless it is already listed.\<close>

definition addRawNum :: "Contact \<Rightarrow> string \<Rightarrow> Contact" where
  "addRawNum c rawNum =
     (if rawNum \<in> set (Contact_RawNumbers c) then c
      else c\<lparr>Contact_RawNumbers := Contact_RawNumbers c @ [rawNum]\<rparr>)"

text \<open>
  The canonical map holds one \<open>*Contact\<close> per key; each pointer is created by the
  loop and stored under exactly one key, so the map of pointers is a map of values.
  \<open>guessSMS\<close> is the body of the first loop of \<open>GuessContacts\<close>, for one SMS;
  \<open>NormalizePhoneNumber\<close> is declared outside the sources at hand and is a parameter.
\<close>

definition guessSMS ::
  "(string \<Rightarrow> string) \<Rightarrow> (string \<rightharpoonup> Contact) \<times> diag list \<Rightarrow> SMS
     \<Rightarrow> (string \<rightharpoonup> Contact) \<times> diag list" where
  "guessSMS NormalizePhoneNumber st sms =
     (let canonicalMap = fst st; lg = snd st;
          rawNum = SMS_Address sms;
          canonicalNum = NormalizePhoneNumber rawNum
      in case canonicalMap canonicalNum of
           Some contact \<Rightarrow>
             (if Contact_Name contact \<noteq> SMS_ContactName sms then
                (if Contact_Name contact = ''(Unknown)'' then
                   (canonicalMap(canonicalNum \<mapsto>
                      addRawNum (contact\<lparr>Contact_Name := SMS_ContactName sms\<rparr>) rawNum), lg)
                 else if SMS_ContactName sms = ''(Unknown)'' then
                   (canonicalMap(canonicalNum \<mapsto> addRawNum contact rawNum), lg)
                 else
                   (canonicalMap(canonicalNum \<mapsto> addRawNum contact rawNum),
                    lg @ [MultipleNames canonicalNum (Contact_Name contact) (SMS_ContactName sms)]))
              else (canonicalMap(canonicalNum \<mapsto> addRawNum contact rawNum), lg))
         | None \<Rightarrow>
             (canonicalMap(canonicalNum \<mapsto>
                \<lparr>Contact_Name = SMS_ContactName sms,
                 Contact_CanonicalNumber = canonicalNum,
                 Contact_RawNumbers = [rawNum]\<rparr>), lg))"

text \<open>\<open>strings.Split(s, sep)\<close> for a separator of one byte: never an empty result.\<close>

fun Split :: "string \<Rightarrow> char \<Rightarrow> string list" where
  "Split [] sep = [[]]"
| "Split (c # cs) sep =
     (if c = sep then [] # Split cs sep
      else (case Split cs sep of [] \<Rightarrow> [[c]] | w # ws \<Rightarrow> (c # w) # ws))"

text \<open>
  \<open>strings.TrimSpace\<close>: leading and trailing white space, as \<open>unicode.IsSpace\<close>
  defines it, is removed.  A Go string is a sequence of bytes holding UTF-8; the white
  space runes are listed by their encodings: the six of ASCII, then U+0085, U+00A0,
  U+1680, U+2000 to U+200A, U+2028, U+2029, U+202F, U+205F and U+3000.  No encoding in
  the list is the beginning or the end of another one, and bytes that are not valid
  UTF-8 decode to U+FFFD, which is not white space: a string begins (ends) with a
  white space rune exactly when one of the encodings is a prefix (suffix) of it.
\<close>

definition spaceRunes :: "string list" where
  "spaceRunes =
     [[CHR 0x09], [CHR 0x0A], [CHR 0x0B], [CHR 0x0C], [CHR 0x0D], [CHR 0x20],
      [CHR 0xC2, CHR 0x85], [CHR 0xC2, CHR 0xA0],
      [CHR 0xE1, CHR 0x9A, CHR 0x80],
      [CHR 0xE2, CHR 0x80, CHR 0x80], [CHR 0xE2, CHR 0x80, CHR 0x81],
      [CHR 0xE2, CHR 0x80, CHR 0x82], [CHR 0xE2, CHR 0x80, CHR 0x83],
      [CHR 0xE2, CHR 0x80, CHR 0x84], [CHR 0xE2, CHR 0x80, CHR 0x85],
      [CHR 0xE2, CHR 0x80, CHR 0x86], [CHR 0xE2, CHR 0x80, CHR 0x87],
      [CHR 0xE2, CHR 0x80, CHR 0x88], [CHR 0xE2, CHR 0x80, CHR 0x89],
      [CHR 0xE2, CHR 0x80, CHR 0x8A],
      [CHR 0xE2, CHR 0x80, CHR 0xA8], [CHR 0xE2, CHR 0x80, CHR 0xA9],
      [CHR 0xE2, CHR 0x80, CHR 0xAF],
      [CHR 0xE2, CHR 0x81, CHR 0x9F],
      [CHR 0xE3, CHR 0x80, CHR 0x80]]"

text \<open>The number of bytes of the white space rune a string begins (ends) with, or 0.\<close>

definition leadingSpace :: "string \<Rightarrow> nat" where
  "leadingSpace s =
     (case find (\<lambda>w. prefix w s) spaceRunes of None \<Rightarrow> 0 | Some w \<Rightarrow> length w)"

definition trailingSpace :: "string \<Rightarrow> nat" where
  "trailingSpace s =
     (case find (\<lambda>w. suffix w s) spaceRunes of None \<Rightarrow> 0 | Some w \<Rightarrow> length w)"

lemma leadingSpace_le: "leadingSpace s \<le> length s"
  by (auto simp: leadingSpace_def find_Some_iff prefix_def split: option.splits)

lemma trailingSpace_le: "trailingSpace s \<le> length s"
  by (auto simp: trailingSpace_def find_Some_iff suffix_def split: option.splits)

function trimLeft :: "string \<Rightarrow> string" where
  "trimLeft s = (if leadingSpace s = 0 then s else trimLeft (drop (leadingSpace s) s))"
  by pat_completeness auto
termination
proof (relation "measure length")
  fix s :: string
  assume "leadingSpace s \<noteq> 0"
  with leadingSpace_le [of s] show "(drop (leadingSpace s) s, s) \<in> measure length"
    by auto
qed simp

function trimRight :: "string \<Rightarrow> string" where
  "trimRight s = (if trailingSpace s = 0 then s
                  else trimRight (take (length s - trailingSpace s) s))"
  by pat_completeness auto
termination
proof (relation "measure length")
  fix s :: string
  assume "trailingSpace s \<noteq> 0"
  with trailingSpace_le [of s]
  show "(take (length s - trailingSpace s) s, s) \<in> measure length"
    by auto
qed simp

declare trimLeft.simps [simp del] trimRight.simps [simp del]

definition TrimSpace :: "string \<Rightarrow> string" where
  "TrimSpace s = trimRight (trimLeft s)"

text \<open>
  The body of the second loop of \<open>GuessContacts\<close>, for one MMS.  The loop only ever
  logs: on equal lengths the body ends without touching the map, on unequal lengths it
  logs and continues.  \<open>RemoveCommasBeforeSuffixes\<close> is declared outside the sources at
  hand and is a parameter.
\<close>

definition guessMMS ::
  "(string \<Rightarrow> string) \<Rightarrow> (string \<rightharpoonup> Contact) \<times> diag list \<Rightarrow> MMS
     \<Rightarrow> (string \<rightharpoonup> Contact) \<times> diag list" where
  "guessMMS RemoveCommasBeforeSuffixes st mms =
     (let canonicalMap = fst st; lg = snd st;
          rawNumStr = MMS_Address mms;
          rawNumsList = Split rawNumStr (CHR ''~'');
          contactNames = map TrimSpace
            (Split (RemoveCommasBeforeSuffixes (MMS_ContactName mms)) (CHR '',''))
      in if length rawNumsList \<noteq> length contactNames then
           (let reason = (if length rawNumsList > length contactNames
                          then ''A number probably doesn't have a known contact''
                          else ''A contact probably has a comma'')
            in (canonicalMap,
                lg @ [MmsCountMismatch (length rawNumsList) (length contactNames) reason,
                      RawNumsList rawNumsList,
                      ContactNames contactNames]
                   @ (if length (MMS_Parts mms) > 1
                      then [PartText (Part_Text (MMS_Parts mms ! 1))] else [])))
         else (canonicalMap, lg))"

text \<open>
  \<open>Messages.GuessContacts\<close>: the map, the error (always \<open>nil\<close>, here \<open>None\<close>) and
  the diagnostics logged on the way.
\<close>

definition GuessContacts ::
  "(string \<Rightarrow> string) \<Rightarrow> (string \<Rightarrow> string) \<Rightarrow> Messages
     \<Rightarrow> (string \<rightharpoonup> Contact) \<times> string option \<times> diag list" where
  "GuessContacts NormalizePhoneNumber RemoveCommasBeforeSuffixes m =
     (let st1 = foldl (guessSMS NormalizePhoneNumber) (Map.empty, []) (Messages_SMS m);
          st2 = foldl (guessMMS RemoveCommasBeforeSuffixes) st1 (Messages_MMS m)
      in (fst st2, None, snd st2))"

text \<open>
  Auxiliary definitions for stating the properties of \<open>GuessContacts\<close>.  The
  diagnostics one MMS adds to the log.  The naming policy in the words of the
  specification: \<open>resolveName\<close> is the name kept for a number when a record with the
  name \<open>new\<close> meets the stored name (a stored \<open>(Unknown)\<close> gives way, anything else
  stays); \<open>conflicts\<close> lists the naming conflicts that a sequence of names meets, one
  for each name that differs from the stored one when neither is \<open>(Unknown)\<close>;
  \<open>namesAt\<close> is the sequence of names that the SMS records of one canonical number
  carry, in the order of the records; \<open>aboutNumber\<close> picks the naming conflicts
  reported for one canonical number.
\<close>

definition mmsDiags :: "(string \<Rightarrow> string) \<Rightarrow> MMS \<Rightarrow> diag list" where
  "mmsDiags rcbs x = snd (guessMMS rcbs (Map.empty, []) x)"

definition resolveName :: "string \<Rightarrow> string \<Rightarrow> string" where
  "resolveName stored new = (if stored = ''(Unknown)'' then new else stored)"

fun conflicts :: "string \<Rightarrow> string \<Rightarrow> string list \<Rightarrow> diag list" where
  "conflicts k stored [] = []"
| "conflicts k stored (new # names) =
     (if stored \<noteq> ''(Unknown)'' \<and> new \<noteq> ''(Unknown)'' \<and> stored \<noteq> new
      then [MultipleNames k stored new] else [])
     @ conflicts k (resolveName stored new) names"

definition namesAt :: "(string \<Rightarrow> string) \<Rightarrow> string \<Rightarrow> SMS list \<Rightarrow> string list" where
  "namesAt norm k xs = map SMS_ContactName (filter (\<lambda>sms. norm (SMS_Address sms) = k) xs)"

definition aboutNumber :: "string \<Rightarrow> diag \<Rightarrow> bool" where
  "aboutNumber k d = (case d of MultipleNames k' stored new \<Rightarrow> k' = k | _ \<Rightarrow> False)"

text \<open>
  Sample inputs for the worked examples: a stand-in for \<open>NormalizePhoneNumber\<close> that
  keeps the decimal digits, and records that differ in address and contact name only.
\<close>

definition digitsOnly :: "string \<Rightarrow> string" where
  "digitsOnly s = filter (\<lambda>c. c \<in> set ''0123456789'') s"

definition mkSMS :: "string \<Rightarrow> string \<Rightarrow> SMS" where
  "mkSMS addr name =
     \<lparr>SMS_Protocol = ''0'', SMS_Address = addr, SMS_Type = ''1'', SMS_Subject = ''null'',
      SMS_Body = ''hi'', SMS_ServiceCenter = ''null'', SMS_Status = ''-1'', SMS_Read = ''1'',
      SMS_Date = ''1518530142000'', SMS_Locked = ''0'', SMS_DateSent = ''0'',
      SMS_ReadableDate = ''Feb 13, 2018'', SMS_ContactName = name\<rparr>"

definition mkMMS :: "string \<Rightarrow> string \<Rightarrow> Part list \<Rightarrow> MMS" where
  "mkMMS addr name parts =
     \<lparr>MMS_TextOnly = ''1'', MMS_Read = ''1'', MMS_Date = ''1518530142000'', MMS_Locked = ''0'',
      MMS_DateSent = ''0'', MMS_ReadableDate = ''Feb 13, 2018'', MMS_ContactName = name,
      MMS_Seen = ''1'', MMS_FromAddress = ''null'', MMS_Address = addr,
      MMS_MessageClassifier = ''null'', MMS_MessageSize = ''null'',
      MMS_Addresses = [], MMS_Parts = parts\<rparr>"

section \<open>Streaming decoder (xml.go)\<close>

subsection \<open>Errors and results\<close>

text \<open>
  Go errors as values: \<open>io.EOF\<close>, any other error with its message, and an error
  wrapped by \<open>fmt.Errorf("...: %w", err)\<close>.  \<open>errors.Is(err, io.EOF)\<close> follows the
  chain of wrapped errors.
\<close>

datatype error = EOF | Err string | Wrap string error

fun errors_Is_EOF :: "error \<Rightarrow> bool" where
  "errors_Is_EOF EOF = True"
| "errors_Is_EOF (Err msg) = False"
| "errors_Is_EOF (Wrap msg e) = errors_Is_EOF e"

text \<open>A call either returns its error value (\<open>nil\<close> is \<open>None\<close>) or panics.\<close>

datatype outcome = Return "error option" | Panic string

subsection \<open>The token stream of \<open>encoding/xml\<close>\<close>

text \<open>
  \<open>xml.Decoder\<close> belongs to the standard library.  It is modelled by what it delivers:
  the tokens \<open>Token()\<close> will return, in order, and the error \<open>Token()\<close> returns once
  they are used up (\<open>io.EOF\<close> at the end of a complete document, a syntax error on
  malformed input).
\<close>

datatype token =
    StartElement string "(string \<times> string) list"
  | EndElement string
  | CharData string
  | Comment string
  | ProcInst string string
  | Directive string

record Decoder =
  pending :: "token list"
  at_end :: error

definition Token :: "Decoder \<Rightarrow> (error + token) \<times> Decoder" where
  "Token d = (case pending d of
                [] \<Rightarrow> (Inl (at_end d), d)
              | t # ts \<Rightarrow> (Inr t, d\<lparr>pending := ts\<rparr>))"

text \<open>
  \<open>Decoder.Skip\<close>: read tokens until the end element that matches the start element
  consumed last, counting the depth of the elements in between.  \<open>skipTokens\<close> is its
  loop over the tokens left; \<open>None\<close> when they run out first.
\<close>

fun skipTokens :: "nat \<Rightarrow> token list \<Rightarrow> token list option" where
  "skipTokens depth [] = None"
| "skipTokens depth (StartElement n as # ts) = skipTokens (Suc depth) ts"
| "skipTokens depth (EndElement n # ts) =
     (if depth = 0 then Some ts else skipTokens (depth - 1) ts)"
| "skipTokens depth (t # ts) = skipTokens depth ts"

definition Skip :: "Decoder \<Rightarrow> error option \<times> Decoder" where
  "Skip d = (case skipTokens 0 (pending d) of
               None \<Rightarrow> (Some (at_end d), d\<lparr>pending := []\<rparr>)
             | Some ts \<Rightarrow> (None, d\<lparr>pending := ts\<rparr>))"

text \<open>
  \<open>Decoder.DecodeElement(v, start)\<close> consumes the tokens of the element opened by
  \<open>start\<close>, through its end element, and fills \<open>v\<close> from them.  How the attributes and
  children map to the fields of \<open>v\<close> is fixed by the struct tags of \<open>v\<close>, declared
  outside the sources at hand: the mapping is the parameter \<open>unmarshal\<close>, which gets the
  start element and the tokens between it and its end element.
\<close>

fun subtree :: "nat \<Rightarrow> token list \<Rightarrow> (token list \<times> token list) option" where
  "subtree depth [] = None"
| "subtree depth (StartElement n as # ts) =
     map_option (\<lambda>(body, rest). (StartElement n as # body, rest)) (subtree (Suc depth) ts)"
| "subtree depth (EndElement n # ts) =
     (if depth = 0 then Some ([], ts)
      else map_option (\<lambda>(body, rest). (EndElement n # body, rest)) (subtree (depth - 1) ts))"
| "subtree depth (t # ts) =
     map_option (\<lambda>(body, rest). (t # body, rest)) (subtree depth ts)"

definition DecodeElement ::
  "(token \<Rightarrow> token list \<Rightarrow> error + 'v) \<Rightarrow> Decoder \<Rightarrow> token \<Rightarrow> (error + 'v) \<times> Decoder" where
  "DecodeElement unmarshal d start =
     (case subtree 0 (pending d) of
        None \<Rightarrow> (Inl (at_end d), d\<lparr>pending := []\<rparr>)
      | Some (body, rest) \<Rightarrow> (unmarshal start body, d\<lparr>pending := rest\<rparr>))"

subsection \<open>\<open>findElem\<close>\<close>

text \<open>
  \<open>findElem(decoder, names...)\<close>: read tokens up to the first start element whose
  local name is one of \<open>names\<close>; a start element of another name is skipped with its
  whole content; tokens that are no start elements are passed over.  Every round of the
  loop consumes at least one token.
\<close>

lemma skipTokens_length: "skipTokens depth ts = Some ts' \<Longrightarrow> length ts' < length ts"
  by (induction depth ts rule: skipTokens.induct) (auto split: if_splits)

function findElem :: "Decoder \<Rightarrow> string list \<Rightarrow> (error + token) \<times> Decoder" where
  "findElem decoder names =
     (case Token decoder of
        (Inl err, d1) \<Rightarrow> (Inl err, d1)
      | (Inr t, d1) \<Rightarrow>
          (case t of
             StartElement n as \<Rightarrow>
               (if n \<in> set names then (Inr t, d1)
                else (case Skip d1 of
                        (Some err, d2) \<Rightarrow> (Inl err, d2)
                      | (None, d2) \<Rightarrow> findElem d2 names))
           | _ \<Rightarrow> findElem d1 names))"
  by pat_completeness auto
termination
proof (relation "measure (\<lambda>(d, names). length (pending d))")
  show "wf (measure (\<lambda>(d, names). length (pending d)))" by simp
qed (auto simp: Token_def Skip_def split: list.splits option.splits dest: skipTokens_length)

declare findElem.simps [simp del]

lemma Token_pending:
  "Token d = (Inr t, d1) \<Longrightarrow> length (pending d1) < length (pending d)"
  by (auto simp: Token_def split: list.splits)

lemma Skip_pending:
  "Skip d = (None, d1) \<Longrightarrow> length (pending d1) < length (pending d)"
  by (auto simp: Skip_def split: option.splits dest: skipTokens_length)

lemma findElem_pending:
  "findElem d names = (Inr t, d1) \<Longrightarrow> length (pending d1) < length (pending d)"
proof (induction d names rule: findElem.induct)
  case (1 decoder names)
  show ?case
  proof (cases "Token decoder")
    case (Pair r d2)
    show ?thesis
    proof (cases r)
      case (Inl err)
      with Pair "1.prems" show ?thesis
        by (subst (asm) findElem.simps) simp
    next
      case (Inr tok)
      note tk = Pair [unfolded Inr]
      show ?thesis
      proof (cases tok)
        case (StartElement n as)
        show ?thesis
        proof (cases "n \<in> set names")
          case True
          with tk StartElement "1.prems" have "d1 = d2"
            by (subst (asm) findElem.simps) simp
          with Token_pending [OF tk] show ?thesis by simp
        next
          case False
          show ?thesis
          proof (cases "Skip d2")
            case sk: (Pair e d3)
            show ?thesis
            proof (cases e)
              case None
              with sk tk StartElement False "1.prems"
              have "findElem d3 names = (Inr t, d1)"
                by (subst (asm) findElem.simps) simp
              from "1.IH"(1) [OF tk [symmetric] refl StartElement False sk [unfolded None, symmetric] refl this]
                Skip_pending [OF sk [unfolded None]] Token_pending [OF tk]
              show ?thesis by simp
            next
              case (Some err)
              with sk tk StartElement False "1.prems" show ?thesis
                by (subst (asm) findElem.simps) simp
            qed
          qed
        qed
      next
        case (EndElement n)
        with tk "1.prems" have f: "findElem d2 names = (Inr t, d1)"
          by (subst (asm) findElem.simps) simp
        from "1.IH"(2) [OF tk [symmetric] refl EndElement f] Token_pending [OF tk]
        show ?thesis by simp
      next
        case (CharData s)
        with tk "1.prems" have f: "findElem d2 names = (Inr t, d1)"
          by (subst (asm) findElem.simps) simp
        from "1.IH"(3) [OF tk [symmetric] refl CharData f] Token_pending [OF tk]
        show ?thesis by simp
      next
        case (Comment s)
        with tk "1.prems" have f: "findElem d2 names = (Inr t, d1)"
          by (subst (asm) findElem.simps) simp
        from "1.IH"(4) [OF tk [symmetric] refl Comment f] Token_pending [OF tk]
        show ?thesis by simp
      next
        case (ProcInst s1 s2)
        with tk "1.prems" have f: "findElem d2 names = (Inr t, d1)"
          by (subst (asm) findElem.simps) simp
        from "1.IH"(5) [OF tk [symmetric] refl ProcInst f] Token_pending [OF tk]
        show ?thesis by simp
      next
        case (Directive s)
        with tk "1.prems" have f: "findElem d2 names = (Inr t, d1)"
          by (subst (asm) findElem.simps) simp
        from "1.IH"(6) [OF tk [symmetric] refl Directive f] Token_pending [OF tk]
        show ?thesis by simp
      qed
    qed
  qed
qed

subsection \<open>\<open>MessageDecoder\<close> and \<open>CallDecoder\<close>\<close>

record BackupInfo =
  BackupInfo_Count :: string
  BackupInfo_BackupSet :: string
  BackupInfo_BackupDate :: string

record Call =
  Call_Number :: string
  Call_Duration :: string
  Call_Date :: string
  Call_Type :: string
  Call_ReadableDate :: string
  Call_ContactName :: string

text \<open>
  A handler is a Go closure: it gets the decoded record and acts on state of its own
  (a sink, counters, a slice it appends to).  That state is the type parameter \<open>'s\<close>,
  passed in and returned; a handler field that is \<open>nil\<close> is \<open>None\<close>.
\<close>

type_synonym ('v, 's) handler = "'v \<Rightarrow> 's \<Rightarrow> error option \<times> 's"

record 's MessageDecoder =
  MessageDecoder_decoder :: Decoder
  MessageDecoder_BackupInfo :: BackupInfo
  OnSMS :: "(SMS, 's) handler option"
  OnMMS :: "(MMS, 's) handler option"

record 's CallDecoder =
  CallDecoder_decoder :: Decoder
  CallDecoder_BackupInfo :: BackupInfo
  OnCall :: "(Call, 's) handler option"

fun Name_Local :: "token \<Rightarrow> string" where
  "Name_Local (StartElement n as) = n"
| "Name_Local (EndElement n) = n"
| "Name_Local t = []"

fun Attr :: "token \<Rightarrow> (string \<times> string) list" where
  "Attr (StartElement n as) = as"
| "Attr t = []"

fun fillAttrs :: "BackupInfo \<Rightarrow> (string \<times> string) list \<Rightarrow> BackupInfo" where
  "fillAttrs info [] = info"
| "fillAttrs info ((name, val) # attrs) =
     fillAttrs
       (if name = ''count'' then info\<lparr>BackupInfo_Count := val\<rparr>
        else if name = ''backup_set'' then info\<lparr>BackupInfo_BackupSet := val\<rparr>
        else if name = ''backup_date'' then info\<lparr>BackupInfo_BackupDate := val\<rparr>
        else info)
       attrs"

definition fillBackupInfo :: "BackupInfo \<Rightarrow> token \<Rightarrow> BackupInfo" where
  "fillBackupInfo info elem = fillAttrs info (Attr elem)"

definition zeroBackupInfo :: BackupInfo where
  "zeroBackupInfo =
     \<lparr>BackupInfo_Count = [], BackupInfo_BackupSet = [], BackupInfo_BackupDate = []\<rparr>"

definition NewMessageDecoder :: "Decoder \<Rightarrow> error + 's MessageDecoder" where
  "NewMessageDecoder stream =
     (case findElem stream [''smses''] of
        (Inl err, d) \<Rightarrow> Inl (Wrap ''unable to find root smses element'' err)
      | (Inr root, d) \<Rightarrow>
          Inr \<lparr>MessageDecoder_decoder = d,
               MessageDecoder_BackupInfo = fillBackupInfo zeroBackupInfo root,
               OnSMS = None, OnMMS = None\<rparr>)"

definition NewCallDecoder :: "Decoder \<Rightarrow> error + 's CallDecoder" where
  "NewCallDecoder stream =
     (case findElem stream [''calls''] of
        (Inl err, d) \<Rightarrow> Inl (Wrap ''unable to find root calls element'' err)
      | (Inr root, d) \<Rightarrow>
          Inr \<lparr>CallDecoder_decoder = d,
               CallDecoder_BackupInfo = fillBackupInfo zeroBackupInfo root,
               OnCall = None\<rparr>)"

lemma DecodeElement_pending:
  "DecodeElement unmarshal d start = (r, d1) \<Longrightarrow> length (pending d1) \<le> length (pending d)"
proof -
  have "subtree depth ts = Some (body, rest) \<Longrightarrow> length rest < length ts"
    for depth ts body rest
    by (induction depth ts arbitrary: body rest rule: subtree.induct)
       (auto split: if_splits)
  then show "DecodeElement unmarshal d start = (r, d1) \<Longrightarrow> ?thesis"
    by (fastforce simp: DecodeElement_def split: option.splits)
qed

text \<open>
  The loop of \<open>MessageDecoder.Decode\<close>.  The decoder is the one field of the receiver
  that the loop changes; the state of the handlers is passed along.  The result is the
  outcome, the receiver and the handler state.
\<close>

function Decode_loop ::
  "(token \<Rightarrow> token list \<Rightarrow> error + SMS) \<Rightarrow> (token \<Rightarrow> token list \<Rightarrow> error + MMS)
     \<Rightarrow> 's MessageDecoder \<Rightarrow> 's \<Rightarrow> outcome \<times> 's MessageDecoder \<times> 's" where
  "Decode_loop unmarshalSMS unmarshalMMS d st =
     (case findElem (MessageDecoder_decoder d) [''sms'', ''mms''] of
        (Inl err, dec) \<Rightarrow>
          (if errors_Is_EOF err
           then (Return None, d\<lparr>MessageDecoder_decoder := dec\<rparr>, st)
           else (Return (Some (Wrap ''unable to find sms or mms element'' err)),
                 d\<lparr>MessageDecoder_decoder := dec\<rparr>, st))
      | (Inr child, dec) \<Rightarrow>
          (if Name_Local child = ''sms'' then
             (case OnSMS d of
                None \<Rightarrow>
                  (case Skip dec of
                     (Some err, dec') \<Rightarrow>
                       (Return (Some err), d\<lparr>MessageDecoder_decoder := dec'\<rparr>, st)
                   | (None, dec') \<Rightarrow>
                       Decode_loop unmarshalSMS unmarshalMMS
                         (d\<lparr>MessageDecoder_decoder := dec'\<rparr>) st)
              | Some handleSMS \<Rightarrow>
                  (case DecodeElement unmarshalSMS dec child of
                     (Inl err, dec') \<Rightarrow>
                       (Return (Some (Wrap ''unable to decode sms element'' err)),
                        d\<lparr>MessageDecoder_decoder := dec'\<rparr>, st)
                   | (Inr sms, dec') \<Rightarrow>
                       (case handleSMS sms st of
                          (Some err, st') \<Rightarrow>
                            (Return (Some err), d\<lparr>MessageDecoder_decoder := dec'\<rparr>, st')
                        | (None, st') \<Rightarrow>
                            Decode_loop unmarshalSMS unmarshalMMS
                              (d\<lparr>MessageDecoder_decoder := dec'\<rparr>) st')))
           else if Name_Local child = ''mms'' then
             (case OnMMS d of
                None \<Rightarrow>
                  (case Skip dec of
                     (Some err, dec') \<Rightarrow>
                       (Return (Some err), d\<lparr>MessageDecoder_decoder := dec'\<rparr>, st)
                   | (None, dec') \<Rightarrow>
                       Decode_loop unmarshalSMS unmarshalMMS
                         (d\<lparr>MessageDecoder_decoder := dec'\<rparr>) st)
              | Some handleMMS \<Rightarrow>
                  (case DecodeElement unmarshalMMS dec child of
                     (Inl err, dec') \<Rightarrow>
                       (Return (Some (Wrap ''unable to decode mms element'' err)),
                        d\<lparr>MessageDecoder_decoder := dec'\<rparr>, st)
                   | (Inr mms, dec') \<Rightarrow>
                       (case handleMMS mms st of
                          (Some err, st') \<Rightarrow>
                            (Return (Some err), d\<lparr>MessageDecoder_decoder := dec'\<rparr>, st')
                        | (None, st') \<Rightarrow>
                            Decode_loop unmarshalSMS unmarshalMMS
                              (d\<lparr>MessageDecoder_decoder := dec'\<rparr>) st')))
           else (Panic ''unexpected element'', d\<lparr>MessageDecoder_decoder := dec\<rparr>, st)))"
  by pat_completeness auto
termination
proof (relation "measure (\<lambda>(us, um, d, st). length (pending (MessageDecoder_decoder d)))")
  show "wf (measure (\<lambda>(us, um, d, st :: 's).
          length (pending (MessageDecoder_decoder (d :: 's MessageDecoder)))))"
    by simp
qed (auto dest!: sym [of "(_, _)" "findElem _ _"] sym [of "(_, _)" "Skip _"]
          sym [of "(_, _)" "DecodeElement _ _ _"]
          findElem_pending Skip_pending DecodeElement_pending)

declare Decode_loop.simps [simp del]

text \<open>\<open>MessageDecoder.Decode\<close>: the check of the handlers, then the loop.\<close>

definition Decode ::
  "(token \<Rightarrow> token list \<Rightarrow> error + SMS) \<Rightarrow> (token \<Rightarrow> token list \<Rightarrow> error + MMS)
     \<Rightarrow> 's MessageDecoder \<Rightarrow> 's \<Rightarrow> outcome \<times> 's MessageDecoder \<times> 's" where
  "Decode unmarshalSMS unmarshalMMS d st =
     (if OnSMS d = None \<and> OnMMS d = None
      then (Panic ''OnSMS or OnMMS must be set'', d, st)
      else Decode_loop unmarshalSMS unmarshalMMS d st)"

text \<open>
  \<open>CallDecoder.Decode\<close>, in the same way.  The loop calls \<open>d.OnCall\<close> unguarded: a
  call of a \<open>nil\<close> function value panics.
\<close>

function CallDecode_loop ::
  "(token \<Rightarrow> token list \<Rightarrow> error + Call) \<Rightarrow> 's CallDecoder \<Rightarrow> 's
     \<Rightarrow> outcome \<times> 's CallDecoder \<times> 's" where
  "CallDecode_loop unmarshalCall d st =
     (case findElem (CallDecoder_decoder d) [''call''] of
        (Inl err, dec) \<Rightarrow>
          (if errors_Is_EOF err
           then (Return None, d\<lparr>CallDecoder_decoder := dec\<rparr>, st)
           else (Return (Some (Wrap ''unable to find call element'' err)),
                 d\<lparr>CallDecoder_decoder := dec\<rparr>, st))
      | (Inr child, dec) \<Rightarrow>
          (case DecodeElement unmarshalCall dec child of
             (Inl err, dec') \<Rightarrow>
               (Return (Some (Wrap ''unable to decode call element'' err)),
                d\<lparr>CallDecoder_decoder := dec'\<rparr>, st)
           | (Inr call, dec') \<Rightarrow>
               (case OnCall d of
                  None \<Rightarrow>
                    (Panic ''invalid memory address or nil pointer dereference'',
                     d\<lparr>CallDecoder_decoder := dec'\<rparr>, st)
                | Some handleCall \<Rightarrow>
                    (case handleCall call st of
                       (Some err, st') \<Rightarrow>
                         (Return (Some err), d\<lparr>CallDecoder_decoder := dec'\<rparr>, st')
                     | (None, st') \<Rightarrow>
                         CallDecode_loop unmarshalCall
                           (d\<lparr>CallDecoder_decoder := dec'\<rparr>) st'))))"
  by pat_completeness auto
termination
proof (relation "measure (\<lambda>(uc, d, st). length (pending (CallDecoder_decoder d)))")
  show "wf (measure (\<lambda>(uc, d, st :: 's).
          length (pending (CallDecoder_decoder (d :: 's CallDecoder)))))"
    by simp
qed (auto dest!: sym [of "(_, _)" "findElem _ _"] sym [of "(_, _)" "DecodeElement _ _ _"]
          findElem_pending DecodeElement_pending)

declare CallDecode_loop.simps [simp del]

definition CallDecode ::
  "(token \<Rightarrow> token list \<Rightarrow> error + Call) \<Rightarrow> 's CallDecoder \<Rightarrow> 's
     \<Rightarrow> outcome \<times> 's CallDecoder \<times> 's" where
  "CallDecode unmarshalCall d st =
     (if OnCall d = None then (Panic ''OnCall must be set'', d, st)
      else CallDecode_loop unmarshalCall d st)"

subsection \<open>Documents and document order\<close>

text \<open>
  The source document, for stating what the decoder delivers: a node is an element with
  its attributes and children, or character data, a comment, a processing instruction
  or a directive.  \<open>flatten\<close> is the token sequence the XML decoder reads for a node,
  and \<open>flattenAll\<close> for a sequence of sibling nodes.
\<close>

datatype node =
    Element string "(string \<times> string) list" "node list"
  | Text string
  | CommentNode string
  | ProcInstNode string string
  | DirectiveNode string

fun flatten :: "node \<Rightarrow> token list" where
  "flatten (Element n as kids) = StartElement n as # concat (map flatten kids) @ [EndElement n]"
| "flatten (Text s) = [CharData s]"
| "flatten (CommentNode s) = [Comment s]"
| "flatten (ProcInstNode target inst) = [ProcInst target inst]"
| "flatten (DirectiveNode s) = [Directive s]"

definition flattenAll :: "node list \<Rightarrow> token list" where
  "flattenAll kids = concat (map flatten kids)"

text \<open>
  Delivery in document order, following the words of the specification: go through the
  children of the root from first to last; an \<open>sms\<close> or \<open>mms\<close> element whose handler is
  configured is decoded and handed to that handler; an element without a handler, an
  element of any other name and a node that is no element are passed over; the first
  error ends the delivery.
\<close>

fun deliverInOrder ::
  "(token \<Rightarrow> token list \<Rightarrow> error + SMS) \<Rightarrow> (token \<Rightarrow> token list \<Rightarrow> error + MMS)
     \<Rightarrow> 's MessageDecoder \<Rightarrow> node list \<Rightarrow> 's \<Rightarrow> error option \<times> 's" where
  "deliverInOrder unmarshalSMS unmarshalMMS d [] st = (None, st)"
| "deliverInOrder unmarshalSMS unmarshalMMS d (Element n as kids # ns) st =
     (if n = ''sms'' then
        (case OnSMS d of
           None \<Rightarrow> deliverInOrder unmarshalSMS unmarshalMMS d ns st
         | Some handleSMS \<Rightarrow>
             (case unmarshalSMS (StartElement n as) (flattenAll kids) of
                Inl err \<Rightarrow> (Some (Wrap ''unable to decode sms element'' err), st)
              | Inr sms \<Rightarrow>
                  (case handleSMS sms st of
                     (Some err, st') \<Rightarrow> (Some err, st')
                   | (None, st') \<Rightarrow> deliverInOrder unmarshalSMS unmarshalMMS d ns st')))
      else if n = ''mms'' then
        (case OnMMS d of
           None \<Rightarrow> deliverInOrder unmarshalSMS unmarshalMMS d ns st
         | Some handleMMS \<Rightarrow>
             (case unmarshalMMS (StartElement n as) (flattenAll kids) of
                Inl err \<Rightarrow> (Some (Wrap ''unable to decode mms element'' err), st)
              | Inr mms \<Rightarrow>
                  (case handleMMS mms st of
                     (Some err, st') \<Rightarrow> (Some err, st')
                   | (None, st') \<Rightarrow> deliverInOrder unmarshalSMS unmarshalMMS d ns st')))
      else deliverInOrder unmarshalSMS unmarshalMMS d ns st)"
| "deliverInOrder unmarshalSMS unmarshalMMS d (n # ns) st =
     deliverInOrder unmarshalSMS unmarshalMMS d ns st"

text \<open>A token that opens an element.\<close>

fun isStart :: "token \<Rightarrow> bool" where
  "isStart (StartElement n as) = True"
| "isStart t = False"

text \<open>
  Handlers that record their invocations, the way the aggregate mode appends the records
  to a slice: the handler state is the list of invocations so far.
\<close>

datatype invocation = CallOnSMS SMS | CallOnMMS MMS

definition recordSMS :: "(SMS, invocation list) handler" where
  "recordSMS sms calls = (None, calls @ [CallOnSMS sms])"

definition recordMMS :: "(MMS, invocation list) handler" where
  "recordMMS mms calls = (None, calls @ [CallOnMMS mms])"

text \<open>The outcome and the handler state of a run, without the receiver.\<close>

definition outcomeAndState :: "outcome \<times> 'd \<times> 's \<Rightarrow> outcome \<times> 's" where
  "outcomeAndState r = (fst r, snd (snd r))"

text \<open>
  The document sequence of message elements: the children of the root named \<open>sms\<close> or
  \<open>mms\<close>, and for each of them the invocation that hands its decoded record to the
  handler of its kind (none when the element does not decode).
\<close>

fun isMessage :: "node \<Rightarrow> bool" where
  "isMessage (Element n as kids) = (n = ''sms'' \<or> n = ''mms'')"
| "isMessage k = False"

fun invocationOf ::
  "(token \<Rightarrow> token list \<Rightarrow> error + SMS) \<Rightarrow> (token \<Rightarrow> token list \<Rightarrow> error + MMS)
     \<Rightarrow> node \<Rightarrow> invocation option" where
  "invocationOf unmarshalSMS unmarshalMMS (Element n as kids) =
     (if n = ''sms'' then
        (case unmarshalSMS (StartElement n as) (flattenAll kids) of
           Inl err \<Rightarrow> None | Inr sms \<Rightarrow> Some (CallOnSMS sms))
      else if n = ''mms'' then
        (case unmarshalMMS (StartElement n as) (flattenAll kids) of
           Inl err \<Rightarrow> None | Inr mms \<Rightarrow> Some (CallOnMMS mms))
      else None)"
| "invocationOf unmarshalSMS unmarshalMMS k = None"

text \<open>
  Sample unmarshalling for the worked examples: the address and the contact name are
  read from the attributes of the start element.
\<close>

definition attrOr :: "(string \<times> string) list \<Rightarrow> string \<Rightarrow> string" where
  "attrOr attrs name = (case map_of attrs name of None \<Rightarrow> [] | Some v \<Rightarrow> v)"

definition sampleUnmarshalSMS :: "token \<Rightarrow> token list \<Rightarrow> error + SMS" where
  "sampleUnmarshalSMS start body =
     Inr (mkSMS (attrOr (Attr start) ''address'') (attrOr (Attr start) ''contact_name''))"

definition sampleUnmarshalMMS :: "token \<Rightarrow> token list \<Rightarrow> error + MMS" where
  "sampleUnmarshalMMS start body =
     Inr (mkMMS (attrOr (Attr start) ''address'') (attrOr (Attr start) ''contact_name'') [])"

text \<open>
  A sample document: the children of the root are an SMS, an element of an unknown kind
  that encloses an \<open>sms\<close> element, an MMS with nested parts, a comment and a second
  SMS, with character data in between; the trailer closes the root.
\<close>

definition sampleChildren :: "node list" where
  "sampleChildren =
     [Text '' '',
      Element ''sms'' [(''address'', ''111''), (''contact_name'', ''Ann'')] [],
      Element ''extension'' []
        [Element ''sms'' [(''address'', ''999''), (''contact_name'', ''Zed'')] []],
      Element ''mms'' [(''address'', ''222~333''), (''contact_name'', ''Bob, Cy'')]
        [Element ''parts'' [] [Element ''part'' [(''text'', ''hello'')] []],
         Element ''addrs'' [] [Element ''addr'' [(''address'', ''222'')] []]],
      CommentNode ''c'',
      Element ''sms'' [(''address'', ''444''), (''contact_name'', ''Dee'')] [],
      Text '' '']"

definition sampleTrailer :: "token list" where
  "sampleTrailer = [EndElement ''smses'', CharData '' '']"

text \<open>A backup file without records: the root element and its end.\<close>

definition emptyBackup :: "string \<Rightarrow> Decoder" where
  "emptyBackup root =
     \<lparr>pending = [StartElement root [(''count'', ''0'')], EndElement root], at_end = EOF\<rparr>"

section \<open>Flat-file sink for SMS (sms.go)\<close>

text \<open>
  The \<open>String()\<close> methods of the field types of \<open>SMS\<close> and the helpers
  \<open>CleanupMessageBody\<close> and \<open>RemoveCommasBeforeSuffixes\<close> are declared outside the sources
  at hand.  They are taken as parameters, one per call site, collected in a record.
\<close>

record Rendering =
  Address_String :: "string \<Rightarrow> string"
  Type_String :: "string \<Rightarrow> string"
  ServiceCenter_String :: "string \<Rightarrow> string"
  Status_String :: "string \<Rightarrow> string"
  Read_String :: "string \<Rightarrow> string"
  Date_String :: "string \<Rightarrow> string"
  Locked_String :: "string \<Rightarrow> string"
  DateSent_String :: "string \<Rightarrow> string"
  CleanupMessageBody :: "string \<Rightarrow> string"
  RemoveCommasBeforeSuffixes :: "string \<Rightarrow> string"

text \<open>
  An \<open>io.Writer\<close> is an interface value shared with the caller.  It is modelled by a
  state \<open>'w\<close>, passed through the calls, and its \<open>Write\<close> method: the bytes go in, an
  error or \<open>nil\<close> comes out, with the new state.
\<close>

type_synonym 'w writer = "'w \<Rightarrow> string \<Rightarrow> error option \<times> 'w"

text \<open>\<open>strings.Join\<close>.\<close>

fun Join :: "string list \<Rightarrow> string \<Rightarrow> string" where
  "Join [] sep = []"
| "Join [x] sep = x"
| "Join (x # y # ys) sep = x @ sep @ Join (y # ys) sep"

text \<open>
  \<open>fmt.Fprintln(f, s)\<close> with one string operand: the string and a line feed, handed to
  the writer in one call of \<open>Write\<close>.
\<close>

definition Fprintln :: "'w writer \<Rightarrow> 'w \<Rightarrow> string \<Rightarrow> error option \<times> 'w" where
  "Fprintln fw f s = fw f (s @ [CHR 0x0A])"

text \<open>\<open>strconv.Itoa\<close>: the decimal digits, with a minus sign for a negative number.\<close>

definition digitChar :: "nat \<Rightarrow> char" where
  "digitChar d = ''0123456789'' ! d"

fun decimal :: "nat \<Rightarrow> string" where
  "decimal n = (if n < 10 then [digitChar n] else decimal (n div 10) @ [digitChar (n mod 10)])"

declare decimal.simps [simp del]

definition Itoa :: "int \<Rightarrow> string" where
  "Itoa i = (if i < 0 then CHR ''-'' # decimal (nat (- i)) else decimal (nat i))"

text \<open>
  \<open>SMSOutput\<close>: the writer \<open>f\<close> is the caller's, its state is passed along; the struct
  keeps the counter \<open>idx\<close>, a Go \<open>int\<close> of 64 bits (on a 32-bit platform the same with
  32 bits), which \<open>idx++\<close> wraps around.
\<close>

record SMSOutput =
  SMSOutput_idx :: "64 word"

definition headers :: "string list" where
  "headers =
     [''SMS Index #'', ''Protocol'', ''Address'', ''Type'', ''Subject'', ''Body'',
      ''Service Center'', ''Status'', ''Read'', ''Date'', ''Locked'', ''Date Sent'',
      ''Readable Date'', ''Contact Name'']"

definition NewSMSOutput :: "'w writer \<Rightarrow> 'w \<Rightarrow> (error + SMSOutput) \<times> 'w" where
  "NewSMSOutput fw f =
     (case Fprintln fw f (Join headers [CHR 0x09]) of
        (Some err, f') \<Rightarrow> (Inl err, f')
      | (None, f') \<Rightarrow> (Inr \<lparr>SMSOutput_idx = 0\<rparr>, f'))"

definition SMSOutput_Write ::
  "'w writer \<Rightarrow> Rendering \<Rightarrow> SMSOutput \<Rightarrow> SMS \<Rightarrow> 'w \<Rightarrow> error option \<times> SMSOutput \<times> 'w" where
  "SMSOutput_Write fw r out sms f =
     (let row =
            [Itoa (sint (SMSOutput_idx out)),
             SMS_Protocol sms,
             Address_String r (SMS_Address sms),
             Type_String r (SMS_Type sms),
             SMS_Subject sms,
             CleanupMessageBody r (SMS_Body sms),
             ServiceCenter_String r (SMS_ServiceCenter sms),
             Status_String r (SMS_Status sms),
             Read_String r (SMS_Read sms),
             Date_String r (SMS_Date sms),
             Locked_String r (SMS_Locked sms),
             DateSent_String r (SMS_DateSent sms),
             SMS_ReadableDate sms,
             RemoveCommasBeforeSuffixes r (SMS_ContactName sms)];
          out' = out\<lparr>SMSOutput_idx := SMSOutput_idx out + 1\<rparr>;
          res = Fprintln fw f (Join row [CHR 0x09])
      in (fst res, out', snd res))"

text \<open>
  The loop of \<open>GenerateSMSOutput\<close> over \<open>m.SMS\<close>, which returns at the first error, and
  \<open>GenerateSMSOutput\<close> itself from the point where \<open>os.Create\<close> has returned the file
  \<open>smsOutput\<close>.
\<close>

fun writeSMSs ::
  "'w writer \<Rightarrow> Rendering \<Rightarrow> SMSOutput \<Rightarrow> SMS list \<Rightarrow> 'w \<Rightarrow> error option \<times> SMSOutput \<times> 'w" where
  "writeSMSs fw r out [] f = (None, out, f)"
| "writeSMSs fw r out (sms # rest) f =
     (case SMSOutput_Write fw r out sms f of
        (Some err, out', f') \<Rightarrow> (Some err, out', f')
      | (None, out', f') \<Rightarrow> writeSMSs fw r out' rest f')"

definition GenerateSMSOutput ::
  "'w writer \<Rightarrow> Rendering \<Rightarrow> Messages \<Rightarrow> 'w \<Rightarrow> error option \<times> 'w" where
  "GenerateSMSOutput fw r m smsOutput =
     (case NewSMSOutput fw smsOutput of
        (Inl err, f) \<Rightarrow> (Some err, f)
      | (Inr out, f) \<Rightarrow>
          (case writeSMSs fw r out (Messages_SMS m) f of (err, out', f') \<Rightarrow> (err, f')))"

text \<open>
  What a writer is asked to write, for stating the properties of the sink: \<open>feed\<close> hands
  the chunks to the writer one by one and stops at the first error; the in-memory
  writer \<open>appendLine\<close> keeps every chunk it was handed as one line of the file.
\<close>

fun feed :: "'w writer \<Rightarrow> 'w \<Rightarrow> string list \<Rightarrow> error option \<times> 'w" where
  "feed fw f [] = (None, f)"
| "feed fw f (c # cs) =
     (case fw f c of (Some err, f') \<Rightarrow> (Some err, f') | (None, f') \<Rightarrow> feed fw f' cs)"

definition appendLine :: "string list writer" where
  "appendLine f s = (None, f @ [s])"

definition plainRendering :: Rendering where
  "plainRendering =
     \<lparr>Address_String = (\<lambda>s. s), Type_String = (\<lambda>s. s), ServiceCenter_String = (\<lambda>s. s),
      Status_String = (\<lambda>s. s), Read_String = (\<lambda>s. s), Date_String = (\<lambda>s. s),
      Locked_String = (\<lambda>s. s), DateSent_String = (\<lambda>s. s),
      CleanupMessageBody = (\<lambda>s. s), RemoveCommasBeforeSuffixes = (\<lambda>s. s)\<rparr>"

text \<open>
  For stating what the sink writes, byte by byte and without \<open>Join\<close>: the line of the
  \<open>i\<close>-th record is the decimal rendering of \<open>i\<close> and the thirteen values of the
  record in the column order of the specification (protocol, address, type, subject,
  body, service_center, status, read, date, locked, date_sent, readable_date,
  contact_name), each followed by a tab, the last by a line feed.
\<close>

abbreviation TAB :: char where
  "TAB \<equiv> CHR 0x09"

abbreviation LF :: char where
  "LF \<equiv> CHR 0x0A"

abbreviation headerRow :: string where
  "headerRow \<equiv>
     ''SMS Index #'' @ TAB # ''Protocol'' @ TAB # ''Address'' @ TAB # ''Type'' @ TAB #
     ''Subject'' @ TAB # ''Body'' @ TAB # ''Service Center'' @ TAB # ''Status'' @ TAB #
     ''Read'' @ TAB # ''Date'' @ TAB # ''Locked'' @ TAB # ''Date Sent'' @ TAB #
     ''Readable Date'' @ TAB # ''Contact Name''"

abbreviation smsRowText :: "Rendering \<Rightarrow> nat \<Rightarrow> SMS \<Rightarrow> string" where
  "smsRowText r i sms \<equiv>
     Itoa (int i) @ TAB #
     SMS_Protocol sms @ TAB #
     Address_String r (SMS_Address sms) @ TAB #
     Type_String r (SMS_Type sms) @ TAB #
     SMS_Subject sms @ TAB #
     CleanupMessageBody r (SMS_Body sms) @ TAB #
     ServiceCenter_String r (SMS_ServiceCenter sms) @ TAB #
     Status_String r (SMS_Status sms) @ TAB #
     Read_String r (SMS_Read sms) @ TAB #
     Date_String r (SMS_Date sms) @ TAB #
     Locked_String r (SMS_Locked sms) @ TAB #
     DateSent_String r (SMS_DateSent sms) @ TAB #
     SMS_ReadableDate sms @ TAB #
     RemoveCommasBeforeSuffixes r (SMS_ContactName sms)"

text \<open>
  The thirteen values of a record, in the column order of the specification, and the
  number that a string of decimal digits denotes.
\<close>

definition smsValues :: "Rendering \<Rightarrow> SMS \<Rightarrow> string list" where
  "smsValues r sms =
     [SMS_Protocol sms,
      Address_String r (SMS_Address sms),
      Type_String r (SMS_Type sms),
      SMS_Subject sms,
      CleanupMessageBody r (SMS_Body sms),
      ServiceCenter_String r (SMS_ServiceCenter sms),
      Status_String r (SMS_Status sms),
      Read_String r (SMS_Read sms),
      Date_String r (SMS_Date sms),
      Locked_String r (SMS_Locked sms),
      DateSent_String r (SMS_DateSent sms),
      SMS_ReadableDate sms,
      RemoveCommasBeforeSuffixes r (SMS_ContactName sms)]"

definition digitValue :: "char \<Rightarrow> nat" where
  "digitValue c = length (takeWhile (\<lambda>d. d \<noteq> c) ''0123456789'')"

definition decimalValue :: "string \<Rightarrow> nat" where
  "decimalValue s = foldl (\<lambda>v c. 10 * v + digitValue c) 0 s"

definition outcomeAndFile :: "error option \<times> SMSOutput \<times> 'w \<Rightarrow> error option \<times> 'w" where
  "outcomeAndFile res = (fst res, snd (snd res))"

section \<open>Relational sink (package main, the variant that writes \<open>result.db\<close>)\<close>

subsection \<open>The store and its transaction\<close>

text \<open>\<open>strOrNil\<close>: the \<open>nil\<close> pointer, stored as SQL NULL, is \<open>None\<close>.\<close>

definition strOrNil :: "string \<Rightarrow> string option" where
  "strOrNil s = (if s = [] \<or> s = ''null'' then None else Some s)"

text \<open>
  The rows of the three tables, one field per column bound by the \<open>INSERT\<close> statements
  (the \<open>id\<close> columns are filled by the database).  A column bound to a \<open>*string\<close> is a
  \<open>string option\<close>.  The column \<open>addresses_joined\<close> holds the JSON rendering of a list
  of \<open>AddressInfo\<close>; \<open>json.Marshal\<close> of such a list cannot fail and loses nothing, so the
  column is modelled by the list itself.
\<close>

record SmsRow =
  SmsRow_protocol :: string
  SmsRow_address :: string
  SmsRow_ty :: string
  SmsRow_subject :: "string option"
  SmsRow_body :: string
  SmsRow_service_center :: "string option"
  SmsRow_status :: string
  SmsRow_read :: string
  SmsRow_date :: string
  SmsRow_locked :: string
  SmsRow_date_sent :: string
  SmsRow_readable_date :: string
  SmsRow_contact_name :: string

record AddressInfo =
  AddressInfo_Address :: string
  AddressInfo_RawAddress :: string
  AddressInfo_Type :: string
  AddressInfo_Charset :: string

record MmsRow =
  MmsRow_text_only :: string
  MmsRow_read :: string
  MmsRow_date :: string
  MmsRow_locked :: string
  MmsRow_date_sent :: string
  MmsRow_readable_date :: string
  MmsRow_contact_name :: string
  MmsRow_seen :: string
  MmsRow_from_address :: "string option"
  MmsRow_address :: string
  MmsRow_message_classifier :: "string option"
  MmsRow_message_size :: "string option"
  MmsRow_addresses_joined :: "AddressInfo list"

record PartRow =
  PartRow_mms_id :: nat
  PartRow_content_type :: "string option"
  PartRow_name :: "string option"
  PartRow_file_name :: "string option"
  PartRow_content_display :: "string option"
  PartRow_text :: "string option"
  PartRow_raw_data :: "string option"

text \<open>
  The store is what a reader of \<open>result.db\<close> sees: the committed rows of each table, in
  the order of insertion.  A transaction holds the rows inserted through it and not yet
  committed, and counts the statements executed in it.
\<close>

record Store =
  Store_sms :: "SmsRow list"
  Store_mms :: "MmsRow list"
  Store_mms_parts :: "PartRow list"

record Tx =
  Tx_sms :: "SmsRow list"
  Tx_mms :: "MmsRow list"
  Tx_mms_parts :: "PartRow list"
  Tx_stmts :: nat

definition emptyTx :: Tx where
  "emptyTx = \<lparr>Tx_sms = [], Tx_mms = [], Tx_mms_parts = [], Tx_stmts = 0\<rparr>"

definition appendTx :: "Store \<Rightarrow> Tx \<Rightarrow> Store" where
  "appendTx store tx =
     \<lparr>Store_sms = Store_sms store @ Tx_sms tx,
      Store_mms = Store_mms store @ Tx_mms tx,
      Store_mms_parts = Store_mms_parts store @ Tx_mms_parts tx\<rparr>"

text \<open>
  What lies outside the program and may fail: opening the database, creating the
  tables, beginning the transaction and preparing the statements (\<open>setup_error\<close>), the
  \<open>n\<close>-th statement executed in the transaction (\<open>exec_error n\<close>), the commit
  (\<open>commit_error\<close>), and \<open>base64.StdEncoding.DecodeString\<close> of the standard library.
  \<open>None\<close> is success.
\<close>

record Sqlite =
  setup_error :: "error option"
  exec_error :: "nat \<Rightarrow> error option"
  commit_error :: "error option"
  DecodeString :: "string \<Rightarrow> error + string"

text \<open>
  \<open>StreamingOutput\<close>: \<open>db\<close> is the store as committed, \<open>tx\<close> the open transaction
  (\<open>None\<close> once it is committed or rolled back); the prepared statements live and die
  with the transaction.  The counters are Go \<open>int\<close>s.
\<close>

record StreamingOutput =
  StreamingOutput_db :: Store
  StreamingOutput_tx :: "Tx option"
  smsCount :: "64 word"
  mmsCount :: "64 word"
  callCount :: "64 word"

text \<open>
  \<open>NewStreamingOutput\<close>: the transaction begins here, once, before any file is looked
  at.  \<open>CREATE TABLE IF NOT EXISTS\<close> runs before \<open>BeginTx\<close>, outside the transaction;
  it creates tables that are missing and leaves the rows as they are, and the store of
  the model is the rows, not the schema.  The code returns the error of \<open>sql.Open\<close>,
  of \<open>db.Exec\<close>, of \<open>BeginTx\<close> and of the first two \<open>Prepare\<close>: they are
  \<open>setup_error\<close>.  It does not look at the error of the third \<open>Prepare\<close>; the model
  covers the databases for which the statement for \<open>mms_parts\<close> is prepared whenever
  the two before it are (with a \<open>nil\<close> statement the first part inserted, or else
  \<open>Close\<close>, would panic).
\<close>

definition NewStreamingOutput :: "Sqlite \<Rightarrow> Store \<Rightarrow> error + StreamingOutput" where
  "NewStreamingOutput env store =
     (case setup_error env of
        Some err \<Rightarrow> Inl err
      | None \<Rightarrow>
          Inr \<lparr>StreamingOutput_db = store, StreamingOutput_tx = Some emptyTx,
               smsCount = 0, mmsCount = 0, callCount = 0\<rparr>)"

text \<open>
  \<open>Stmt.Exec\<close> of an insert statement prepared on the transaction: the row is added to
  the transaction unless the database reports an error; after the transaction is done
  the statement is closed.
\<close>

definition Exec :: "Sqlite \<Rightarrow> Tx option \<Rightarrow> (Tx \<Rightarrow> Tx) \<Rightarrow> error option \<times> Tx option" where
  "Exec env txo ins =
     (case txo of
        None \<Rightarrow> (Some (Err ''sql: statement is closed''), None)
      | Some tx \<Rightarrow>
          (case exec_error env (Tx_stmts tx) of
             Some err \<Rightarrow> (Some err, Some (tx\<lparr>Tx_stmts := Suc (Tx_stmts tx)\<rparr>))
           | None \<Rightarrow> (None, Some ((ins tx)\<lparr>Tx_stmts := Suc (Tx_stmts tx)\<rparr>))))"

text \<open>
  \<open>Tx.Commit\<close>: the rows of the transaction become rows of the store.  A commit that
  fails leaves them uncommitted and the transaction done: the connection is closed with
  the transaction still open, which rolls it back.
\<close>

definition Commit :: "Sqlite \<Rightarrow> StreamingOutput \<Rightarrow> error option \<times> StreamingOutput" where
  "Commit env s =
     (case StreamingOutput_tx s of
        None \<Rightarrow> (Some (Err ''sql: transaction has already been committed or rolled back''), s)
      | Some tx \<Rightarrow>
          (case commit_error env of
             Some err \<Rightarrow> (Some err, s\<lparr>StreamingOutput_tx := None\<rparr>)
           | None \<Rightarrow>
               (None, s\<lparr>StreamingOutput_db := appendTx (StreamingOutput_db s) tx,
                        StreamingOutput_tx := None\<rparr>)))"

text \<open>
  \<open>Close\<close>: the statements are closed, \<open>tx.Rollback()\<close> drops what an open transaction
  holds (and does nothing after a commit), the database is closed.  What remains is the
  store.
\<close>

definition Close :: "StreamingOutput \<Rightarrow> Store" where
  "Close s = StreamingOutput_db s"

subsection \<open>The handlers\<close>

record MMSRendering =
  MMS_Read_String :: "string \<Rightarrow> string"
  MMS_FromAddress_String :: "string \<Rightarrow> string"
  MMS_Address_String :: "string \<Rightarrow> string"
  Addr_Address_String :: "string \<Rightarrow> string"
  Addr_Type_String :: "string \<Rightarrow> string"

definition smsRow :: "Rendering \<Rightarrow> SMS \<Rightarrow> SmsRow" where
  "smsRow r sms =
     \<lparr>SmsRow_protocol = SMS_Protocol sms,
      SmsRow_address = Address_String r (SMS_Address sms),
      SmsRow_ty = Type_String r (SMS_Type sms),
      SmsRow_subject = strOrNil (SMS_Subject sms),
      SmsRow_body = SMS_Body sms,
      SmsRow_service_center = strOrNil (ServiceCenter_String r (SMS_ServiceCenter sms)),
      SmsRow_status = Status_String r (SMS_Status sms),
      SmsRow_read = Read_String r (SMS_Read sms),
      SmsRow_date = SMS_Date sms,
      SmsRow_locked = SMS_Locked sms,
      SmsRow_date_sent = SMS_DateSent sms,
      SmsRow_readable_date = SMS_ReadableDate sms,
      SmsRow_contact_name = SMS_ContactName sms\<rparr>"

definition onSms ::
  "Sqlite \<Rightarrow> Rendering \<Rightarrow> StreamingOutput \<Rightarrow> SMS \<Rightarrow> error option \<times> StreamingOutput" where
  "onSms env r s sms =
     (let s1 = s\<lparr>smsCount := smsCount s + 1\<rparr>;
          res = Exec env (StreamingOutput_tx s1)
                  (\<lambda>tx. tx\<lparr>Tx_sms := Tx_sms tx @ [smsRow r sms]\<rparr>)
      in (fst res, s1\<lparr>StreamingOutput_tx := snd res\<rparr>))"

definition mmsRow :: "MMSRendering \<Rightarrow> MMS \<Rightarrow> MmsRow" where
  "mmsRow mr mms =
     \<lparr>MmsRow_text_only = MMS_TextOnly mms,
      MmsRow_read = MMS_Read_String mr (MMS_Read mms),
      MmsRow_date = MMS_Date mms,
      MmsRow_locked = MMS_Locked mms,
      MmsRow_date_sent = MMS_DateSent mms,
      MmsRow_readable_date = MMS_ReadableDate mms,
      MmsRow_contact_name = MMS_ContactName mms,
      MmsRow_seen = MMS_Seen mms,
      MmsRow_from_address = strOrNil (MMS_FromAddress_String mr (MMS_FromAddress mms)),
      MmsRow_address = MMS_Address_String mr (MMS_Address mms),
      MmsRow_message_classifier = strOrNil (MMS_MessageClassifier mms),
      MmsRow_message_size = strOrNil (MMS_MessageSize mms),
      MmsRow_addresses_joined =
        map (\<lambda>address.
               \<lparr>AddressInfo_Address = Addr_Address_String mr (Addr_Address address),
                AddressInfo_RawAddress = Addr_Address address,
                AddressInfo_Type = Addr_Type_String mr (Addr_Type address),
                AddressInfo_Charset = Addr_Charset address\<rparr>)
            (MMS_Addresses mms)\<rparr>"

text \<open>The loop of \<open>onMMS\<close> over the parts of the message.\<close>

fun insertParts ::
  "Sqlite \<Rightarrow> nat \<Rightarrow> Part list \<Rightarrow> Tx option \<Rightarrow> error option \<times> Tx option" where
  "insertParts env mmsID [] txo = (None, txo)"
| "insertParts env mmsID (part # parts) txo =
     (case (if Part_Base64Data part \<noteq> []
            then map_sum (\<lambda>err. err) Some (DecodeString env (Part_Base64Data part))
            else Inr None) of
        Inl err \<Rightarrow> (Some (Wrap ''error decoding base64 data'' err), txo)
      | Inr rawData \<Rightarrow>
          (case Exec env txo
                  (\<lambda>tx. tx\<lparr>Tx_mms_parts := Tx_mms_parts tx @
                      [\<lparr>PartRow_mms_id = mmsID,
                        PartRow_content_type = strOrNil (Part_ContentType part),
                        PartRow_name = strOrNil (Part_Name part),
                        PartRow_file_name = strOrNil (Part_FileName part),
                        PartRow_content_display = strOrNil (Part_ContentDisplay part),
                        PartRow_text = strOrNil (Part_Text part),
                        PartRow_raw_data = rawData\<rparr>]\<rparr>) of
             (Some err, txo') \<Rightarrow> (Some err, txo')
           | (None, txo') \<Rightarrow> insertParts env mmsID parts txo'))"

text \<open>
  \<open>onMMS\<close>.  \<open>LastInsertId\<close> is the row id of the message just inserted: the number of
  rows of the table \<open>mms\<close> that the transaction sees.
\<close>

definition onMMS ::
  "Sqlite \<Rightarrow> MMSRendering \<Rightarrow> StreamingOutput \<Rightarrow> MMS \<Rightarrow> error option \<times> StreamingOutput" where
  "onMMS env mr s mms =
     (let s1 = s\<lparr>mmsCount := mmsCount s + 1\<rparr>;
          res = Exec env (StreamingOutput_tx s1)
                  (\<lambda>tx. tx\<lparr>Tx_mms := Tx_mms tx @ [mmsRow mr mms]\<rparr>)
      in case fst res of
           Some err \<Rightarrow> (Some err, s1\<lparr>StreamingOutput_tx := snd res\<rparr>)
         | None \<Rightarrow>
             (let mmsID = length (Store_mms (StreamingOutput_db s1))
                          + (case snd res of None \<Rightarrow> 0 | Some tx \<Rightarrow> length (Tx_mms tx));
                  res2 = insertParts env mmsID (MMS_Parts mms) (snd res)
              in (fst res2, s1\<lparr>StreamingOutput_tx := snd res2\<rparr>)))"

subsection \<open>\<open>handleFile\<close> and \<open>main\<close>\<close>

text \<open>
  \<open>StreamingOutput.MessageDecoder\<close>: a decoder on the file whose handlers are the two
  methods of the sink (the progress bar has no part in the result).
\<close>

definition StreamingOutput_MessageDecoder ::
  "Sqlite \<Rightarrow> Rendering \<Rightarrow> MMSRendering \<Rightarrow> Decoder \<Rightarrow> error + StreamingOutput MessageDecoder" where
  "StreamingOutput_MessageDecoder env r mr file =
     (case NewMessageDecoder file of
        Inl err \<Rightarrow> Inl err
      | Inr decoder \<Rightarrow>
          Inr (decoder\<lparr>OnSMS := Some (\<lambda>sms s. onSms env r s sms),
                       OnMMS := Some (\<lambda>mms s. onMMS env mr s mms)\<rparr>))"

text \<open>\<open>filepath.Base\<close> and \<open>filepath.Ext\<close>, with \<open>/\<close> as the path separator.\<close>

definition Base :: "string \<Rightarrow> string" where
  "Base path =
     (if path = [] then ''.''
      else (let stripped = dropWhile (\<lambda>c. c = CHR ''/'') (rev path);
                elem = rev (takeWhile (\<lambda>c. c \<noteq> CHR ''/'') stripped)
            in if elem = [] then ''/'' else elem))"

definition Ext :: "string \<Rightarrow> string" where
  "Ext path =
     (let tail = takeWhile (\<lambda>c. c \<noteq> CHR ''/'') (rev path)
      in if CHR ''.'' \<in> set tail
         then CHR ''.'' # rev (takeWhile (\<lambda>c. c \<noteq> CHR ''.'') tail)
         else [])"

text \<open>
  A path given on the command line, with what the file system answers for it:
  \<open>os.Stat\<close> fails, or finds a directory, or a file; \<open>OpenBackup\<close> fails, or yields the
  stream of the backup, here the tokens the XML decoder will read from it.
\<close>

datatype stat = StatError error | IsDir | Regular

record InputFile =
  File_path :: string
  File_stat :: stat
  File_open :: "error + Decoder"

definition handleFile ::
  "Sqlite \<Rightarrow> Rendering \<Rightarrow> MMSRendering
     \<Rightarrow> (token \<Rightarrow> token list \<Rightarrow> error + SMS) \<Rightarrow> (token \<Rightarrow> token list \<Rightarrow> error + MMS)
     \<Rightarrow> InputFile \<Rightarrow> StreamingOutput \<Rightarrow> outcome \<times> StreamingOutput" where
  "handleFile env r mr unmarshalSMS unmarshalMMS file out =
     (let fileName = Base (File_path file)
      in if \<not> (prefix ''calls'' fileName \<or> prefix ''sms'' fileName)
            \<or> (Ext fileName \<noteq> ''.xml'' \<and> Ext fileName \<noteq> ''.zip'')
         then (Return (Some (Err (''unexpected file name: '' @ fileName))), out)
         else
           (case File_open file of
              Inl err \<Rightarrow> (Return (Some err), out)
            | Inr f \<Rightarrow>
                (if prefix ''sms'' fileName then
                   (case StreamingOutput_MessageDecoder env r mr f of
                      Inl err \<Rightarrow> (Return (Some err), out)
                    | Inr decoder \<Rightarrow>
                        (case Decode unmarshalSMS unmarshalMMS decoder out of
                           (Return (Some err), d, out') \<Rightarrow> (Return (Some err), out')
                         | (Return None, d, out') \<Rightarrow> (Return None, out')
                         | (Panic msg, d, out') \<Rightarrow> (Panic msg, out')))
                 else (Return None, out))))"

text \<open>
  What \<open>main\<close> prints to the standard error stream, one constructor per message.
\<close>

datatype message =
    MissingArgument
  | ErrorCreatingOutput error
  | ErrorWithPath error
  | PathIsDirectory
  | ErrorHandlingFile error
  | ErrorCommitting error

text \<open>
  The loop of \<open>main\<close> over the paths: it ends when the paths are used up, or \<open>main\<close>
  returns from inside it, or a panic unwinds it.  The error of a file is printed and the
  loop goes on to the next path.
\<close>

datatype loop_end = Completed | Returned | Panicked string

fun handleFiles ::
  "Sqlite \<Rightarrow> Rendering \<Rightarrow> MMSRendering
     \<Rightarrow> (token \<Rightarrow> token list \<Rightarrow> error + SMS) \<Rightarrow> (token \<Rightarrow> token list \<Rightarrow> error + MMS)
     \<Rightarrow> InputFile list \<Rightarrow> StreamingOutput \<Rightarrow> message list
     \<Rightarrow> loop_end \<times> StreamingOutput \<times> message list" where
  "handleFiles env r mr unmarshalSMS unmarshalMMS [] out printed = (Completed, out, printed)"
| "handleFiles env r mr unmarshalSMS unmarshalMMS (file # files) out printed =
     (case File_stat file of
        StatError err \<Rightarrow> (Returned, out, printed @ [ErrorWithPath err])
      | IsDir \<Rightarrow> (Returned, out, printed @ [PathIsDirectory])
      | Regular \<Rightarrow>
          (case handleFile env r mr unmarshalSMS unmarshalMMS file out of
             (Panic msg, out') \<Rightarrow> (Panicked msg, out', printed)
           | (Return (Some err), out') \<Rightarrow>
               handleFiles env r mr unmarshalSMS unmarshalMMS files out'
                 (printed @ [ErrorHandlingFile err])
           | (Return None, out') \<Rightarrow>
               handleFiles env r mr unmarshalSMS unmarshalMMS files out' printed))"

text \<open>
  When \<open>NewStreamingOutput\<close> fails, \<open>main\<close> prints the error and goes on with the
  \<open>nil\<close> pointer it was handed.  \<open>handleFile\<close> with \<open>out = nil\<close> runs the same
  statements: the name check and \<open>OpenBackup\<close> do not use \<open>out\<close>,
  \<open>out.MessageDecoder\<close> builds the decoder and only captures \<open>out\<close> in the handlers,
  and the next statement, which reads \<open>out.smsCount\<close>, dereferences \<open>nil\<close> and panics
  before \<open>Decode\<close> is called.  A file of calls is left alone.
\<close>

definition nilDereference :: string where
  "nilDereference = ''invalid memory address or nil pointer dereference''"

definition handleFile_nil :: "InputFile \<Rightarrow> outcome" where
  "handleFile_nil file =
     (let fileName = Base (File_path file)
      in if \<not> (prefix ''calls'' fileName \<or> prefix ''sms'' fileName)
            \<or> (Ext fileName \<noteq> ''.xml'' \<and> Ext fileName \<noteq> ''.zip'')
         then Return (Some (Err (''unexpected file name: '' @ fileName)))
         else
           (case File_open file of
              Inl err \<Rightarrow> Return (Some err)
            | Inr f \<Rightarrow>
                (if prefix ''sms'' fileName then
                   (case (NewMessageDecoder f :: error + StreamingOutput MessageDecoder) of
                      Inl err \<Rightarrow> Return (Some err)
                    | Inr decoder \<Rightarrow> Panic nilDereference)
                 else Return None)))"

text \<open>
  The loop of \<open>main\<close> with the \<open>nil\<close> sink: what it prints.  However the loop ends,
  the run ends in a panic: in \<open>handleFile\<close>, or in \<open>Commit\<close> after the loop (\<open>s.tx\<close>
  with \<open>s = nil\<close>), or, when \<open>main\<close> returns from the loop, in the deferred \<open>Close\<close>
  (\<open>s.insertSMS\<close> with \<open>s = nil\<close>).
\<close>

fun handleFiles_nil :: "InputFile list \<Rightarrow> message list \<Rightarrow> message list" where
  "handleFiles_nil [] printed = printed"
| "handleFiles_nil (file # files) printed =
     (case File_stat file of
        StatError err \<Rightarrow> printed @ [ErrorWithPath err]
      | IsDir \<Rightarrow> printed @ [PathIsDirectory]
      | Regular \<Rightarrow>
          (case handleFile_nil file of
             Panic msg \<Rightarrow> printed
           | Return (Some err) \<Rightarrow> handleFiles_nil files (printed @ [ErrorHandlingFile err])
           | Return None \<Rightarrow> handleFiles_nil files printed))"

text \<open>
  \<open>main\<close>, from the point where the output directory is validated: the paths are
  \<open>flag.Args()\<close>, the store is the content of \<open>result.db\<close> before the run.  The result
  is how \<open>main\<close> ends, the store after the deferred \<open>Close\<close>, and the messages printed.
  When \<open>NewStreamingOutput\<close> fails no row was inserted and none is committed: the run
  goes through the loop with the \<open>nil\<close> sink and ends in a panic, the store as it was.
\<close>

definition main ::
  "Sqlite \<Rightarrow> Rendering \<Rightarrow> MMSRendering
     \<Rightarrow> (token \<Rightarrow> token list \<Rightarrow> error + SMS) \<Rightarrow> (token \<Rightarrow> token list \<Rightarrow> error + MMS)
     \<Rightarrow> Store \<Rightarrow> InputFile list \<Rightarrow> outcome \<times> Store \<times> message list" where
  "main env r mr unmarshalSMS unmarshalMMS store args =
     (if args = [] then (Return None, store, [MissingArgument])
      else
        (case NewStreamingOutput env store of
           Inl err \<Rightarrow>
             (Panic nilDereference, store, handleFiles_nil args [ErrorCreatingOutput err])
         | Inr streamingOut \<Rightarrow>
             (case handleFiles env r mr unmarshalSMS unmarshalMMS args streamingOut [] of
                (Returned, out, printed) \<Rightarrow> (Return None, Close out, printed)
              | (Panicked msg, out, printed) \<Rightarrow> (Panic msg, Close out, printed)
              | (Completed, out, printed) \<Rightarrow>
                  (case Commit env out of
                     (Some err, out') \<Rightarrow> (Return None, Close out', printed @ [ErrorCommitting err])
                   | (None, out') \<Rightarrow> (Return None, Close out', printed)))))"

text \<open>
  Sample inputs for the worked examples: a database and a base64 decoder that never
  fail, renderings that leave the text as it is, an empty store, and a backup file
  \<open>sms-1.xml\<close> that announces two messages and breaks off inside the second.
\<close>

definition plainMMSRendering :: MMSRendering where
  "plainMMSRendering =
     \<lparr>MMS_Read_String = (\<lambda>s. s), MMS_FromAddress_String = (\<lambda>s. s),
      MMS_Address_String = (\<lambda>s. s), Addr_Address_String = (\<lambda>s. s),
      Addr_Type_String = (\<lambda>s. s)\<rparr>"

definition goodSqlite :: Sqlite where
  "goodSqlite =
     \<lparr>setup_error = None, exec_error = (\<lambda>n. None), commit_error = None,
      DecodeString = (\<lambda>s. Inr s)\<rparr>"

definition emptyStore :: Store where
  "emptyStore = \<lparr>Store_sms = [], Store_mms = [], Store_mms_parts = []\<rparr>"

definition truncatedBackup :: InputFile where
  "truncatedBackup =
     \<lparr>File_path = ''backups/sms-1.xml'',
      File_stat = Regular,
      File_open = Inr
        \<lparr>pending =
           [StartElement ''smses'' [(''count'', ''2'')],
            StartElement ''sms'' [(''address'', ''111''), (''contact_name'', ''Ann'')],
            EndElement ''sms'',
            StartElement ''sms'' [(''address'', ''222''), (''contact_name'', ''Bob'')]],
         at_end = Err ''XML syntax error: unexpected EOF''\<rparr>\<rparr>"

text \<open>
  The state of a sink whose transaction is open on a given store: the committed rows
  are those of the store, whatever the transaction holds.
\<close>

definition pendingOn :: "Store \<Rightarrow> StreamingOutput \<Rightarrow> bool" where
  "pendingOn store s = (StreamingOutput_db s = store \<and> StreamingOutput_tx s \<noteq> None)"

definition directoryPath :: InputFile where
  "directoryPath =
     \<lparr>File_path = ''backups'', File_stat = IsDir,
      File_open = Inl (Err ''read backups: is a directory'')\<rparr>"

definition completeBackup :: InputFile where
  "completeBackup =
     \<lparr>File_path = ''sms-2.xml'',
      File_stat = Regular,
      File_open = Inr
        \<lparr>pending =
           [StartElement ''smses'' [(''count'', ''1'')],
            StartElement ''sms'' [(''address'', ''111''), (''contact_name'', ''Ann'')],
            EndElement ''sms'',
            EndElement ''smses''],
         at_end = EOF\<rparr>\<rparr>"

section \<open>Verification\<close>

subsection \<open>Contact guessing\<close>

lemma guessSMS_inv:
  assumes "\<And>k c. fst st k = Some c \<Longrightarrow>
             Contact_CanonicalNumber c = k \<and> distinct (Contact_RawNumbers c) \<and> k \<in> S"
    and "fst (guessSMS norm st sms) k = Some c"
  shows "Contact_CanonicalNumber c = k \<and> distinct (Contact_RawNumbers c)
           \<and> k \<in> insert (norm (SMS_Address sms)) S"
  using assms
  by (auto simp: guessSMS_def addRawNum_def Let_def split: option.splits if_splits)

lemma foldl_guessSMS_inv:
  assumes "\<And>k c. fst st k = Some c \<Longrightarrow>
             Contact_CanonicalNumber c = k \<and> distinct (Contact_RawNumbers c) \<and> k \<in> S"
    and "fst (foldl (guessSMS norm) st xs) k = Some c"
  shows "Contact_CanonicalNumber c = k \<and> distinct (Contact_RawNumbers c)
           \<and> k \<in> S \<union> (\<lambda>sms. norm (SMS_Address sms)) ` set xs"
  using assms
proof (induction xs arbitrary: st S)
  case Nil
  then show ?case by simp
next
  case (Cons x xs)
  have step: "\<And>k c. fst (guessSMS norm st x) k = Some c \<Longrightarrow>
      Contact_CanonicalNumber c = k \<and> distinct (Contact_RawNumbers c)
        \<and> k \<in> insert (norm (SMS_Address x)) S"
    using guessSMS_inv [of st S norm x] Cons.prems(1) by blast
  from Cons.IH [of "guessSMS norm st x" "insert (norm (SMS_Address x)) S", OF step] Cons.prems(2)
  show ?case by auto
qed

lemma guessMMS_eq: "guessMMS rcbs st x = (fst st, snd st @ mmsDiags rcbs x)"
  by (simp add: mmsDiags_def guessMMS_def Let_def)

lemma foldl_guessMMS_eq:
  "foldl (guessMMS rcbs) st xs = (fst st, snd st @ concat (map (mmsDiags rcbs) xs))"
  by (induction xs arbitrary: st) (simp_all add: guessMMS_eq)

lemma GuessContacts_fst:
  "fst (GuessContacts norm rcbs m) = fst (foldl (guessSMS norm) (Map.empty, []) (Messages_SMS m))"
  by (simp add: GuessContacts_def Let_def foldl_guessMMS_eq)

text \<open>
  C8.  Every key \<open>k\<close> of the map returned by \<open>GuessContacts\<close> holds a contact whose
  \<open>CanonicalNumber\<close> is \<open>k\<close>, and \<open>k\<close> is the normalised form of the address of at
  least one SMS of the input.
\<close>
theorem GuessContacts_keys:
  assumes "fst (GuessContacts norm rcbs m) k = Some c"
  shows "Contact_CanonicalNumber c = k \<and>
         (\<exists>sms \<in> set (Messages_SMS m). k = norm (SMS_Address sms))"
proof -
  have "Contact_CanonicalNumber c = k \<and> distinct (Contact_RawNumbers c)
           \<and> k \<in> {} \<union> (\<lambda>sms. norm (SMS_Address sms)) ` set (Messages_SMS m)"
    by (rule foldl_guessSMS_inv [of "(Map.empty, [])"]) (use assms in \<open>simp_all add: GuessContacts_fst\<close>)
  then show ?thesis by auto
qed

theorem GuessContacts_keys_witness:
  "fst (GuessContacts digitsOnly (\<lambda>s. s)
          \<lparr>Messages_SMS = [mkSMS ''555-1234'' ''Alice''], Messages_MMS = []\<rparr>) ''5551234''
     = Some \<lparr>Contact_Name = ''Alice'', Contact_CanonicalNumber = ''5551234'',
             Contact_RawNumbers = [''555-1234'']\<rparr>
   \<and> Contact_CanonicalNumber \<lparr>Contact_Name = ''Alice'', Contact_CanonicalNumber = ''5551234'',
             Contact_RawNumbers = [''555-1234'']\<rparr> = ''5551234''
   \<and> (\<exists>sms. sms \<in> set [mkSMS ''555-1234'' ''Alice''] \<and> ''5551234'' = digitsOnly (SMS_Address sms))"
proof -
  have h: "fst (GuessContacts digitsOnly (\<lambda>s. s)
          \<lparr>Messages_SMS = [mkSMS ''555-1234'' ''Alice''], Messages_MMS = []\<rparr>) ''5551234''
     = Some \<lparr>Contact_Name = ''Alice'', Contact_CanonicalNumber = ''5551234'',
             Contact_RawNumbers = [''555-1234'']\<rparr>"
    by (simp add: GuessContacts_def guessSMS_def mkSMS_def digitsOnly_def Let_def)
  from GuessContacts_keys [OF h] h show ?thesis by auto
qed

text \<open>
  C9.  The \<open>RawNumbers\<close> of every contact in the map returned by \<open>GuessContacts\<close> has
  no duplicate entry, however many SMS records carry the same raw address.
\<close>
theorem GuessContacts_raw_distinct:
  assumes "fst (GuessContacts norm rcbs m) k = Some c"
  shows "distinct (Contact_RawNumbers c)"
proof -
  have "Contact_CanonicalNumber c = k \<and> distinct (Contact_RawNumbers c)
           \<and> k \<in> {} \<union> (\<lambda>sms. norm (SMS_Address sms)) ` set (Messages_SMS m)"
    by (rule foldl_guessSMS_inv [of "(Map.empty, [])"]) (use assms in \<open>simp_all add: GuessContacts_fst\<close>)
  then show ?thesis by simp
qed

theorem GuessContacts_raw_distinct_witness:
  "fst (GuessContacts digitsOnly (\<lambda>s. s)
          \<lparr>Messages_SMS = [mkSMS ''555-1234'' ''Alice'', mkSMS ''5551234'' ''Alice'',
                            mkSMS ''555-1234'' ''Alice''],
           Messages_MMS = []\<rparr>) ''5551234''
     = Some \<lparr>Contact_Name = ''Alice'', Contact_CanonicalNumber = ''5551234'',
             Contact_RawNumbers = [''555-1234'', ''5551234'']\<rparr>
   \<and> distinct (Contact_RawNumbers \<lparr>Contact_Name = ''Alice'', Contact_CanonicalNumber = ''5551234'',
             Contact_RawNumbers = [''555-1234'', ''5551234'']\<rparr>)"
proof -
  have h: "fst (GuessContacts digitsOnly (\<lambda>s. s)
          \<lparr>Messages_SMS = [mkSMS ''555-1234'' ''Alice'', mkSMS ''5551234'' ''Alice'',
                            mkSMS ''555-1234'' ''Alice''],
           Messages_MMS = []\<rparr>) ''5551234''
     = Some \<lparr>Contact_Name = ''Alice'', Contact_CanonicalNumber = ''5551234'',
             Contact_RawNumbers = [''555-1234'', ''5551234'']\<rparr>"
    by (simp add: GuessContacts_def guessSMS_def addRawNum_def mkSMS_def digitsOnly_def Let_def)
  from GuessContacts_raw_distinct [OF h] h show ?thesis by simp
qed

lemma mmsDiags_no_MultipleNames: "MultipleNames x y z \<notin> set (mmsDiags rcbs mms)"
  by (simp add: mmsDiags_def guessMMS_def Let_def)

lemma GuessContacts_log:
  "snd (snd (GuessContacts norm rcbs m)) =
     snd (foldl (guessSMS norm) (Map.empty, []) (Messages_SMS m))
       @ concat (map (mmsDiags rcbs) (Messages_MMS m))"
  by (simp add: GuessContacts_def Let_def foldl_guessMMS_eq)

lemma guessSMS_miss:
  "fst st (norm (SMS_Address a)) = None \<Longrightarrow>
   guessSMS norm st a =
     ((fst st)(norm (SMS_Address a) \<mapsto> \<lparr>Contact_Name = SMS_ContactName a,
          Contact_CanonicalNumber = norm (SMS_Address a),
          Contact_RawNumbers = [SMS_Address a]\<rparr>), snd st)"
  by (simp add: guessSMS_def Let_def)

lemma guessSMS_hit_fst:
  "fst st (norm (SMS_Address b)) = Some c \<Longrightarrow>
   fst (guessSMS norm st b) (norm (SMS_Address b)) =
     Some (addRawNum (c\<lparr>Contact_Name :=
              (if Contact_Name c = ''(Unknown)'' then SMS_ContactName b else Contact_Name c)\<rparr>)
            (SMS_Address b))"
  by (simp add: guessSMS_def Let_def addRawNum_def)

lemma guessSMS_hit_snd:
  "fst st (norm (SMS_Address b)) = Some c \<Longrightarrow>
   snd (guessSMS norm st b) =
     snd st @ (if Contact_Name c \<noteq> SMS_ContactName b \<and> Contact_Name c \<noteq> ''(Unknown)''
                  \<and> SMS_ContactName b \<noteq> ''(Unknown)''
               then [MultipleNames (norm (SMS_Address b)) (Contact_Name c) (SMS_ContactName b)]
               else [])"
  by (simp add: guessSMS_def Let_def)

lemma addRawNum_Name: "Contact_Name (addRawNum c raw) = Contact_Name c"
  by (simp add: addRawNum_def)

lemma guessSMS_other_fst:
  "norm (SMS_Address x) \<noteq> k \<Longrightarrow> fst (guessSMS norm st x) k = fst st k"
  by (simp add: guessSMS_def Let_def split: option.splits)

lemma guessSMS_other_snd:
  "norm (SMS_Address x) \<noteq> k \<Longrightarrow>
   filter (aboutNumber k) (snd (guessSMS norm st x)) = filter (aboutNumber k) (snd st)"
  by (simp add: guessSMS_def Let_def aboutNumber_def split: option.splits)

lemma foldl_guessSMS_hit:
  "fst st k = Some c \<Longrightarrow>
   (\<exists>c'. fst (foldl (guessSMS norm) st xs) k = Some c' \<and>
      Contact_Name c' = foldl resolveName (Contact_Name c) (namesAt norm k xs)) \<and>
   filter (aboutNumber k) (snd (foldl (guessSMS norm) st xs))
     = filter (aboutNumber k) (snd st) @ conflicts k (Contact_Name c) (namesAt norm k xs)"
proof (induction xs arbitrary: st c)
  case Nil
  then show ?case by (simp add: namesAt_def)
next
  case (Cons x xs)
  show ?case
  proof (cases "norm (SMS_Address x) = k")
    case False
    have h: "fst (guessSMS norm st x) k = Some c"
      using guessSMS_other_fst [where norm = norm and x = x and k = k, OF False] Cons.prems by simp
    from Cons.IH [OF h] False guessSMS_other_snd [where norm = norm and x = x and k = k and st = st, OF False]
    show ?thesis by (simp add: namesAt_def)
  next
    case True
    let ?c = "addRawNum (c\<lparr>Contact_Name :=
              (if Contact_Name c = ''(Unknown)'' then SMS_ContactName x else Contact_Name c)\<rparr>)
            (SMS_Address x)"
    from Cons.prems True have p: "fst st (norm (SMS_Address x)) = Some c" by simp
    have h: "fst (guessSMS norm st x) k = Some ?c"
      using guessSMS_hit_fst [where norm = norm and b = x, OF p] True by simp
    have n: "Contact_Name ?c = resolveName (Contact_Name c) (SMS_ContactName x)"
      by (simp add: addRawNum_Name resolveName_def)
    have l: "snd (guessSMS norm st x) = snd st @
        (if Contact_Name c \<noteq> SMS_ContactName x \<and> Contact_Name c \<noteq> ''(Unknown)''
                  \<and> SMS_ContactName x \<noteq> ''(Unknown)''
               then [MultipleNames k (Contact_Name c) (SMS_ContactName x)]
               else [])"
      using guessSMS_hit_snd [where norm = norm and b = x, OF p] True by simp
    from Cons.IH [OF h] True show ?thesis
      unfolding n by (simp add: namesAt_def l aboutNumber_def)
  qed
qed

lemma foldl_guessSMS_miss:
  "fst st k = None \<Longrightarrow>
   (case namesAt norm k xs of
      [] \<Rightarrow> fst (foldl (guessSMS norm) st xs) k = None \<and>
            filter (aboutNumber k) (snd (foldl (guessSMS norm) st xs))
              = filter (aboutNumber k) (snd st)
    | n # ns \<Rightarrow>
        (\<exists>c'. fst (foldl (guessSMS norm) st xs) k = Some c' \<and>
           Contact_Name c' = foldl resolveName n ns) \<and>
        filter (aboutNumber k) (snd (foldl (guessSMS norm) st xs))
          = filter (aboutNumber k) (snd st) @ conflicts k n ns)"
proof (induction xs arbitrary: st)
  case Nil
  then show ?case by (simp add: namesAt_def)
next
  case (Cons x xs)
  show ?case
  proof (cases "norm (SMS_Address x) = k")
    case False
    have h: "fst (guessSMS norm st x) k = None"
      using guessSMS_other_fst [where norm = norm and x = x and k = k, OF False] Cons.prems by simp
    from Cons.IH [OF h] False guessSMS_other_snd [where norm = norm and x = x and k = k and st = st, OF False]
    show ?thesis by (auto simp: namesAt_def split: list.splits)
  next
    case True
    let ?c = "\<lparr>Contact_Name = SMS_ContactName x,
          Contact_CanonicalNumber = norm (SMS_Address x),
          Contact_RawNumbers = [SMS_Address x]\<rparr>"
    from Cons.prems True have p: "fst st (norm (SMS_Address x)) = None" by simp
    note g = guessSMS_miss [where norm = norm and a = x, OF p]
    have h: "fst (guessSMS norm st x) k = Some ?c" unfolding g using True by simp
    have l: "snd (guessSMS norm st x) = snd st" unfolding g by simp
    from foldl_guessSMS_hit [OF h, of norm xs] True show ?thesis
      by (simp add: namesAt_def l)
  qed
qed

lemma mmsDiags_not_aboutNumber:
  "filter (aboutNumber k) (concat (map (mmsDiags rcbs) ys)) = []"
  by (induction ys) (simp_all add: mmsDiags_def guessMMS_def Let_def aboutNumber_def)

lemma GuessContacts_error: "fst (snd (GuessContacts norm rcbs m)) = None"
  by (simp add: GuessContacts_def Let_def)

text \<open>
  C3.  The SMS loop of \<open>GuessContacts\<close> reaches a record \<open>b\<close> after the records
  \<open>pre\<close>, at any position of any input, and \<open>c\<close> is the contact stored for the
  normalised number of \<open>b\<close> at that point.  After \<open>b\<close> the contact for that number has
  the name of \<open>b\<close> if the stored name was \<open>(Unknown)\<close>; it keeps the stored name if the
  name of \<open>b\<close> is \<open>(Unknown)\<close>, or if both are proper names and differ, or if they are
  equal; the canonical number stays, the raw number of \<open>b\<close> is added.  The contacts of
  all other numbers are untouched.  The log grows by the naming-conflict diagnostic
  exactly when both names are proper and differ (the diagnostics of the MMS loop
  follow), and the error returned is \<open>nil\<close>.  Over a whole run, for every number: the
  name in the returned map is the one obtained from the names of the records of that
  number, in their order, by this policy (so the first proper name seen is the one
  kept), there is no entry when no record has the number, and the naming conflicts
  logged for the number are those this sequence of names meets.
\<close>
theorem GuessContacts_name_policy:
  assumes "fst (GuessContacts norm rcbs (m\<lparr>Messages_SMS := pre\<rparr>)) (norm (SMS_Address b)) = Some c"
  shows "(\<exists>c'. fst (GuessContacts norm rcbs (m\<lparr>Messages_SMS := pre @ [b]\<rparr>)) (norm (SMS_Address b))
             = Some c' \<and>
           Contact_CanonicalNumber c' = Contact_CanonicalNumber c \<and>
           Contact_RawNumbers c' = Contact_RawNumbers (addRawNum c (SMS_Address b)) \<and>
           (Contact_Name c = ''(Unknown)'' \<longrightarrow> Contact_Name c' = SMS_ContactName b) \<and>
           (SMS_ContactName b = ''(Unknown)'' \<longrightarrow> Contact_Name c' = Contact_Name c) \<and>
           (Contact_Name c \<noteq> ''(Unknown)'' \<and> SMS_ContactName b \<noteq> ''(Unknown)''
              \<and> Contact_Name c \<noteq> SMS_ContactName b \<longrightarrow> Contact_Name c' = Contact_Name c) \<and>
           (Contact_Name c = SMS_ContactName b \<longrightarrow> Contact_Name c' = Contact_Name c)) \<and>
         (\<forall>k. k \<noteq> norm (SMS_Address b) \<longrightarrow>
            fst (GuessContacts norm rcbs (m\<lparr>Messages_SMS := pre @ [b]\<rparr>)) k
              = fst (GuessContacts norm rcbs (m\<lparr>Messages_SMS := pre\<rparr>)) k) \<and>
         snd (snd (GuessContacts norm rcbs (m\<lparr>Messages_SMS := pre @ [b]\<rparr>)))
           = snd (snd (GuessContacts norm rcbs \<lparr>Messages_SMS = pre, Messages_MMS = []\<rparr>))
             @ (if Contact_Name c \<noteq> ''(Unknown)'' \<and> SMS_ContactName b \<noteq> ''(Unknown)''
                   \<and> Contact_Name c \<noteq> SMS_ContactName b
                then [MultipleNames (norm (SMS_Address b)) (Contact_Name c) (SMS_ContactName b)]
                else [])
             @ concat (map (mmsDiags rcbs) (Messages_MMS m)) \<and>
         fst (snd (GuessContacts norm rcbs (m\<lparr>Messages_SMS := pre @ [b]\<rparr>))) = None \<and>
         (\<forall>k. (case namesAt norm k (Messages_SMS m) of
                 [] \<Rightarrow> fst (GuessContacts norm rcbs m) k = None
               | n # ns \<Rightarrow> (\<exists>c. fst (GuessContacts norm rcbs m) k = Some c
                               \<and> Contact_Name c = foldl resolveName n ns)) \<and>
              filter (aboutNumber k) (snd (snd (GuessContacts norm rcbs m)))
                = (case namesAt norm k (Messages_SMS m) of [] \<Rightarrow> [] | n # ns \<Rightarrow> conflicts k n ns))"
proof -
  let ?st = "foldl (guessSMS norm) (Map.empty, []) pre"
  let ?c' = "addRawNum (c\<lparr>Contact_Name :=
              (if Contact_Name c = ''(Unknown)'' then SMS_ContactName b else Contact_Name c)\<rparr>)
            (SMS_Address b)"
  from assms have h: "fst ?st (norm (SMS_Address b)) = Some c"
    by (simp add: GuessContacts_fst)
  have f: "fst (GuessContacts norm rcbs (m\<lparr>Messages_SMS := pre @ [b]\<rparr>))
      = fst (guessSMS norm ?st b)"
    by (simp add: GuessContacts_fst)
  have m: "fst (GuessContacts norm rcbs (m\<lparr>Messages_SMS := pre @ [b]\<rparr>)) (norm (SMS_Address b))
      = Some ?c'"
    unfolding f by (rule guessSMS_hit_fst [where norm = norm and b = b, OF h])
  have r: "Contact_CanonicalNumber ?c' = Contact_CanonicalNumber c \<and>
           Contact_RawNumbers ?c' = Contact_RawNumbers (addRawNum c (SMS_Address b))"
    by (simp add: addRawNum_def)
  have one: "\<exists>c'. fst (GuessContacts norm rcbs (m\<lparr>Messages_SMS := pre @ [b]\<rparr>)) (norm (SMS_Address b))
             = Some c' \<and>
           Contact_CanonicalNumber c' = Contact_CanonicalNumber c \<and>
           Contact_RawNumbers c' = Contact_RawNumbers (addRawNum c (SMS_Address b)) \<and>
           (Contact_Name c = ''(Unknown)'' \<longrightarrow> Contact_Name c' = SMS_ContactName b) \<and>
           (SMS_ContactName b = ''(Unknown)'' \<longrightarrow> Contact_Name c' = Contact_Name c) \<and>
           (Contact_Name c \<noteq> ''(Unknown)'' \<and> SMS_ContactName b \<noteq> ''(Unknown)''
              \<and> Contact_Name c \<noteq> SMS_ContactName b \<longrightarrow> Contact_Name c' = Contact_Name c) \<and>
           (Contact_Name c = SMS_ContactName b \<longrightarrow> Contact_Name c' = Contact_Name c)"
    by (rule exI [of _ ?c'], intro conjI, rule m, rule r [THEN conjunct1], rule r [THEN conjunct2])
       (simp_all add: addRawNum_Name)
  have two: "\<forall>k. k \<noteq> norm (SMS_Address b) \<longrightarrow>
            fst (GuessContacts norm rcbs (m\<lparr>Messages_SMS := pre @ [b]\<rparr>)) k
              = fst (GuessContacts norm rcbs (m\<lparr>Messages_SMS := pre\<rparr>)) k"
  proof (intro allI impI)
    fix k assume "k \<noteq> norm (SMS_Address b)"
    then have "norm (SMS_Address b) \<noteq> k" by simp
    from guessSMS_other_fst [where norm = norm and x = b and k = k, OF this]
    show "fst (GuessContacts norm rcbs (m\<lparr>Messages_SMS := pre @ [b]\<rparr>)) k
              = fst (GuessContacts norm rcbs (m\<lparr>Messages_SMS := pre\<rparr>)) k"
      unfolding f by (simp add: GuessContacts_fst)
  qed
  have three: "snd (snd (GuessContacts norm rcbs (m\<lparr>Messages_SMS := pre @ [b]\<rparr>)))
           = snd (snd (GuessContacts norm rcbs \<lparr>Messages_SMS = pre, Messages_MMS = []\<rparr>))
             @ (if Contact_Name c \<noteq> ''(Unknown)'' \<and> SMS_ContactName b \<noteq> ''(Unknown)''
                   \<and> Contact_Name c \<noteq> SMS_ContactName b
                then [MultipleNames (norm (SMS_Address b)) (Contact_Name c) (SMS_ContactName b)]
                else [])
             @ concat (map (mmsDiags rcbs) (Messages_MMS m))"
    using guessSMS_hit_snd [where norm = norm and b = b, OF h]
    by (simp add: GuessContacts_log)
  have four: "\<forall>k. (case namesAt norm k (Messages_SMS m) of
                 [] \<Rightarrow> fst (GuessContacts norm rcbs m) k = None
               | n # ns \<Rightarrow> (\<exists>c. fst (GuessContacts norm rcbs m) k = Some c
                               \<and> Contact_Name c = foldl resolveName n ns)) \<and>
              filter (aboutNumber k) (snd (snd (GuessContacts norm rcbs m)))
                = (case namesAt norm k (Messages_SMS m) of [] \<Rightarrow> [] | n # ns \<Rightarrow> conflicts k n ns)"
  proof
    fix k
    have e: "fst ((Map.empty, []) :: (string \<rightharpoonup> Contact) \<times> diag list) k = None" by simp
    from foldl_guessSMS_miss [OF e, of norm "Messages_SMS m"]
    show "(case namesAt norm k (Messages_SMS m) of
                 [] \<Rightarrow> fst (GuessContacts norm rcbs m) k = None
               | n # ns \<Rightarrow> (\<exists>c. fst (GuessContacts norm rcbs m) k = Some c
                               \<and> Contact_Name c = foldl resolveName n ns)) \<and>
              filter (aboutNumber k) (snd (snd (GuessContacts norm rcbs m)))
                = (case namesAt norm k (Messages_SMS m) of [] \<Rightarrow> [] | n # ns \<Rightarrow> conflicts k n ns)"
      by (auto simp: GuessContacts_fst GuessContacts_log mmsDiags_not_aboutNumber
            split: list.splits)
  qed
  from one two three four show ?thesis
    by (simp only: GuessContacts_error simp_thms)
qed

theorem GuessContacts_name_policy_witness:
  "fst (GuessContacts digitsOnly (\<lambda>s. s)
          \<lparr>Messages_SMS = [mkSMS ''555-1234'' ''Alice'', mkSMS ''777'' ''Carol''],
           Messages_MMS = []\<rparr>) ''5551234''
     = Some \<lparr>Contact_Name = ''Alice'', Contact_CanonicalNumber = ''5551234'',
             Contact_RawNumbers = [''555-1234'']\<rparr>
   \<and> (\<exists>c'. fst (GuessContacts digitsOnly (\<lambda>s. s)
          \<lparr>Messages_SMS = [mkSMS ''555-1234'' ''Alice'', mkSMS ''777'' ''Carol'',
                            mkSMS ''5551234'' ''Bob''],
           Messages_MMS = []\<rparr>) ''5551234'' = Some c'
        \<and> Contact_Name c' = ''Alice''
        \<and> Contact_CanonicalNumber c' = ''5551234''
        \<and> Contact_RawNumbers c' = [''555-1234'', ''5551234''])
   \<and> fst (GuessContacts digitsOnly (\<lambda>s. s)
          \<lparr>Messages_SMS = [mkSMS ''555-1234'' ''Alice'', mkSMS ''777'' ''Carol'',
                            mkSMS ''5551234'' ''Bob''],
           Messages_MMS = []\<rparr>) ''777''
     = Some \<lparr>Contact_Name = ''Carol'', Contact_CanonicalNumber = ''777'',
             Contact_RawNumbers = [''777'']\<rparr>
   \<and> snd (snd (GuessContacts digitsOnly (\<lambda>s. s)
          \<lparr>Messages_SMS = [mkSMS ''555-1234'' ''Alice'', mkSMS ''777'' ''Carol'',
                            mkSMS ''5551234'' ''Bob''],
           Messages_MMS = []\<rparr>))
     = [MultipleNames ''5551234'' ''Alice'' ''Bob'']
   \<and> (\<exists>c'. fst (GuessContacts digitsOnly (\<lambda>s. s)
          \<lparr>Messages_SMS = [mkSMS ''555-1234'' ''(Unknown)'', mkSMS ''777'' ''Carol'',
                            mkSMS ''5551234'' ''Alice''],
           Messages_MMS = []\<rparr>) ''5551234'' = Some c'
        \<and> Contact_Name c' = ''Alice'')
   \<and> snd (snd (GuessContacts digitsOnly (\<lambda>s. s)
          \<lparr>Messages_SMS = [mkSMS ''555-1234'' ''(Unknown)'', mkSMS ''777'' ''Carol'',
                            mkSMS ''5551234'' ''Alice''],
           Messages_MMS = []\<rparr>)) = []
   \<and> namesAt digitsOnly ''5551234''
         [mkSMS ''555-1234'' ''Alice'', mkSMS ''777'' ''Carol'', mkSMS ''5551234'' ''Bob'']
       = [''Alice'', ''Bob'']
   \<and> filter (aboutNumber ''5551234'')
         (snd (snd (GuessContacts digitsOnly (\<lambda>s. s)
            \<lparr>Messages_SMS = [mkSMS ''555-1234'' ''Alice'', mkSMS ''777'' ''Carol'',
                              mkSMS ''5551234'' ''Bob''],
             Messages_MMS = []\<rparr>)))
       = [MultipleNames ''5551234'' ''Alice'' ''Bob'']"
proof -
  let ?pre = "[mkSMS ''555-1234'' ''Alice'', mkSMS ''777'' ''Carol'']"
  let ?pre2 = "[mkSMS ''555-1234'' ''(Unknown)'', mkSMS ''777'' ''Carol'']"
  let ?m = "\<lparr>Messages_SMS = [], Messages_MMS = []\<rparr>"
  let ?G = "GuessContacts digitsOnly (\<lambda>s. s)"
  have k: "digitsOnly (SMS_Address (mkSMS ''5551234'' n)) = ''5551234''" for n
    by (simp add: mkSMS_def digitsOnly_def)
  have kk: "digitsOnly ''5551234'' = ''5551234''" by (simp add: digitsOnly_def)
  have nb: "SMS_ContactName (mkSMS a n) = n" "SMS_Address (mkSMS a n) = a" for a n
    by (simp_all add: mkSMS_def)
  have u: "?m\<lparr>Messages_SMS := xs\<rparr> = \<lparr>Messages_SMS = xs, Messages_MMS = []\<rparr>" for xs
    by simp
  have h: "fst (?G (?m\<lparr>Messages_SMS := ?pre\<rparr>))
             (digitsOnly (SMS_Address (mkSMS ''5551234'' ''Bob'')))
      = Some \<lparr>Contact_Name = ''Alice'', Contact_CanonicalNumber = ''5551234'',
             Contact_RawNumbers = [''555-1234'']\<rparr>"
    unfolding k by (simp add: GuessContacts_def guessSMS_def mkSMS_def digitsOnly_def Let_def)
  have h2: "fst (?G (?m\<lparr>Messages_SMS := ?pre2\<rparr>))
             (digitsOnly (SMS_Address (mkSMS ''5551234'' ''Alice'')))
      = Some \<lparr>Contact_Name = ''(Unknown)'', Contact_CanonicalNumber = ''5551234'',
             Contact_RawNumbers = [''555-1234'']\<rparr>"
    unfolding k by (simp add: GuessContacts_def guessSMS_def mkSMS_def digitsOnly_def Let_def)
  have c: "fst (?G \<lparr>Messages_SMS = ?pre, Messages_MMS = []\<rparr>) ''777''
      = Some \<lparr>Contact_Name = ''Carol'', Contact_CanonicalNumber = ''777'',
             Contact_RawNumbers = [''777'']\<rparr>"
    by (simp add: GuessContacts_def guessSMS_def mkSMS_def digitsOnly_def Let_def)
  have l: "snd (snd (?G \<lparr>Messages_SMS = ?pre, Messages_MMS = []\<rparr>)) = []"
      "snd (snd (?G \<lparr>Messages_SMS = ?pre2, Messages_MMS = []\<rparr>)) = []"
    by (simp_all add: GuessContacts_def guessSMS_def mkSMS_def digitsOnly_def Let_def)
  note t = GuessContacts_name_policy [where norm = digitsOnly and rcbs = "\<lambda>s. s", OF h]
  note t2 = GuessContacts_name_policy [where norm = digitsOnly and rcbs = "\<lambda>s. s", OF h2]
  have a1: "\<exists>c'. fst (?G \<lparr>Messages_SMS = ?pre @ [mkSMS ''5551234'' ''Bob''], Messages_MMS = []\<rparr>)
                ''5551234'' = Some c'
        \<and> Contact_Name c' = ''Alice''
        \<and> Contact_CanonicalNumber c' = ''5551234''
        \<and> Contact_RawNumbers c' = [''555-1234'', ''5551234'']"
    using t [THEN conjunct1] unfolding k nb kk u by (auto simp: addRawNum_def)
  have a2: "fst (?G \<lparr>Messages_SMS = ?pre @ [mkSMS ''5551234'' ''Bob''], Messages_MMS = []\<rparr>) ''777''
      = Some \<lparr>Contact_Name = ''Carol'', Contact_CanonicalNumber = ''777'',
             Contact_RawNumbers = [''777'']\<rparr>"
    using t [THEN conjunct2, THEN conjunct1, rule_format, of "''777''"] unfolding k nb kk u c by simp
  have a3: "snd (snd (?G \<lparr>Messages_SMS = ?pre @ [mkSMS ''5551234'' ''Bob''], Messages_MMS = []\<rparr>))
      = [MultipleNames ''5551234'' ''Alice'' ''Bob'']"
    using t [THEN conjunct2, THEN conjunct2, THEN conjunct1] unfolding k nb kk u l by simp
  have b1: "\<exists>c'. fst (?G \<lparr>Messages_SMS = ?pre2 @ [mkSMS ''5551234'' ''Alice''], Messages_MMS = []\<rparr>)
                ''5551234'' = Some c'
        \<and> Contact_Name c' = ''Alice''"
    using t2 [THEN conjunct1] unfolding k nb kk u by auto
  have b3: "snd (snd (?G \<lparr>Messages_SMS = ?pre2 @ [mkSMS ''5551234'' ''Alice''], Messages_MMS = []\<rparr>))
      = []"
    using t2 [THEN conjunct2, THEN conjunct2, THEN conjunct1] unfolding k nb kk u l by simp
  let ?all = "\<lparr>Messages_SMS = ?pre @ [mkSMS ''5551234'' ''Bob''], Messages_MMS = []\<rparr>"
  have h3: "fst (?G (?all\<lparr>Messages_SMS := ?pre\<rparr>))
             (digitsOnly (SMS_Address (mkSMS ''5551234'' ''Bob'')))
      = Some \<lparr>Contact_Name = ''Alice'', Contact_CanonicalNumber = ''5551234'',
             Contact_RawNumbers = [''555-1234'']\<rparr>"
    using h by simp
  note t3 = GuessContacts_name_policy [where norm = digitsOnly and rcbs = "\<lambda>s. s", OF h3]
  have n: "namesAt digitsOnly ''5551234'' (?pre @ [mkSMS ''5551234'' ''Bob''])
      = [''Alice'', ''Bob'']"
    by (simp add: namesAt_def mkSMS_def digitsOnly_def)
  have c3: "filter (aboutNumber ''5551234'') (snd (snd (?G ?all)))
      = [MultipleNames ''5551234'' ''Alice'' ''Bob'']"
    using t3 [THEN conjunct2, THEN conjunct2, THEN conjunct2, THEN conjunct2,
        THEN spec [where x = "''5551234''"], THEN conjunct2]
    unfolding Messages.simps n by (simp add: resolveName_def)
  from h a1 a2 a3 b1 b3 n c3 show ?thesis
    unfolding k u by simp
qed

lemma mmsDiags_mismatch:
  assumes "length (Split (MMS_Address x) (CHR ''~''))
             \<noteq> length (Split (rcbs (MMS_ContactName x)) (CHR '',''))"
  shows "\<exists>ds. mmsDiags rcbs x =
     MmsCountMismatch (length (Split (MMS_Address x) (CHR ''~'')))
        (length (Split (rcbs (MMS_ContactName x)) (CHR '','')))
        (if length (Split (MMS_Address x) (CHR ''~''))
              > length (Split (rcbs (MMS_ContactName x)) (CHR '',''))
         then ''A number probably doesn't have a known contact''
         else ''A contact probably has a comma'') # ds"
  using assms by (simp add: mmsDiags_def guessMMS_def Let_def)

text \<open>
  C4.  An MMS whose tilde-split address list and comma-split name list differ in length
  is skipped: \<open>GuessContacts\<close> returns no error, the map is the one obtained without that
  record, a diagnostic with both lengths and the presumed cause is logged in its place,
  and the diagnostics of the records before and after it are unchanged.
\<close>
theorem GuessContacts_mms_mismatch:
  assumes "Messages_MMS m = pre @ x # post"
    and "length (Split (MMS_Address x) (CHR ''~''))
           \<noteq> length (Split (rcbs (MMS_ContactName x)) (CHR '',''))"
  shows "fst (snd (GuessContacts norm rcbs m)) = None \<and>
     fst (GuessContacts norm rcbs m)
       = fst (GuessContacts norm rcbs (m\<lparr>Messages_MMS := pre @ post\<rparr>)) \<and>
     (\<exists>ds rest.
        snd (snd (GuessContacts norm rcbs m)) =
          snd (snd (GuessContacts norm rcbs (m\<lparr>Messages_MMS := pre\<rparr>)))
          @ (MmsCountMismatch (length (Split (MMS_Address x) (CHR ''~'')))
               (length (Split (rcbs (MMS_ContactName x)) (CHR '','')))
               (if length (Split (MMS_Address x) (CHR ''~''))
                     > length (Split (rcbs (MMS_ContactName x)) (CHR '',''))
                then ''A number probably doesn't have a known contact''
                else ''A contact probably has a comma'') # ds)
          @ rest \<and>
        snd (snd (GuessContacts norm rcbs (m\<lparr>Messages_MMS := pre @ post\<rparr>))) =
          snd (snd (GuessContacts norm rcbs (m\<lparr>Messages_MMS := pre\<rparr>))) @ rest)"
proof -
  from mmsDiags_mismatch [where rcbs = rcbs and x = x, OF assms(2)] obtain ds where
    ds: "mmsDiags rcbs x =
     MmsCountMismatch (length (Split (MMS_Address x) (CHR ''~'')))
        (length (Split (rcbs (MMS_ContactName x)) (CHR '','')))
        (if length (Split (MMS_Address x) (CHR ''~''))
              > length (Split (rcbs (MMS_ContactName x)) (CHR '',''))
         then ''A number probably doesn't have a known contact''
         else ''A contact probably has a comma'') # ds" ..
  have e: "fst (snd (GuessContacts norm rcbs m)) = None"
    by (simp add: GuessContacts_def Let_def)
  have f: "fst (GuessContacts norm rcbs m)
       = fst (GuessContacts norm rcbs (m\<lparr>Messages_MMS := pre @ post\<rparr>))"
    by (simp add: GuessContacts_fst)
  have l1: "snd (snd (GuessContacts norm rcbs m)) =
          snd (snd (GuessContacts norm rcbs (m\<lparr>Messages_MMS := pre\<rparr>)))
          @ mmsDiags rcbs x @ concat (map (mmsDiags rcbs) post)"
    by (simp add: GuessContacts_log assms(1))
  have l2: "snd (snd (GuessContacts norm rcbs (m\<lparr>Messages_MMS := pre @ post\<rparr>))) =
          snd (snd (GuessContacts norm rcbs (m\<lparr>Messages_MMS := pre\<rparr>)))
          @ concat (map (mmsDiags rcbs) post)"
    by (simp add: GuessContacts_log)
  show ?thesis
    by (intro conjI exI [of _ ds] exI [of _ "concat (map (mmsDiags rcbs) post)"])
       (simp_all only: e f l1 l2 ds)
qed

theorem GuessContacts_mms_mismatch_witness:
  "fst (snd (GuessContacts digitsOnly (\<lambda>s. s)
      \<lparr>Messages_SMS = [mkSMS ''555-1234'' ''Alice''],
       Messages_MMS = [mkMMS ''5551234~5559876~5550000'' ''Smith, John'' []]\<rparr>)) = None \<and>
   fst (GuessContacts digitsOnly (\<lambda>s. s)
      \<lparr>Messages_SMS = [mkSMS ''555-1234'' ''Alice''],
       Messages_MMS = [mkMMS ''5551234~5559876~5550000'' ''Smith, John'' []]\<rparr>)
     = fst (GuessContacts digitsOnly (\<lambda>s. s)
      \<lparr>Messages_SMS = [mkSMS ''555-1234'' ''Alice''], Messages_MMS = []\<rparr>) \<and>
   length (Split ''5551234~5559876~5550000'' (CHR ''~'')) = 3 \<and>
   length (Split ''Smith, John'' (CHR '','')) = 2"
proof -
  let ?x = "mkMMS ''5551234~5559876~5550000'' ''Smith, John'' []"
  let ?m = "\<lparr>Messages_SMS = [mkSMS ''555-1234'' ''Alice''], Messages_MMS = [?x]\<rparr>"
  have h1: "Messages_MMS ?m = [] @ ?x # []" by simp
  have h2: "length (Split (MMS_Address ?x) (CHR ''~''))
           \<noteq> length (Split (MMS_ContactName ?x) (CHR '',''))"
    by (simp add: mkMMS_def)
  from GuessContacts_mms_mismatch [where rcbs = "\<lambda>s. s" and norm = digitsOnly, OF h1 h2]
  show ?thesis by simp
qed

text \<open>
  C2.  The code at the failing input: one MMS with one address and one contact name
  (equal lengths), no SMS.  The second loop of \<open>GuessContacts\<close> reaches the end of its
  body without pairing anything, and the returned map is empty.
\<close>
theorem GuessContacts_mms_equal_lengths_dropped:
  "fst (GuessContacts digitsOnly (\<lambda>s. s)
      \<lparr>Messages_SMS = [], Messages_MMS = [mkMMS ''5551234'' ''Alice'' []]\<rparr>) = Map.empty \<and>
   length (Split (MMS_Address (mkMMS ''5551234'' ''Alice'' [])) (CHR ''~'')) = 1 \<and>
   length (map TrimSpace (Split (MMS_ContactName (mkMMS ''5551234'' ''Alice'' [])) (CHR '','')))
     = 1"
  by (simp add: GuessContacts_def guessMMS_def mkMMS_def Let_def)

subsection \<open>Streaming decoder\<close>

lemma skipTokens_flatten:
  "skipTokens depth (flatten k @ ts) = skipTokens depth ts"
proof (induction k arbitrary: depth ts)
  case (Element n as kids)
  have "skipTokens dp (concat (map flatten ks) @ us) = skipTokens dp us"
    if "set ks \<subseteq> set kids" for ks dp us
    using that by (induction ks) (simp_all add: Element.IH)
  from this [of kids "Suc depth" "EndElement n # ts"] show ?case by simp
qed simp_all

lemma skipTokens_flattenAll:
  "skipTokens depth (flattenAll ks @ ts) = skipTokens depth ts"
  unfolding flattenAll_def by (induction ks) (simp_all add: skipTokens_flatten)

lemma subtree_flatten:
  "subtree depth (flatten k @ ts)
     = map_option (\<lambda>(body, rest). (flatten k @ body, rest)) (subtree depth ts)"
proof (induction k arbitrary: depth ts)
  case (Element n as kids)
  have "subtree dp (concat (map flatten ks) @ us)
          = map_option (\<lambda>(body, rest). (concat (map flatten ks) @ body, rest)) (subtree dp us)"
    if "set ks \<subseteq> set kids" for ks dp us
    using that
    by (induction ks) (simp_all add: Element.IH option.map_comp comp_def case_prod_unfold option.map_ident)
  from this [of kids "Suc depth" "EndElement n # ts"] show ?case
    by (simp add: option.map_comp comp_def case_prod_unfold)
qed (simp_all add: option.map_comp comp_def case_prod_unfold)

lemma subtree_flattenAll:
  "subtree depth (flattenAll ks @ ts)
     = map_option (\<lambda>(body, rest). (flattenAll ks @ body, rest)) (subtree depth ts)"
  unfolding flattenAll_def
  by (induction ks) (simp_all add: subtree_flatten option.map_comp comp_def case_prod_unfold option.map_ident)

lemma findElem_nil:
  "findElem \<lparr>pending = [], at_end = fin\<rparr> names = (Inl fin, \<lparr>pending = [], at_end = fin\<rparr>)"
  by (subst findElem.simps) (simp add: Token_def)

lemma findElem_hit:
  "n \<in> set names \<Longrightarrow>
   findElem \<lparr>pending = StartElement n as # ts, at_end = fin\<rparr> names
     = (Inr (StartElement n as), \<lparr>pending = ts, at_end = fin\<rparr>)"
  by (subst findElem.simps) (simp add: Token_def)

lemma findElem_miss:
  "n \<notin> set names \<Longrightarrow> skipTokens 0 ts = Some ts' \<Longrightarrow>
   findElem \<lparr>pending = StartElement n as # ts, at_end = fin\<rparr> names
     = findElem \<lparr>pending = ts', at_end = fin\<rparr> names"
  by (subst findElem.simps) (simp add: Token_def Skip_def)

lemma findElem_other:
  "\<not> isStart t \<Longrightarrow>
   findElem \<lparr>pending = t # ts, at_end = fin\<rparr> names
     = findElem \<lparr>pending = ts, at_end = fin\<rparr> names"
  by (subst findElem.simps) (cases t; simp add: Token_def)

lemma findElem_no_start:
  "\<forall>t \<in> set ts. \<not> isStart t \<Longrightarrow>
   findElem \<lparr>pending = ts, at_end = fin\<rparr> names = (Inl fin, \<lparr>pending = [], at_end = fin\<rparr>)"
  by (induction ts) (simp_all add: findElem_nil findElem_other)

lemma skip_element_body:
  "skipTokens 0 (flattenAll kids @ EndElement n # ts) = Some ts"
  by (simp add: skipTokens_flattenAll)

lemma subtree_element_body:
  "subtree 0 (flattenAll kids @ EndElement n # ts) = Some (flattenAll kids, ts)"
  by (simp add: subtree_flattenAll)

lemma flattenAll_Cons: "flattenAll (k # ks) = flatten k @ flattenAll ks"
  by (simp add: flattenAll_def)

lemma flatten_Element:
  "flatten (Element n as kids) @ ts = StartElement n as # flattenAll kids @ EndElement n # ts"
  by (simp add: flattenAll_def)

lemma Decode_loop_findElem_cong:
  assumes "findElem dA [''sms'', ''mms''] = findElem dB [''sms'', ''mms'']"
  shows "Decode_loop uS uM (d\<lparr>MessageDecoder_decoder := dA\<rparr>) st
           = Decode_loop uS uM (d\<lparr>MessageDecoder_decoder := dB\<rparr>) st"
  by (simp only: Decode_loop.simps [of uS uM "d\<lparr>MessageDecoder_decoder := dA\<rparr>" st]
                 Decode_loop.simps [of uS uM "d\<lparr>MessageDecoder_decoder := dB\<rparr>" st])
     (simp add: assms cong: prod.case_cong option.case_cong sum.case_cong if_cong)

lemma Decode_loop_pass:
  assumes "\<not> isStart t"
  shows "Decode_loop uS uM (d\<lparr>MessageDecoder_decoder := \<lparr>pending = t # ts, at_end = fin\<rparr>\<rparr>) st
       = Decode_loop uS uM (d\<lparr>MessageDecoder_decoder := \<lparr>pending = ts, at_end = fin\<rparr>\<rparr>) st"
  by (rule Decode_loop_findElem_cong) (rule findElem_other [OF assms])

lemma Decode_loop_other_element:
  assumes "n \<noteq> ''sms''" "n \<noteq> ''mms''"
  shows "Decode_loop uS uM (d\<lparr>MessageDecoder_decoder :=
            \<lparr>pending = StartElement n as # flattenAll kids @ EndElement n # ts, at_end = fin\<rparr>\<rparr>) st
       = Decode_loop uS uM (d\<lparr>MessageDecoder_decoder := \<lparr>pending = ts, at_end = fin\<rparr>\<rparr>) st"
  by (rule Decode_loop_findElem_cong, rule findElem_miss) (use assms in \<open>simp_all add: skip_element_body\<close>)

lemma Decode_loop_sms:
  "Decode_loop uS uM (d\<lparr>MessageDecoder_decoder :=
       \<lparr>pending = StartElement ''sms'' as # flattenAll kids @ EndElement ''sms'' # ts,
        at_end = fin\<rparr>\<rparr>) st
   = (case OnSMS d of
        None \<Rightarrow> Decode_loop uS uM (d\<lparr>MessageDecoder_decoder := \<lparr>pending = ts, at_end = fin\<rparr>\<rparr>) st
      | Some handleSMS \<Rightarrow>
          (case uS (StartElement ''sms'' as) (flattenAll kids) of
             Inl err \<Rightarrow> (Return (Some (Wrap ''unable to decode sms element'' err)),
                         d\<lparr>MessageDecoder_decoder := \<lparr>pending = ts, at_end = fin\<rparr>\<rparr>, st)
           | Inr sms \<Rightarrow>
               (case handleSMS sms st of
                  (Some err, st') \<Rightarrow>
                    (Return (Some err),
                     d\<lparr>MessageDecoder_decoder := \<lparr>pending = ts, at_end = fin\<rparr>\<rparr>, st')
                | (None, st') \<Rightarrow>
                    Decode_loop uS uM
                      (d\<lparr>MessageDecoder_decoder := \<lparr>pending = ts, at_end = fin\<rparr>\<rparr>) st')))"
  by (subst Decode_loop.simps)
     (simp add: findElem_hit Skip_def DecodeElement_def skip_element_body subtree_element_body
           split: option.splits sum.splits prod.splits)

lemma Decode_loop_mms:
  "Decode_loop uS uM (d\<lparr>MessageDecoder_decoder :=
       \<lparr>pending = StartElement ''mms'' as # flattenAll kids @ EndElement ''mms'' # ts,
        at_end = fin\<rparr>\<rparr>) st
   = (case OnMMS d of
        None \<Rightarrow> Decode_loop uS uM (d\<lparr>MessageDecoder_decoder := \<lparr>pending = ts, at_end = fin\<rparr>\<rparr>) st
      | Some handleMMS \<Rightarrow>
          (case uM (StartElement ''mms'' as) (flattenAll kids) of
             Inl err \<Rightarrow> (Return (Some (Wrap ''unable to decode mms element'' err)),
                         d\<lparr>MessageDecoder_decoder := \<lparr>pending = ts, at_end = fin\<rparr>\<rparr>, st)
           | Inr mms \<Rightarrow>
               (case handleMMS mms st of
                  (Some err, st') \<Rightarrow>
                    (Return (Some err),
                     d\<lparr>MessageDecoder_decoder := \<lparr>pending = ts, at_end = fin\<rparr>\<rparr>, st')
                | (None, st') \<Rightarrow>
                    Decode_loop uS uM
                      (d\<lparr>MessageDecoder_decoder := \<lparr>pending = ts, at_end = fin\<rparr>\<rparr>) st')))"
  by (subst Decode_loop.simps)
     (simp add: findElem_hit Skip_def DecodeElement_def skip_element_body subtree_element_body
           split: option.splits sum.splits prod.splits)

lemma outcomeAndState_tuple: "outcomeAndState (a, b, c) = (a, c)"
  by (simp add: outcomeAndState_def)

lemma Decode_loop_flattenAll:
  "outcomeAndState (Decode_loop uS uM (d\<lparr>MessageDecoder_decoder :=
       \<lparr>pending = flattenAll kids @ rest, at_end = fin\<rparr>\<rparr>) st)
   = (case deliverInOrder uS uM d kids st of
        (Some err, st') \<Rightarrow> (Return (Some err), st')
      | (None, st') \<Rightarrow>
          outcomeAndState (Decode_loop uS uM (d\<lparr>MessageDecoder_decoder :=
             \<lparr>pending = rest, at_end = fin\<rparr>\<rparr>) st'))"
proof (induction kids arbitrary: st)
  case Nil
  show ?case by (simp add: flattenAll_def)
next
  case (Cons k ks)
  show ?case
  proof (cases k)
    case (Element n as kk)
    have fl: "flattenAll (Element n as kk # ks) @ rest
        = StartElement n as # flattenAll kk @ EndElement n # (flattenAll ks @ rest)"
      by (simp add: flattenAll_def)
    consider "n = ''sms''" | "n = ''mms''" | "n \<noteq> ''sms''" "n \<noteq> ''mms''" by blast
    then show ?thesis
    proof cases
      case 1
      show ?thesis
        unfolding Element unfolding fl unfolding 1 unfolding Decode_loop_sms
        by (simp add: Cons.IH outcomeAndState_tuple split: option.splits sum.splits prod.splits)
    next
      case 2
      show ?thesis
        unfolding Element unfolding fl unfolding 2 unfolding Decode_loop_mms
        by (simp add: Cons.IH outcomeAndState_tuple split: option.splits sum.splits prod.splits)
    next
      case 3
      show ?thesis
        unfolding Element unfolding fl unfolding Decode_loop_other_element [OF 3]
        using 3 by (simp add: Cons.IH)
    qed
  next
    case (Text s)
    show ?thesis
      by (simp add: Text flattenAll_Cons Decode_loop_pass Cons.IH)
  next
    case (CommentNode s)
    show ?thesis
      by (simp add: CommentNode flattenAll_Cons Decode_loop_pass Cons.IH)
  next
    case (ProcInstNode s1 s2)
    show ?thesis
      by (simp add: ProcInstNode flattenAll_Cons Decode_loop_pass Cons.IH)
  next
    case (DirectiveNode s)
    show ?thesis
      by (simp add: DirectiveNode flattenAll_Cons Decode_loop_pass Cons.IH)
  qed
qed

lemma Decode_loop_no_start:
  assumes "\<forall>t \<in> set ts. \<not> isStart t"
    and "MessageDecoder_decoder d = \<lparr>pending = ts, at_end = fin\<rparr>"
  shows "outcomeAndState (Decode_loop uS uM d st)
         = (Return (if errors_Is_EOF fin then None
                    else Some (Wrap ''unable to find sms or mms element'' fin)), st)"
  by (subst Decode_loop.simps)
     (simp add: assms(2) findElem_no_start [OF assms(1)] outcomeAndState_tuple)

lemma deliverInOrder_recorders:
  assumes "\<forall>k \<in> set kids. isMessage k \<longrightarrow> invocationOf uS uM k \<noteq> None"
    and "OnSMS d = Some recordSMS" and "OnMMS d = Some recordMMS"
  shows "deliverInOrder uS uM d kids st = (None, st @ List.map_filter (invocationOf uS uM) kids)"
  using assms(1)
proof (induction kids arbitrary: st)
  case Nil
  show ?case by simp
next
  case (Cons k ks)
  then have IH: "\<And>st. deliverInOrder uS uM d ks st
      = (None, st @ List.map_filter (invocationOf uS uM) ks)"
    by simp
  show ?case
  proof (cases k)
    case (Element n as kk)
    with Cons.prems show ?thesis
      by (auto simp: IH assms(2,3) recordSMS_def recordMMS_def
               split: sum.splits)
  qed (simp_all add: IH)
qed

text \<open>
  C1.  \<open>MessageDecoder.Decode\<close> hands the records to the configured handlers in the
  order of their elements in the document.  On a stream that starts with the tokens of
  the nodes \<open>kids\<close>, whatever follows, a run of \<open>Decode\<close> is the delivery of \<open>kids\<close> in
  document order and, when no error ended it, the run on the rest of the stream.  With
  recording handlers for both kinds, on a document whose message elements all decode
  and whose trailer opens no further element, the recorded invocations are exactly the
  \<open>sms\<close> and \<open>mms\<close> children of the root, one invocation per element, in document
  order.
\<close>
theorem Decode_document_order:
  "(OnSMS d \<noteq> None \<or> OnMMS d \<noteq> None \<longrightarrow>
      outcomeAndState (Decode uS uM
          (d\<lparr>MessageDecoder_decoder := \<lparr>pending = flattenAll kids @ rest, at_end = fin\<rparr>\<rparr>) st)
        = (case deliverInOrder uS uM d kids st of
             (Some err, st') \<Rightarrow> (Return (Some err), st')
           | (None, st') \<Rightarrow>
               outcomeAndState (Decode uS uM
                 (d\<lparr>MessageDecoder_decoder := \<lparr>pending = rest, at_end = fin\<rparr>\<rparr>) st')))
   \<and> ((\<forall>t \<in> set trailer. \<not> isStart t)
        \<and> (\<forall>k \<in> set kids. isMessage k \<longrightarrow> invocationOf uS uM k \<noteq> None) \<longrightarrow>
      outcomeAndState (Decode uS uM
          \<lparr>MessageDecoder_decoder = \<lparr>pending = flattenAll kids @ trailer, at_end = fin\<rparr>,
           MessageDecoder_BackupInfo = info,
           OnSMS = Some recordSMS, OnMMS = Some recordMMS\<rparr> [])
        = (Return (if errors_Is_EOF fin then None
                   else Some (Wrap ''unable to find sms or mms element'' fin)),
           List.map_filter (invocationOf uS uM) kids)
      \<and> length (List.map_filter (invocationOf uS uM) kids) = length (filter isMessage kids))"
proof (intro conjI impI)
  assume "OnSMS d \<noteq> None \<or> OnMMS d \<noteq> None"
  then have D: "Decode uS uM (d\<lparr>MessageDecoder_decoder := x\<rparr>) s
      = Decode_loop uS uM (d\<lparr>MessageDecoder_decoder := x\<rparr>) s" for x s
    by (auto simp: Decode_def)
  show "outcomeAndState (Decode uS uM
          (d\<lparr>MessageDecoder_decoder := \<lparr>pending = flattenAll kids @ rest, at_end = fin\<rparr>\<rparr>) st)
        = (case deliverInOrder uS uM d kids st of
             (Some err, st') \<Rightarrow> (Return (Some err), st')
           | (None, st') \<Rightarrow>
               outcomeAndState (Decode uS uM
                 (d\<lparr>MessageDecoder_decoder := \<lparr>pending = rest, at_end = fin\<rparr>\<rparr>) st'))"
    unfolding D by (rule Decode_loop_flattenAll)
next
  assume a: "(\<forall>t \<in> set trailer. \<not> isStart t)
        \<and> (\<forall>k \<in> set kids. isMessage k \<longrightarrow> invocationOf uS uM k \<noteq> None)"
  let ?d = "\<lparr>MessageDecoder_decoder = \<lparr>pending = [], at_end = fin\<rparr>,
           MessageDecoder_BackupInfo = info,
           OnSMS = Some recordSMS, OnMMS = Some recordMMS\<rparr>"
  have del: "deliverInOrder uS uM ?d kids [] = (None, List.map_filter (invocationOf uS uM) kids)"
    using deliverInOrder_recorders [of kids uS uM ?d "[]"] a by simp
  show "outcomeAndState (Decode uS uM
          \<lparr>MessageDecoder_decoder = \<lparr>pending = flattenAll kids @ trailer, at_end = fin\<rparr>,
           MessageDecoder_BackupInfo = info,
           OnSMS = Some recordSMS, OnMMS = Some recordMMS\<rparr> [])
        = (Return (if errors_Is_EOF fin then None
                   else Some (Wrap ''unable to find sms or mms element'' fin)),
           List.map_filter (invocationOf uS uM) kids)"
  proof -
    have "outcomeAndState (Decode_loop uS uM
            (?d\<lparr>MessageDecoder_decoder :=
                 \<lparr>pending = flattenAll kids @ trailer, at_end = fin\<rparr>\<rparr>) [])
        = (Return (if errors_Is_EOF fin then None
                   else Some (Wrap ''unable to find sms or mms element'' fin)),
           List.map_filter (invocationOf uS uM) kids)"
      unfolding Decode_loop_flattenAll del
      using a by (simp add: Decode_loop_no_start [where ts = trailer and fin = fin])
    then show ?thesis by (simp add: Decode_def)
  qed
  from a show "length (List.map_filter (invocationOf uS uM) kids) = length (filter isMessage kids)"
  proof (induction kids)
    case Nil
    show ?case by simp
  next
    case (Cons k ks)
    then show ?case by (cases k) (auto split: sum.splits)
  qed
qed

theorem Decode_document_order_witness:
  "outcomeAndState (Decode sampleUnmarshalSMS sampleUnmarshalMMS
      \<lparr>MessageDecoder_decoder =
         \<lparr>pending = flattenAll sampleChildren @ sampleTrailer, at_end = EOF\<rparr>,
       MessageDecoder_BackupInfo = zeroBackupInfo,
       OnSMS = Some recordSMS, OnMMS = Some recordMMS\<rparr> [])
     = (Return None,
        [CallOnSMS (mkSMS ''111'' ''Ann''),
         CallOnMMS (mkMMS ''222~333'' ''Bob, Cy'' []),
         CallOnSMS (mkSMS ''444'' ''Dee'')])
   \<and> outcomeAndState (Decode sampleUnmarshalSMS sampleUnmarshalMMS
      \<lparr>MessageDecoder_decoder =
         \<lparr>pending = flattenAll sampleChildren @ sampleTrailer, at_end = EOF\<rparr>,
       MessageDecoder_BackupInfo = zeroBackupInfo,
       OnSMS = None, OnMMS = Some recordMMS\<rparr> [])
     = (Return None, [CallOnMMS (mkMMS ''222~333'' ''Bob, Cy'' [])])"
proof -
  have h1: "\<forall>t \<in> set sampleTrailer. \<not> isStart t"
    by (simp add: sampleTrailer_def)
  have h2: "\<forall>k \<in> set sampleChildren.
      isMessage k \<longrightarrow> invocationOf sampleUnmarshalSMS sampleUnmarshalMMS k \<noteq> None"
    by (simp add: sampleChildren_def sampleUnmarshalSMS_def sampleUnmarshalMMS_def)
  have v: "List.map_filter (invocationOf sampleUnmarshalSMS sampleUnmarshalMMS) sampleChildren
      = [CallOnSMS (mkSMS ''111'' ''Ann''),
         CallOnMMS (mkMMS ''222~333'' ''Bob, Cy'' []),
         CallOnSMS (mkSMS ''444'' ''Dee'')]"
    by (simp add: sampleChildren_def sampleUnmarshalSMS_def
          sampleUnmarshalMMS_def attrOr_def)
  from Decode_document_order [where kids = sampleChildren and trailer = sampleTrailer
      and uS = sampleUnmarshalSMS and uM = sampleUnmarshalMMS and fin = EOF
      and info = zeroBackupInfo, THEN conjunct2, rule_format, OF conjI [OF h1 h2], THEN conjunct1]
  have both: "outcomeAndState (Decode sampleUnmarshalSMS sampleUnmarshalMMS
      \<lparr>MessageDecoder_decoder =
         \<lparr>pending = flattenAll sampleChildren @ sampleTrailer, at_end = EOF\<rparr>,
       MessageDecoder_BackupInfo = zeroBackupInfo,
       OnSMS = Some recordSMS, OnMMS = Some recordMMS\<rparr> [])
     = (Return None,
        [CallOnSMS (mkSMS ''111'' ''Ann''),
         CallOnMMS (mkMMS ''222~333'' ''Bob, Cy'' []),
         CallOnSMS (mkSMS ''444'' ''Dee'')])"
    unfolding v by simp
  let ?d = "\<lparr>MessageDecoder_decoder = \<lparr>pending = [], at_end = EOF\<rparr>,
       MessageDecoder_BackupInfo = zeroBackupInfo,
       OnSMS = None, OnMMS = Some recordMMS\<rparr>"
  have h3: "OnSMS ?d \<noteq> None \<or> OnMMS ?d \<noteq> None" by simp
  have del: "deliverInOrder sampleUnmarshalSMS sampleUnmarshalMMS ?d sampleChildren []
      = (None, [CallOnMMS (mkMMS ''222~333'' ''Bob, Cy'' [])])"
    by (simp add: sampleChildren_def sampleUnmarshalMMS_def attrOr_def recordMMS_def)
  have tr: "outcomeAndState (Decode sampleUnmarshalSMS sampleUnmarshalMMS
        (?d\<lparr>MessageDecoder_decoder := \<lparr>pending = sampleTrailer, at_end = EOF\<rparr>\<rparr>)
        [CallOnMMS (mkMMS ''222~333'' ''Bob, Cy'' [])])
      = (Return None, [CallOnMMS (mkMMS ''222~333'' ''Bob, Cy'' [])])"
    using Decode_loop_no_start [OF h1, where fin = EOF and uS = sampleUnmarshalSMS
        and uM = sampleUnmarshalMMS
        and d = "?d\<lparr>MessageDecoder_decoder := \<lparr>pending = sampleTrailer, at_end = EOF\<rparr>\<rparr>"]
    by (simp add: Decode_def)
  from Decode_document_order [where d = ?d and kids = sampleChildren and rest = sampleTrailer
      and uS = sampleUnmarshalSMS and uM = sampleUnmarshalMMS and fin = EOF and st = "[]",
      THEN conjunct1, rule_format, OF h3]
  have only: "outcomeAndState (Decode sampleUnmarshalSMS sampleUnmarshalMMS
      (?d\<lparr>MessageDecoder_decoder :=
           \<lparr>pending = flattenAll sampleChildren @ sampleTrailer, at_end = EOF\<rparr>\<rparr>) [])
     = (Return None, [CallOnMMS (mkMMS ''222~333'' ''Bob, Cy'' [])])"
    unfolding del by (simp only: prod.case option.case tr)
  from both only show ?thesis by simp
qed

text \<open>
  C6, as stated, fails.  The constructors accept a decoder without handlers: the
  handlers are fields that the caller assigns after \<open>NewMessageDecoder\<close> or
  \<open>NewCallDecoder\<close> has returned, and on a backup with a root element both return a
  decoder whose handlers are all \<open>nil\<close>, with no error.
\<close>

theorem constructors_accept_no_handlers:
  "(NewMessageDecoder (emptyBackup ''smses'') :: error + invocation list MessageDecoder)
     = Inr \<lparr>MessageDecoder_decoder = \<lparr>pending = [EndElement ''smses''], at_end = EOF\<rparr>,
            MessageDecoder_BackupInfo = zeroBackupInfo\<lparr>BackupInfo_Count := ''0''\<rparr>,
            OnSMS = None, OnMMS = None\<rparr>
   \<and> (NewCallDecoder (emptyBackup ''calls'') :: error + invocation list CallDecoder)
     = Inr \<lparr>CallDecoder_decoder = \<lparr>pending = [EndElement ''calls''], at_end = EOF\<rparr>,
            CallDecoder_BackupInfo = zeroBackupInfo\<lparr>BackupInfo_Count := ''0''\<rparr>,
            OnCall = None\<rparr>"
  by (simp add: NewMessageDecoder_def NewCallDecoder_def emptyBackup_def findElem_hit
        fillBackupInfo_def)

text \<open>
  C6, as amended.  \<open>Decode\<close> on a decoder with no handler fails at once, as a
  programmer error: for a \<open>MessageDecoder\<close> with \<open>OnSMS\<close> and \<open>OnMMS\<close> unset, and for a
  \<open>CallDecoder\<close> with \<open>OnCall\<close> unset, it panics before a token is read or the handler
  state is touched, on every stream; so it does on the decoder as the constructor
  returns it.
\<close>

theorem Decode_without_handlers_panics:
  "(OnSMS d = None \<and> OnMMS d = None \<longrightarrow>
      Decode uS uM d st = (Panic ''OnSMS or OnMMS must be set'', d, st))
   \<and> (OnCall c = None \<longrightarrow>
      CallDecode uC c st' = (Panic ''OnCall must be set'', c, st'))
   \<and> (NewMessageDecoder stream = Inr d \<longrightarrow>
      Decode uS uM d st = (Panic ''OnSMS or OnMMS must be set'', d, st))
   \<and> (NewCallDecoder stream = Inr c \<longrightarrow>
      CallDecode uC c st' = (Panic ''OnCall must be set'', c, st'))"
proof (intro conjI impI)
  assume "OnSMS d = None \<and> OnMMS d = None"
  then show "Decode uS uM d st = (Panic ''OnSMS or OnMMS must be set'', d, st)"
    by (simp add: Decode_def)
next
  assume "OnCall c = None"
  then show "CallDecode uC c st' = (Panic ''OnCall must be set'', c, st')"
    by (simp add: CallDecode_def)
next
  assume "NewMessageDecoder stream = Inr d"
  then have "OnSMS d = None \<and> OnMMS d = None"
    by (auto simp: NewMessageDecoder_def split: prod.splits sum.splits)
  then show "Decode uS uM d st = (Panic ''OnSMS or OnMMS must be set'', d, st)"
    by (simp add: Decode_def)
next
  assume "NewCallDecoder stream = Inr c"
  then have "OnCall c = None"
    by (auto simp: NewCallDecoder_def split: prod.splits sum.splits)
  then show "CallDecode uC c st' = (Panic ''OnCall must be set'', c, st')"
    by (simp add: CallDecode_def)
qed

text \<open>
  On the empty backup the loop alone would return \<open>nil\<close> with nothing delivered; the
  check at the entry of \<open>Decode\<close> turns the missing handlers into a panic.
\<close>

theorem Decode_without_handlers_panics_witness:
  "fst (Decode sampleUnmarshalSMS sampleUnmarshalMMS
        \<lparr>MessageDecoder_decoder = \<lparr>pending = [EndElement ''smses''], at_end = EOF\<rparr>,
         MessageDecoder_BackupInfo = zeroBackupInfo\<lparr>BackupInfo_Count := ''0''\<rparr>,
         OnSMS = None, OnMMS = None\<rparr> ([] :: invocation list))
       = Panic ''OnSMS or OnMMS must be set''
   \<and> fst (Decode_loop sampleUnmarshalSMS sampleUnmarshalMMS
        \<lparr>MessageDecoder_decoder = \<lparr>pending = [EndElement ''smses''], at_end = EOF\<rparr>,
         MessageDecoder_BackupInfo = zeroBackupInfo\<lparr>BackupInfo_Count := ''0''\<rparr>,
         OnSMS = None, OnMMS = None\<rparr> ([] :: invocation list))
       = Return None
   \<and> fst (CallDecode (\<lambda>start body. Inl (Err ''no calls''))
        \<lparr>CallDecoder_decoder = \<lparr>pending = [EndElement ''calls''], at_end = EOF\<rparr>,
         CallDecoder_BackupInfo = zeroBackupInfo\<lparr>BackupInfo_Count := ''0''\<rparr>,
         OnCall = None\<rparr> ([] :: invocation list))
       = Panic ''OnCall must be set''"
proof -
  let ?d = "\<lparr>MessageDecoder_decoder = \<lparr>pending = [EndElement ''smses''], at_end = EOF\<rparr>,
            MessageDecoder_BackupInfo = zeroBackupInfo\<lparr>BackupInfo_Count := ''0''\<rparr>,
            OnSMS = None, OnMMS = None\<rparr> :: invocation list MessageDecoder"
  let ?c = "\<lparr>CallDecoder_decoder = \<lparr>pending = [EndElement ''calls''], at_end = EOF\<rparr>,
         CallDecoder_BackupInfo = zeroBackupInfo\<lparr>BackupInfo_Count := ''0''\<rparr>,
         OnCall = None\<rparr> :: invocation list CallDecoder"
  have n: "OnSMS ?d = None \<and> OnMMS ?d = None" by simp
  have nc: "OnCall ?c = None" by simp
  have l: "fst (Decode_loop sampleUnmarshalSMS sampleUnmarshalMMS ?d []) = Return None"
    using Decode_loop_no_start [of "[EndElement ''smses'']" ?d EOF
        sampleUnmarshalSMS sampleUnmarshalMMS "[]"]
    by (simp add: outcomeAndState_def)
  note t = Decode_without_handlers_panics [where d = ?d and c = ?c
      and uS = sampleUnmarshalSMS and uM = sampleUnmarshalMMS and st = "[]" and st' = "[]"
      and uC = "\<lambda>start body. Inl (Err ''no calls'')"]
  from t [THEN conjunct1, rule_format, OF n] t [THEN conjunct2, THEN conjunct1, rule_format, OF nc] l
  show ?thesis by simp
qed

text \<open>
  An invariant of the handler state that every handler preserves is preserved by the
  loop of \<open>Decode\<close>, on every stream.
\<close>

lemma Decode_loop_preserves:
  assumes "\<And>h v s e s'. OnSMS d = Some h \<Longrightarrow> h v s = (e, s') \<Longrightarrow> P s \<Longrightarrow> P s'"
    and "\<And>h v s e s'. OnMMS d = Some h \<Longrightarrow> h v s = (e, s') \<Longrightarrow> P s \<Longrightarrow> P s'"
    and "P st"
  shows "P (snd (snd (Decode_loop uS uM d st)))"
  using assms
proof (induction uS uM d st rule: Decode_loop.induct)
  case (1 uS uM d st)
  obtain r dec where fe: "findElem (MessageDecoder_decoder d) [''sms'', ''mms''] = (r, dec)"
    by (cases "findElem (MessageDecoder_decoder d) [''sms'', ''mms'']")
  show ?case
  proof (cases r)
    case (Inl err)
    with fe "1.prems"(3) show ?thesis
      by (subst Decode_loop.simps) simp
  next
    case (Inr child)
    note fe' = fe [unfolded Inr]
    consider (sms) "Name_Local child = ''sms''"
      | (mms) "Name_Local child \<noteq> ''sms''" "Name_Local child = ''mms''"
      | (other) "Name_Local child \<noteq> ''sms''" "Name_Local child \<noteq> ''mms''"
      by blast
    then show ?thesis
    proof cases
      case sms
      show ?thesis
      proof (cases "OnSMS d")
        case None
        obtain e dec' where sk: "Skip dec = (e, dec')" by (cases "Skip dec")
        show ?thesis
        proof (cases e)
          case (Some err)
          with fe' sms None sk "1.prems"(3) show ?thesis
            by (subst Decode_loop.simps) simp
        next
          case N: None
          have "P (snd (snd (Decode_loop uS uM (d\<lparr>MessageDecoder_decoder := dec'\<rparr>) st)))"
            by (rule "1.IH"(1) [OF fe' [symmetric] refl sms None sk [unfolded N, symmetric] refl])
               (use "1.prems" in \<open>simp_all\<close>)
          with fe' sms None sk N show ?thesis
            by (subst Decode_loop.simps) simp
        qed
      next
        case (Some h)
        obtain v dec' where de: "DecodeElement uS dec child = (v, dec')"
          by (cases "DecodeElement uS dec child")
        show ?thesis
        proof (cases v)
          case (Inl err)
          with fe' sms Some de "1.prems"(3) show ?thesis
            by (subst Decode_loop.simps) simp
        next
          case R: (Inr rec)
          obtain e st' where hv: "h rec st = (e, st')" by (cases "h rec st")
          have P': "P st'" by (rule "1.prems"(1) [OF Some hv "1.prems"(3)])
          show ?thesis
          proof (cases e)
            case S: (Some err)
            with fe' sms Some de R hv P' show ?thesis
              by (subst Decode_loop.simps) simp
          next
            case N: None
            have "P (snd (snd (Decode_loop uS uM (d\<lparr>MessageDecoder_decoder := dec'\<rparr>) st')))"
              by (rule "1.IH"(2) [OF fe' [symmetric] refl sms Some de [unfolded R, symmetric] refl
                    hv [unfolded N, symmetric] refl])
                 (use "1.prems"(1,2) P' in \<open>simp_all\<close>)
            with fe' sms Some de R hv N show ?thesis
              by (subst Decode_loop.simps) simp
          qed
        qed
      qed
    next
      case mms
      show ?thesis
      proof (cases "OnMMS d")
        case None
        obtain e dec' where sk: "Skip dec = (e, dec')" by (cases "Skip dec")
        show ?thesis
        proof (cases e)
          case (Some err)
          with fe' mms None sk "1.prems"(3) show ?thesis
            by (subst Decode_loop.simps) simp
        next
          case N: None
          have "P (snd (snd (Decode_loop uS uM (d\<lparr>MessageDecoder_decoder := dec'\<rparr>) st)))"
            by (rule "1.IH"(3) [OF fe' [symmetric] refl mms None sk [unfolded N, symmetric] refl])
               (use "1.prems" in \<open>simp_all\<close>)
          with fe' mms None sk N show ?thesis
            by (subst Decode_loop.simps) simp
        qed
      next
        case (Some h)
        obtain v dec' where de: "DecodeElement uM dec child = (v, dec')"
          by (cases "DecodeElement uM dec child")
        show ?thesis
        proof (cases v)
          case (Inl err)
          with fe' mms Some de "1.prems"(3) show ?thesis
            by (subst Decode_loop.simps) simp
        next
          case R: (Inr rec)
          obtain e st' where hv: "h rec st = (e, st')" by (cases "h rec st")
          have P': "P st'" by (rule "1.prems"(2) [OF Some hv "1.prems"(3)])
          show ?thesis
          proof (cases e)
            case S: (Some err)
            with fe' mms Some de R hv P' show ?thesis
              by (subst Decode_loop.simps) simp
          next
            case N: None
            have "P (snd (snd (Decode_loop uS uM (d\<lparr>MessageDecoder_decoder := dec'\<rparr>) st')))"
              by (rule "1.IH"(4) [OF fe' [symmetric] refl mms Some de [unfolded R, symmetric] refl
                    hv [unfolded N, symmetric] refl])
                 (use "1.prems"(1,2) P' in \<open>simp_all\<close>)
            with fe' mms Some de R hv N show ?thesis
              by (subst Decode_loop.simps) simp
          qed
        qed
      qed
    next
      case other
      with fe' "1.prems"(3) show ?thesis
        by (subst Decode_loop.simps) simp
    qed
  qed
qed

subsection \<open>Flat-file sink for SMS\<close>

lemma sint_of_nat_64: "i < 2 ^ 63 \<Longrightarrow> sint (of_nat i :: 64 word) = int i"
  by (simp add: signed_of_nat signed_take_bit_int_eq_self_iff take_bit_nat_eq_self)

lemma Join_14:
  "Join [x0, x1, x2, x3, x4, x5, x6, x7, x8, x9, x10, x11, x12, x13] [t] @ [l]
     = x0 @ t # x1 @ t # x2 @ t # x3 @ t # x4 @ t # x5 @ t # x6 @ t # x7 @ t # x8 @ t #
       x9 @ t # x10 @ t # x11 @ t # x12 @ t # x13 @ [l]"
  by simp

lemma SMSOutput_Write_row:
  assumes "i < 2 ^ 63"
  shows "SMSOutput_Write fw r \<lparr>SMSOutput_idx = of_nat i\<rparr> sms f
     = (fst (fw f (smsRowText r i sms @ [LF])), \<lparr>SMSOutput_idx = of_nat (Suc i)\<rparr>,
        snd (fw f (smsRowText r i sms @ [LF])))"
proof -
  have s: "(of_nat i :: 64 word) + 1 = of_nat (Suc i)" by simp
  have a: "(x @ y) @ z = x @ y @ z" "(c # y) @ z = c # y @ z" for x y z :: string and c
    by simp_all
  show ?thesis
    by (simp only: SMSOutput_Write_def Fprintln_def Let_def SMSOutput.simps
          SMSOutput.update_convs s sint_of_nat_64 [OF assms] fst_conv snd_conv Join_14 a)
qed

lemma writeSMSs_feed:
  assumes "i + length xs \<le> 2 ^ 63"
  shows "outcomeAndFile (writeSMSs fw r \<lparr>SMSOutput_idx = of_nat i\<rparr> xs f)
     = feed fw f (map (\<lambda>(j, sms). smsRowText r j sms @ [LF]) (enumerate i xs))"
  using assms
proof (induction xs arbitrary: i f)
  case Nil
  show ?case by (simp add: outcomeAndFile_def)
next
  case (Cons x xs)
  from Cons.prems have i: "i < 2 ^ 63" and n: "Suc i + length xs \<le> 2 ^ 63" by simp_all
  obtain e f' where w: "fw f (smsRowText r i x @ [LF]) = (e, f')"
    by (cases "fw f (smsRowText r i x @ [LF])")
  show ?case
  proof (cases e)
    case None
    with w Cons.IH [OF n, of f'] show ?thesis
      by (simp add: SMSOutput_Write_row [OF i] del: of_nat_Suc)
  next
    case (Some err)
    with w show ?thesis
      by (simp add: SMSOutput_Write_row [OF i] outcomeAndFile_def del: of_nat_Suc)
  qed
qed

lemma GenerateSMSOutput_feed:
  assumes "length xs \<le> 2 ^ 63"
  shows "GenerateSMSOutput fw r \<lparr>Messages_SMS = xs, Messages_MMS = ys\<rparr> f
     = feed fw f ((headerRow @ [LF])
                  # map (\<lambda>(i, sms). smsRowText r i sms @ [LF]) (enumerate 0 xs))"
proof -
  have l: "0 + length xs \<le> 2 ^ 63" using assms by simp
  have hd: "Join headers [TAB] @ [LF] = headerRow @ [LF]"
    by (simp add: headers_def)
  obtain e f' where w: "fw f (headerRow @ [LF]) = (e, f')" by (cases "fw f (headerRow @ [LF])")
  show ?thesis
  proof (cases e)
    case None
    with w have n: "NewSMSOutput fw f = (Inr \<lparr>SMSOutput_idx = of_nat 0\<rparr>, f')"
      unfolding NewSMSOutput_def Fprintln_def hd by simp
    from writeSMSs_feed [OF l, of fw r f'] w None show ?thesis
      unfolding GenerateSMSOutput_def n
      by (auto simp: outcomeAndFile_def split: prod.splits)
  next
    case (Some err)
    with w have n: "NewSMSOutput fw f = (Inl err, f')"
      unfolding NewSMSOutput_def Fprintln_def hd by simp
    from w Some show ?thesis
      unfolding GenerateSMSOutput_def n by simp
  qed
qed

lemma ten: "d < 10 \<Longrightarrow> d = 0 \<or> d = 1 \<or> d = 2 \<or> d = 3 \<or> d = 4 \<or> d = 5 \<or> d = 6 \<or> d = 7
      \<or> d = 8 \<or> (d::nat) = 9" by arith

lemma digitChar_props:
  assumes "d < 10"
  shows "digitChar d \<in> set ''0123456789''" and "digitValue (digitChar d) = d"
    and "digitChar d = CHR ''0'' \<longleftrightarrow> d = 0"
  using ten [OF assms]
  by (auto simp: digitChar_def digitValue_def)

lemma decimal_digits: "set (decimal n) \<subseteq> set ''0123456789''"
proof (induction n rule: decimal.induct)
  case (1 n)
  show ?case
  proof (cases "n < 10")
    case True
    with digitChar_props(1) [of n] show ?thesis by (simp add: decimal.simps [of n])
  next
    case False
    have "n mod 10 < 10" by simp
    from digitChar_props(1) [OF this] 1 [OF False] False show ?thesis
      by (simp add: decimal.simps [of n])
  qed
qed

lemma decimalValue_snoc: "decimalValue (s @ [c]) = 10 * decimalValue s + digitValue c"
  by (simp add: decimalValue_def)

lemma decimalValue_single: "decimalValue [c] = digitValue c"
  by (simp add: decimalValue_def)

lemma decimal_value: "decimalValue (decimal n) = n"
proof (induction n rule: decimal.induct)
  case (1 n)
  show ?case
  proof (cases "n < 10")
    case True
    then have "decimal n = [digitChar n]" by (simp add: decimal.simps [of n])
    with digitChar_props(2) [OF True] show ?thesis by (simp add: decimalValue_single)
  next
    case False
    then have d: "decimal n = decimal (n div 10) @ [digitChar (n mod 10)]"
      by (simp add: decimal.simps [of n])
    have "n mod 10 < 10" by simp
    from digitChar_props(2) [OF this] 1 [OF False] show ?thesis
      unfolding d decimalValue_snoc by simp
  qed
qed

lemma decimal_nonempty: "decimal n \<noteq> []"
  by (simp add: decimal.simps [of n])

lemma decimal_no_leading_zero: "0 < n \<Longrightarrow> hd (decimal n) \<noteq> CHR ''0''"
proof (induction n rule: decimal.induct)
  case (1 n)
  show ?case
  proof (cases "n < 10")
    case True
    then have d: "decimal n = [digitChar n]" by (simp add: decimal.simps [of n])
    from digitChar_props(3) [OF True] 1(2) show ?thesis unfolding d by simp
  next
    case False
    then have d: "decimal n = decimal (n div 10) @ [digitChar (n mod 10)]"
      by (simp add: decimal.simps [of n])
    from False have "0 < n div 10" by simp
    from 1(1) [OF False this] show ?thesis
      unfolding d by (simp add: decimal_nonempty)
  qed
qed

lemma Split_field: "sep \<notin> set x \<Longrightarrow> Split (x @ sep # rest) sep = x # Split rest sep"
proof (induction x)
  case Nil
  show ?case by simp
next
  case (Cons a x)
  then have "a \<noteq> sep" and "Split (x @ sep # rest) sep = x # Split rest sep" by auto
  then show ?case by simp
qed

lemma Split_last: "sep \<notin> set x \<Longrightarrow> Split x sep = [x]"
proof (induction x)
  case Nil
  show ?case by simp
next
  case (Cons a x)
  then have "a \<noteq> sep" and "Split x sep = [x]" by auto
  then show ?case by simp
qed

lemma Itoa_nat_chars: "set (Itoa (int i)) \<subseteq> set ''0123456789''"
  using decimal_digits [of i] by (simp add: Itoa_def)

lemma Itoa_0: "Itoa 0 = ''0''"
  by (simp add: Itoa_def decimal.simps [of 0] digitChar_def)

lemma Itoa_1: "Itoa 1 = ''1''"
  by (simp add: Itoa_def decimal.simps [of "Suc 0"] digitChar_def)

lemma Itoa_nat_no_sep: "TAB \<notin> set (Itoa (int i))" "LF \<notin> set (Itoa (int i))"
  using Itoa_nat_chars [of i] by auto

lemma smsRowText_fields:
  assumes "\<forall>v \<in> set (smsValues r sms). TAB \<notin> set v \<and> LF \<notin> set v"
  shows "Split (smsRowText r i sms) TAB = Itoa (int i) # smsValues r sms"
    and "LF \<notin> set (smsRowText r i sms)"
  using assms Itoa_nat_no_sep [of i]
  by (simp_all add: smsValues_def Split_field Split_last)

text \<open>
  C7, as amended.  For every writer and every list of at most \<open>2^63\<close> SMS records, the
  sink hands the writer the header line once, at construction, and then one line per
  record, stopping at the first error of the writer.  The line of the \<open>i\<close>-th record
  (from 0) is, byte for byte, the decimal rendering of \<open>i\<close>, then protocol, address,
  type, subject, body, service_center, status, read, date, locked, date_sent,
  readable_date and contact_name, in this order, each followed by a tab and the last by
  a line feed (typed fields rendered by their \<open>String()\<close> methods, the body by
  \<open>CleanupMessageBody\<close>, the contact name by \<open>RemoveCommasBeforeSuffixes\<close>).  The
  first field consists of decimal digits without a leading zero and denotes \<open>i\<close>.
  When none of the thirteen values holds a tab or a line feed, the line is one row
  that splits at its tabs into exactly these fourteen fields.
\<close>
theorem SMSOutput_rows:
  assumes "length xs \<le> 2 ^ 63"
  shows "GenerateSMSOutput fw r \<lparr>Messages_SMS = xs, Messages_MMS = ys\<rparr> f
       = feed fw f
           ((''SMS Index #'' @ TAB # ''Protocol'' @ TAB # ''Address'' @ TAB # ''Type'' @ TAB #
             ''Subject'' @ TAB # ''Body'' @ TAB # ''Service Center'' @ TAB # ''Status'' @ TAB #
             ''Read'' @ TAB # ''Date'' @ TAB # ''Locked'' @ TAB # ''Date Sent'' @ TAB #
             ''Readable Date'' @ TAB # ''Contact Name'' @ [LF])
            # map (\<lambda>(i, sms).
                Itoa (int i) @ TAB #
                SMS_Protocol sms @ TAB #
                Address_String r (SMS_Address sms) @ TAB #
                Type_String r (SMS_Type sms) @ TAB #
                SMS_Subject sms @ TAB #
                CleanupMessageBody r (SMS_Body sms) @ TAB #
                ServiceCenter_String r (SMS_ServiceCenter sms) @ TAB #
                Status_String r (SMS_Status sms) @ TAB #
                Read_String r (SMS_Read sms) @ TAB #
                Date_String r (SMS_Date sms) @ TAB #
                Locked_String r (SMS_Locked sms) @ TAB #
                DateSent_String r (SMS_DateSent sms) @ TAB #
                SMS_ReadableDate sms @ TAB #
                RemoveCommasBeforeSuffixes r (SMS_ContactName sms) @ [LF])
              (enumerate 0 xs))
     \<and> (\<forall>i. set (Itoa (int i)) \<subseteq> set ''0123456789'' \<and> decimalValue (Itoa (int i)) = i
            \<and> (Itoa (int i) = ''0'' \<or> hd (Itoa (int i)) \<noteq> CHR ''0''))
     \<and> (\<forall>i sms. (\<forall>v \<in> set (smsValues r sms). TAB \<notin> set v \<and> LF \<notin> set v) \<longrightarrow>
            Split (smsRowText r i sms) TAB = Itoa (int i) # smsValues r sms
            \<and> LF \<notin> set (smsRowText r i sms))"
proof -
  have one: "GenerateSMSOutput fw r \<lparr>Messages_SMS = xs, Messages_MMS = ys\<rparr> f
       = feed fw f
           ((''SMS Index #'' @ TAB # ''Protocol'' @ TAB # ''Address'' @ TAB # ''Type'' @ TAB #
             ''Subject'' @ TAB # ''Body'' @ TAB # ''Service Center'' @ TAB # ''Status'' @ TAB #
             ''Read'' @ TAB # ''Date'' @ TAB # ''Locked'' @ TAB # ''Date Sent'' @ TAB #
             ''Readable Date'' @ TAB # ''Contact Name'' @ [LF])
            # map (\<lambda>(i, sms).
                Itoa (int i) @ TAB #
                SMS_Protocol sms @ TAB #
                Address_String r (SMS_Address sms) @ TAB #
                Type_String r (SMS_Type sms) @ TAB #
                SMS_Subject sms @ TAB #
                CleanupMessageBody r (SMS_Body sms) @ TAB #
                ServiceCenter_String r (SMS_ServiceCenter sms) @ TAB #
                Status_String r (SMS_Status sms) @ TAB #
                Read_String r (SMS_Read sms) @ TAB #
                Date_String r (SMS_Date sms) @ TAB #
                Locked_String r (SMS_Locked sms) @ TAB #
                DateSent_String r (SMS_DateSent sms) @ TAB #
                SMS_ReadableDate sms @ TAB #
                RemoveCommasBeforeSuffixes r (SMS_ContactName sms) @ [LF])
              (enumerate 0 xs))"
    unfolding GenerateSMSOutput_feed [OF assms] by simp
  have two: "\<forall>i. set (Itoa (int i)) \<subseteq> set ''0123456789'' \<and> decimalValue (Itoa (int i)) = i
            \<and> (Itoa (int i) = ''0'' \<or> hd (Itoa (int i)) \<noteq> CHR ''0'')"
  proof
    fix i
    show "set (Itoa (int i)) \<subseteq> set ''0123456789'' \<and> decimalValue (Itoa (int i)) = i
            \<and> (Itoa (int i) = ''0'' \<or> hd (Itoa (int i)) \<noteq> CHR ''0'')"
    proof (cases "i = 0")
      case True
      with Itoa_nat_chars [of i] decimal_value [of i] show ?thesis
        by (simp add: Itoa_def Itoa_0 [unfolded Itoa_def, simplified])
    next
      case False
      with Itoa_nat_chars [of i] decimal_value [of i] decimal_no_leading_zero [of i]
      show ?thesis by (simp add: Itoa_def)
    qed
  qed
  have three: "\<forall>i sms. (\<forall>v \<in> set (smsValues r sms). TAB \<notin> set v \<and> LF \<notin> set v) \<longrightarrow>
            Split (smsRowText r i sms) TAB = Itoa (int i) # smsValues r sms
            \<and> LF \<notin> set (smsRowText r i sms)"
    using smsRowText_fields by blast
  show ?thesis
    by (rule conjI [OF one conjI [OF two three]])
qed

theorem SMSOutput_rows_witness:
  "GenerateSMSOutput appendLine plainRendering
      \<lparr>Messages_SMS = [mkSMS ''111'' ''Ann'', mkSMS ''222'' ''Bob''], Messages_MMS = []\<rparr> []
   = (None,
      [''SMS Index #'' @ TAB # ''Protocol'' @ TAB # ''Address'' @ TAB # ''Type'' @ TAB #
       ''Subject'' @ TAB # ''Body'' @ TAB # ''Service Center'' @ TAB # ''Status'' @ TAB #
       ''Read'' @ TAB # ''Date'' @ TAB # ''Locked'' @ TAB # ''Date Sent'' @ TAB #
       ''Readable Date'' @ TAB # ''Contact Name'' @ [LF],
       ''0'' @ TAB # ''0'' @ TAB # ''111'' @ TAB # ''1'' @ TAB # ''null'' @ TAB # ''hi'' @ TAB #
       ''null'' @ TAB # ''-1'' @ TAB # ''1'' @ TAB # ''1518530142000'' @ TAB # ''0'' @ TAB #
       ''0'' @ TAB # ''Feb 13, 2018'' @ TAB # ''Ann'' @ [LF],
       ''1'' @ TAB # ''0'' @ TAB # ''222'' @ TAB # ''1'' @ TAB # ''null'' @ TAB # ''hi'' @ TAB #
       ''null'' @ TAB # ''-1'' @ TAB # ''1'' @ TAB # ''1518530142000'' @ TAB # ''0'' @ TAB #
       ''0'' @ TAB # ''Feb 13, 2018'' @ TAB # ''Bob'' @ [LF]])
   \<and> Split (''1'' @ TAB # ''0'' @ TAB # ''222'' @ TAB # ''1'' @ TAB # ''null'' @ TAB #
             ''hi'' @ TAB # ''null'' @ TAB # ''-1'' @ TAB # ''1'' @ TAB #
             ''1518530142000'' @ TAB # ''0'' @ TAB # ''0'' @ TAB # ''Feb 13, 2018'' @ TAB #
             ''Bob'') TAB
     = [''1'', ''0'', ''222'', ''1'', ''null'', ''hi'', ''null'', ''-1'', ''1'',
        ''1518530142000'', ''0'', ''0'', ''Feb 13, 2018'', ''Bob'']
   \<and> decimalValue ''1'' = 1"
proof -
  have h: "length [mkSMS ''111'' ''Ann'', mkSMS ''222'' ''Bob''] \<le> 2 ^ 63" by simp
  have e: "enumerate 0 [mkSMS ''111'' ''Ann'', mkSMS ''222'' ''Bob'']
      = [(0, mkSMS ''111'' ''Ann''), (1, mkSMS ''222'' ''Bob'')]"
    by (simp add: enumerate_eq_zip upt_rec)
  note t = SMSOutput_rows [where fw = appendLine and r = plainRendering and f = "[]"
      and ys = "[]", OF h]
  have one: "GenerateSMSOutput appendLine plainRendering
      \<lparr>Messages_SMS = [mkSMS ''111'' ''Ann'', mkSMS ''222'' ''Bob''], Messages_MMS = []\<rparr> []
   = (None,
      [''SMS Index #'' @ TAB # ''Protocol'' @ TAB # ''Address'' @ TAB # ''Type'' @ TAB #
       ''Subject'' @ TAB # ''Body'' @ TAB # ''Service Center'' @ TAB # ''Status'' @ TAB #
       ''Read'' @ TAB # ''Date'' @ TAB # ''Locked'' @ TAB # ''Date Sent'' @ TAB #
       ''Readable Date'' @ TAB # ''Contact Name'' @ [LF],
       ''0'' @ TAB # ''0'' @ TAB # ''111'' @ TAB # ''1'' @ TAB # ''null'' @ TAB # ''hi'' @ TAB #
       ''null'' @ TAB # ''-1'' @ TAB # ''1'' @ TAB # ''1518530142000'' @ TAB # ''0'' @ TAB #
       ''0'' @ TAB # ''Feb 13, 2018'' @ TAB # ''Ann'' @ [LF],
       ''1'' @ TAB # ''0'' @ TAB # ''222'' @ TAB # ''1'' @ TAB # ''null'' @ TAB # ''hi'' @ TAB #
       ''null'' @ TAB # ''-1'' @ TAB # ''1'' @ TAB # ''1518530142000'' @ TAB # ''0'' @ TAB #
       ''0'' @ TAB # ''Feb 13, 2018'' @ TAB # ''Bob'' @ [LF]])"
    unfolding t [THEN conjunct1] e
    by (simp add: appendLine_def plainRendering_def mkSMS_def Itoa_0 Itoa_1)
  have v: "\<forall>v \<in> set (smsValues plainRendering (mkSMS ''222'' ''Bob'')).
      TAB \<notin> set v \<and> LF \<notin> set v"
    by (simp add: smsValues_def plainRendering_def mkSMS_def)
  from t [THEN conjunct2, THEN conjunct2, THEN spec [where x = "1::nat"],
      THEN spec [where x = "mkSMS ''222'' ''Bob''"], THEN mp, OF v]
  have two: "Split (''1'' @ TAB # ''0'' @ TAB # ''222'' @ TAB # ''1'' @ TAB # ''null'' @ TAB #
             ''hi'' @ TAB # ''null'' @ TAB # ''-1'' @ TAB # ''1'' @ TAB #
             ''1518530142000'' @ TAB # ''0'' @ TAB # ''0'' @ TAB # ''Feb 13, 2018'' @ TAB #
             ''Bob'') TAB
     = [''1'', ''0'', ''222'', ''1'', ''null'', ''hi'', ''null'', ''-1'', ''1'',
        ''1518530142000'', ''0'', ''0'', ''Feb 13, 2018'', ''Bob'']"
    by (simp add: smsValues_def plainRendering_def mkSMS_def Itoa_1)
  from t [THEN conjunct2, THEN conjunct1, THEN spec [where x = "1::nat"]]
  have three: "decimalValue ''1'' = 1"
    by (simp add: Itoa_1)
  show ?thesis
    by (rule conjI [OF one conjI [OF two three]])
qed

text \<open>
  C7, as stated, fails for a value that holds a tab: nothing escapes it.  One record
  whose subject is \<open>a\<close>, a tab, \<open>b\<close>: the line written splits at its tabs into fifteen
  fields, not fourteen; the fifth is \<open>a\<close>, not the subject, and the sixth is \<open>b\<close>
  where the body \<open>hi\<close> is expected, every later value being shifted by one column.
\<close>
theorem SMSOutput_tab_in_subject:
  "GenerateSMSOutput appendLine plainRendering
      \<lparr>Messages_SMS = [(mkSMS ''111'' ''Ann'')\<lparr>SMS_Subject := ''a'' @ TAB # ''b''\<rparr>],
       Messages_MMS = []\<rparr> []
   = (None,
      [''SMS Index #'' @ TAB # ''Protocol'' @ TAB # ''Address'' @ TAB # ''Type'' @ TAB #
       ''Subject'' @ TAB # ''Body'' @ TAB # ''Service Center'' @ TAB # ''Status'' @ TAB #
       ''Read'' @ TAB # ''Date'' @ TAB # ''Locked'' @ TAB # ''Date Sent'' @ TAB #
       ''Readable Date'' @ TAB # ''Contact Name'' @ [LF],
       ''0'' @ TAB # ''0'' @ TAB # ''111'' @ TAB # ''1'' @ TAB # ''a'' @ TAB # ''b'' @ TAB #
       ''hi'' @ TAB # ''null'' @ TAB # ''-1'' @ TAB # ''1'' @ TAB # ''1518530142000'' @ TAB #
       ''0'' @ TAB # ''0'' @ TAB # ''Feb 13, 2018'' @ TAB # ''Ann'' @ [LF]])
   \<and> Split (''0'' @ TAB # ''0'' @ TAB # ''111'' @ TAB # ''1'' @ TAB # ''a'' @ TAB # ''b'' @ TAB #
       ''hi'' @ TAB # ''null'' @ TAB # ''-1'' @ TAB # ''1'' @ TAB # ''1518530142000'' @ TAB #
       ''0'' @ TAB # ''0'' @ TAB # ''Feb 13, 2018'' @ TAB # ''Ann'') TAB
     = [''0'', ''0'', ''111'', ''1'', ''a'', ''b'', ''hi'', ''null'', ''-1'', ''1'',
        ''1518530142000'', ''0'', ''0'', ''Feb 13, 2018'', ''Ann'']
   \<and> length [''0'', ''0'', ''111'', ''1'', ''a'', ''b'', ''hi'', ''null'', ''-1'', ''1'',
        ''1518530142000'', ''0'', ''0'', ''Feb 13, 2018'', ''Ann''] = 15
   \<and> SMS_Subject ((mkSMS ''111'' ''Ann'')\<lparr>SMS_Subject := ''a'' @ TAB # ''b''\<rparr>) \<noteq> ''a''
   \<and> CleanupMessageBody plainRendering
        (SMS_Body ((mkSMS ''111'' ''Ann'')\<lparr>SMS_Subject := ''a'' @ TAB # ''b''\<rparr>)) = ''hi''"
proof -
  have s: "sint (0 :: 64 word) = 0" by simp
  have one: "GenerateSMSOutput appendLine plainRendering
      \<lparr>Messages_SMS = [(mkSMS ''111'' ''Ann'')\<lparr>SMS_Subject := ''a'' @ TAB # ''b''\<rparr>],
       Messages_MMS = []\<rparr> []
   = (None,
      [''SMS Index #'' @ TAB # ''Protocol'' @ TAB # ''Address'' @ TAB # ''Type'' @ TAB #
       ''Subject'' @ TAB # ''Body'' @ TAB # ''Service Center'' @ TAB # ''Status'' @ TAB #
       ''Read'' @ TAB # ''Date'' @ TAB # ''Locked'' @ TAB # ''Date Sent'' @ TAB #
       ''Readable Date'' @ TAB # ''Contact Name'' @ [LF],
       ''0'' @ TAB # ''0'' @ TAB # ''111'' @ TAB # ''1'' @ TAB # ''a'' @ TAB # ''b'' @ TAB #
       ''hi'' @ TAB # ''null'' @ TAB # ''-1'' @ TAB # ''1'' @ TAB # ''1518530142000'' @ TAB #
       ''0'' @ TAB # ''0'' @ TAB # ''Feb 13, 2018'' @ TAB # ''Ann'' @ [LF]])"
    by (simp add: GenerateSMSOutput_def NewSMSOutput_def SMSOutput_Write_def Fprintln_def
          appendLine_def headers_def plainRendering_def mkSMS_def Let_def s Itoa_0)
  have two: "Split (''0'' @ TAB # ''0'' @ TAB # ''111'' @ TAB # ''1'' @ TAB # ''a'' @ TAB # ''b'' @ TAB #
       ''hi'' @ TAB # ''null'' @ TAB # ''-1'' @ TAB # ''1'' @ TAB # ''1518530142000'' @ TAB #
       ''0'' @ TAB # ''0'' @ TAB # ''Feb 13, 2018'' @ TAB # ''Ann'') TAB
     = [''0'', ''0'', ''111'', ''1'', ''a'', ''b'', ''hi'', ''null'', ''-1'', ''1'',
        ''1518530142000'', ''0'', ''0'', ''Feb 13, 2018'', ''Ann'']"
    by (simp add: Split_field Split_last)
  have three: "SMS_Subject ((mkSMS ''111'' ''Ann'')\<lparr>SMS_Subject := ''a'' @ TAB # ''b''\<rparr>) \<noteq> ''a''"
      "CleanupMessageBody plainRendering
        (SMS_Body ((mkSMS ''111'' ''Ann'')\<lparr>SMS_Subject := ''a'' @ TAB # ''b''\<rparr>)) = ''hi''"
    by (simp_all add: plainRendering_def mkSMS_def)
  from one two three show ?thesis by simp
qed

subsection \<open>Relational sink\<close>

lemma Exec_open: "txo \<noteq> None \<Longrightarrow> snd (Exec env txo ins) \<noteq> None"
  by (cases txo) (simp_all add: Exec_def split: option.splits)

lemma onSms_pendingOn:
  assumes "onSms env r s sms = (e, s')" and "pendingOn store s"
  shows "pendingOn store s'"
proof -
  let ?res = "Exec env (StreamingOutput_tx s) (\<lambda>tx. tx\<lparr>Tx_sms := Tx_sms tx @ [smsRow r sms]\<rparr>)"
  from assms(1) have s': "s' = s\<lparr>smsCount := smsCount s + 1, StreamingOutput_tx := snd ?res\<rparr>"
    by (simp add: onSms_def Let_def)
  from assms(2) have "StreamingOutput_tx s \<noteq> None" by (simp add: pendingOn_def)
  from Exec_open [OF this] have "snd ?res \<noteq> None" .
  with assms(2) show ?thesis by (simp add: s' pendingOn_def)
qed

lemma insertParts_open:
  "txo \<noteq> None \<Longrightarrow> snd (insertParts env mmsID parts txo) \<noteq> None"
proof (induction parts arbitrary: txo)
  case Nil
  then show ?case by simp
next
  case (Cons part parts)
  show ?case
  proof (cases "if Part_Base64Data part \<noteq> []
            then map_sum (\<lambda>err. err) Some (DecodeString env (Part_Base64Data part))
            else Inr None")
    case (Inl err)
    with Cons.prems show ?thesis by simp
  next
    case (Inr rawData)
    let ?ex = "Exec env txo
                  (\<lambda>tx. tx\<lparr>Tx_mms_parts := Tx_mms_parts tx @
                      [\<lparr>PartRow_mms_id = mmsID,
                        PartRow_content_type = strOrNil (Part_ContentType part),
                        PartRow_name = strOrNil (Part_Name part),
                        PartRow_file_name = strOrNil (Part_FileName part),
                        PartRow_content_display = strOrNil (Part_ContentDisplay part),
                        PartRow_text = strOrNil (Part_Text part),
                        PartRow_raw_data = rawData\<rparr>]\<rparr>)"
    obtain e txo' where ex: "?ex = (e, txo')" by (cases ?ex)
    have "snd ?ex \<noteq> None" by (rule Exec_open [OF Cons.prems])
    with ex have o: "txo' \<noteq> None" by simp
    show ?thesis
    proof (cases e)
      case None
      with Inr ex Cons.IH [OF o] show ?thesis by simp
    next
      case (Some err)
      with Inr ex o show ?thesis by simp
    qed
  qed
qed

lemma onMMS_pendingOn:
  assumes "onMMS env mr s mms = (e, s')" and "pendingOn store s"
  shows "pendingOn store s'"
proof -
  let ?res = "Exec env (StreamingOutput_tx s) (\<lambda>tx. tx\<lparr>Tx_mms := Tx_mms tx @ [mmsRow mr mms]\<rparr>)"
  from assms(2) have "StreamingOutput_tx s \<noteq> None" by (simp add: pendingOn_def)
  from Exec_open [OF this] have o: "snd ?res \<noteq> None" .
  show ?thesis
  proof (cases "fst ?res")
    case (Some err)
    with assms(1) have "s' = s\<lparr>mmsCount := mmsCount s + 1, StreamingOutput_tx := snd ?res\<rparr>"
      by (simp add: onMMS_def Let_def)
    with assms(2) o show ?thesis by (simp add: pendingOn_def)
  next
    case None
    with assms(1) obtain mmsID where
      "s' = s\<lparr>mmsCount := mmsCount s + 1,
              StreamingOutput_tx := snd (insertParts env mmsID (MMS_Parts mms) (snd ?res))\<rparr>"
      by (auto simp: onMMS_def Let_def)
    with assms(2) insertParts_open [OF o] show ?thesis by (simp add: pendingOn_def)
  qed
qed

lemma Decode_pendingOn:
  assumes "StreamingOutput_MessageDecoder env r mr f = Inr d" and "pendingOn store out"
  shows "pendingOn store (snd (snd (Decode uS uM d out)))"
proof -
  from assms(1) obtain d0 where d: "d = d0\<lparr>OnSMS := Some (\<lambda>sms s. onSms env r s sms),
                       OnMMS := Some (\<lambda>mms s. onMMS env mr s mms)\<rparr>"
    by (auto simp: StreamingOutput_MessageDecoder_def split: sum.splits)
  have h: "OnSMS d = Some (\<lambda>sms s. onSms env r s sms)"
      "OnMMS d = Some (\<lambda>mms s. onMMS env mr s mms)"
    by (simp_all add: d)
  have "pendingOn store (snd (snd (Decode_loop uS uM d out)))"
  proof (rule Decode_loop_preserves [where P = "pendingOn store"])
    fix h' v s e s'
    assume "OnSMS d = Some h'" "h' v s = (e, s')" "pendingOn store s"
    then show "pendingOn store s'"
      using onSms_pendingOn [of env r s v e s' store] by (auto simp: h)
  next
    fix h' v s e s'
    assume "OnMMS d = Some h'" "h' v s = (e, s')" "pendingOn store s"
    then show "pendingOn store s'"
      using onMMS_pendingOn [of env mr s v e s' store] by (auto simp: h)
  qed (rule assms(2))
  then show ?thesis by (simp add: Decode_def h)
qed

lemma handleFile_pendingOn:
  assumes "pendingOn store out"
  shows "pendingOn store (snd (handleFile env r mr uS uM file out))"
proof (cases "\<not> (prefix ''calls'' (Base (File_path file)) \<or> prefix ''sms'' (Base (File_path file)))
            \<or> (Ext (Base (File_path file)) \<noteq> ''.xml'' \<and> Ext (Base (File_path file)) \<noteq> ''.zip'')")
  case True
  with assms show ?thesis by (simp add: handleFile_def Let_def)
next
  case name_ok: False
  show ?thesis
  proof (cases "File_open file")
    case (Inl err)
    with name_ok assms show ?thesis by (simp add: handleFile_def Let_def)
  next
    case (Inr f)
    show ?thesis
    proof (cases "prefix ''sms'' (Base (File_path file))")
      case False
      with name_ok Inr assms show ?thesis by (simp add: handleFile_def Let_def)
    next
      case True
      show ?thesis
      proof (cases "StreamingOutput_MessageDecoder env r mr f")
        case (Inl err)
        with name_ok Inr True assms show ?thesis by (simp add: handleFile_def Let_def)
      next
        case d: (Inr d)
        obtain oc d' out' where dc: "Decode uS uM d out = (oc, d', out')"
          by (cases "Decode uS uM d out")
        from Decode_pendingOn [OF d assms, of uS uM] dc have "pendingOn store out'" by simp
        with name_ok Inr True d dc show ?thesis
          by (auto simp: handleFile_def Let_def split: outcome.splits option.splits)
      qed
    qed
  qed
qed

lemma handleFiles_pendingOn:
  "pendingOn store out \<Longrightarrow>
   pendingOn store (fst (snd (handleFiles env r mr uS uM files out printed)))"
proof (induction files arbitrary: out printed)
  case Nil
  then show ?case by simp
next
  case (Cons fl files)
  obtain oc out' where hf: "handleFile env r mr uS uM fl out = (oc, out')"
    by (cases "handleFile env r mr uS uM fl out")
  from handleFile_pendingOn [OF Cons.prems, of env r mr uS uM fl] hf
  have p: "pendingOn store out'" by simp
  show ?case
    using Cons.prems hf p Cons.IH [OF p]
    by (simp split: stat.splits outcome.splits option.splits)
qed

lemma handleFiles_not_Completed:
  "\<exists>f \<in> set files. File_stat f \<noteq> Regular \<Longrightarrow>
   fst (handleFiles env r mr uS uM files out printed) \<noteq> Completed"
proof (induction files arbitrary: out printed)
  case Nil
  then show ?case by simp
next
  case (Cons fl files)
  show ?case
  proof (cases "File_stat fl")
    case Regular
    with Cons.prems have "\<exists>f \<in> set files. File_stat f \<noteq> Regular" by auto
    from Cons.IH [OF this] Regular show ?thesis
      by (simp split: prod.splits outcome.splits option.splits)
  qed simp_all
qed

lemma NewStreamingOutput_pendingOn:
  "NewStreamingOutput env store = Inr s0 \<Longrightarrow> pendingOn store s0"
  by (auto simp: NewStreamingOutput_def pendingOn_def split: option.splits)

lemma Commit_failed:
  "commit_error env \<noteq> None \<Longrightarrow> StreamingOutput_db (snd (Commit env out)) = StreamingOutput_db out"
  by (auto simp: Commit_def split: option.splits)

lemma handleFile_truncatedBackup:
  "handleFile goodSqlite plainRendering plainMMSRendering sampleUnmarshalSMS sampleUnmarshalMMS
     truncatedBackup
     \<lparr>StreamingOutput_db = emptyStore, StreamingOutput_tx = Some emptyTx,
      smsCount = 0, mmsCount = 0, callCount = 0\<rparr>
   = (Return (Some (Wrap ''unable to decode sms element''
                     (Err ''XML syntax error: unexpected EOF''))),
      \<lparr>StreamingOutput_db = emptyStore,
       StreamingOutput_tx = Some \<lparr>Tx_sms = [smsRow plainRendering (mkSMS ''111'' ''Ann'')],
                                  Tx_mms = [], Tx_mms_parts = [], Tx_stmts = Suc 0\<rparr>,
       smsCount = 1, mmsCount = 0, callCount = 0\<rparr>)"
proof -
  have b: "Base ''backups/sms-1.xml'' = ''sms-1.xml''" by (simp add: Base_def)
  have e: "Ext ''sms-1.xml'' = ''.xml''" by (simp add: Ext_def)
  show ?thesis
    by (simp add: handleFile_def truncatedBackup_def b e StreamingOutput_MessageDecoder_def
        NewMessageDecoder_def findElem_hit Decode_def Decode_loop.simps DecodeElement_def
        sampleUnmarshalSMS_def attrOr_def onSms_def Exec_def goodSqlite_def emptyTx_def Let_def)
qed

lemma handleFile_completeBackup:
  "handleFile goodSqlite plainRendering plainMMSRendering sampleUnmarshalSMS sampleUnmarshalMMS
     completeBackup
     \<lparr>StreamingOutput_db = emptyStore, StreamingOutput_tx = Some emptyTx,
      smsCount = 0, mmsCount = 0, callCount = 0\<rparr>
   = (Return None,
      \<lparr>StreamingOutput_db = emptyStore,
       StreamingOutput_tx = Some \<lparr>Tx_sms = [smsRow plainRendering (mkSMS ''111'' ''Ann'')],
                                  Tx_mms = [], Tx_mms_parts = [], Tx_stmts = Suc 0\<rparr>,
       smsCount = 1, mmsCount = 0, callCount = 0\<rparr>)"
proof -
  have b: "Base ''sms-2.xml'' = ''sms-2.xml''" by (simp add: Base_def)
  have e: "Ext ''sms-2.xml'' = ''.xml''" by (simp add: Ext_def)
  show ?thesis
    by (simp add: handleFile_def completeBackup_def b e StreamingOutput_MessageDecoder_def
        NewMessageDecoder_def findElem_hit findElem_other findElem_nil
        Decode_def Decode_loop.simps DecodeElement_def
        sampleUnmarshalSMS_def attrOr_def onSms_def Exec_def goodSqlite_def emptyTx_def Let_def)
qed

lemma handleFile_completeBackup_after:
  "handleFile goodSqlite plainRendering plainMMSRendering sampleUnmarshalSMS sampleUnmarshalMMS
     completeBackup
     \<lparr>StreamingOutput_db = emptyStore,
      StreamingOutput_tx = Some \<lparr>Tx_sms = [smsRow plainRendering (mkSMS ''111'' ''Ann'')],
                                 Tx_mms = [], Tx_mms_parts = [], Tx_stmts = Suc 0\<rparr>,
      smsCount = 1, mmsCount = 0, callCount = 0\<rparr>
   = (Return None,
      \<lparr>StreamingOutput_db = emptyStore,
       StreamingOutput_tx = Some \<lparr>Tx_sms = [smsRow plainRendering (mkSMS ''111'' ''Ann''),
                                             smsRow plainRendering (mkSMS ''111'' ''Ann'')],
                                  Tx_mms = [], Tx_mms_parts = [], Tx_stmts = Suc (Suc 0)\<rparr>,
       smsCount = 2, mmsCount = 0, callCount = 0\<rparr>)"
proof -
  have b: "Base ''sms-2.xml'' = ''sms-2.xml''" by (simp add: Base_def)
  have e: "Ext ''sms-2.xml'' = ''.xml''" by (simp add: Ext_def)
  show ?thesis
    by (simp add: handleFile_def completeBackup_def b e StreamingOutput_MessageDecoder_def
        NewMessageDecoder_def findElem_hit findElem_other findElem_nil
        Decode_def Decode_loop.simps DecodeElement_def
        sampleUnmarshalSMS_def attrOr_def onSms_def Exec_def goodSqlite_def Let_def)
qed

text \<open>
  C5.  The code at the failing inputs.  The backup \<open>sms-1.xml\<close> announces two messages
  and breaks off inside the second: \<open>Decode\<close> returns the error after the first
  record was inserted, \<open>handleFile\<close> returns it, \<open>main\<close> prints it, goes on with the
  loop and commits.  Run alone, the failed file leaves its first row in the store, not
  none; run before the complete backup \<open>sms-2.xml\<close>, its row is committed together
  with the row of that file.  The sink opens a transaction and \<open>main\<close> defers
  \<open>Close\<close>, which rolls back; the two other failures inside the loop (\<open>os.Stat\<close>
  fails, the path is a directory) return from \<open>main\<close> into that rollback, and this
  one does not.
\<close>
theorem main_commits_partial_file:
  "main goodSqlite plainRendering plainMMSRendering sampleUnmarshalSMS sampleUnmarshalMMS
     emptyStore [truncatedBackup]
   = (Return None,
      \<lparr>Store_sms = [smsRow plainRendering (mkSMS ''111'' ''Ann'')],
       Store_mms = [], Store_mms_parts = []\<rparr>,
      [ErrorHandlingFile (Wrap ''unable to decode sms element''
                            (Err ''XML syntax error: unexpected EOF''))])
   \<and> main goodSqlite plainRendering plainMMSRendering sampleUnmarshalSMS sampleUnmarshalMMS
     emptyStore [truncatedBackup, completeBackup]
   = (Return None,
      \<lparr>Store_sms = [smsRow plainRendering (mkSMS ''111'' ''Ann''),
                    smsRow plainRendering (mkSMS ''111'' ''Ann'')],
       Store_mms = [], Store_mms_parts = []\<rparr>,
      [ErrorHandlingFile (Wrap ''unable to decode sms element''
                            (Err ''XML syntax error: unexpected EOF''))])"
proof -
  let ?row = "smsRow plainRendering (mkSMS ''111'' ''Ann'')"
  have n: "NewStreamingOutput goodSqlite emptyStore
      = Inr \<lparr>StreamingOutput_db = emptyStore, StreamingOutput_tx = Some emptyTx,
             smsCount = 0, mmsCount = 0, callCount = 0\<rparr>"
    by (simp add: NewStreamingOutput_def goodSqlite_def)
  have s: "File_stat truncatedBackup = Regular" "File_stat completeBackup = Regular"
    by (simp_all add: truncatedBackup_def completeBackup_def)
  have c: "Commit goodSqlite
        \<lparr>StreamingOutput_db = emptyStore,
         StreamingOutput_tx = Some \<lparr>Tx_sms = [?row],
                                    Tx_mms = [], Tx_mms_parts = [], Tx_stmts = Suc 0\<rparr>,
         smsCount = 1, mmsCount = 0, callCount = 0\<rparr>
      = (None,
         \<lparr>StreamingOutput_db =
            \<lparr>Store_sms = [?row], Store_mms = [], Store_mms_parts = []\<rparr>,
          StreamingOutput_tx = None, smsCount = 1, mmsCount = 0, callCount = 0\<rparr>)"
    by (simp add: Commit_def appendTx_def emptyStore_def goodSqlite_def)
  have c2: "Commit goodSqlite
        \<lparr>StreamingOutput_db = emptyStore,
         StreamingOutput_tx = Some \<lparr>Tx_sms = [?row, ?row],
                                    Tx_mms = [], Tx_mms_parts = [], Tx_stmts = Suc (Suc 0)\<rparr>,
         smsCount = 2, mmsCount = 0, callCount = 0\<rparr>
      = (None,
         \<lparr>StreamingOutput_db =
            \<lparr>Store_sms = [?row, ?row], Store_mms = [], Store_mms_parts = []\<rparr>,
          StreamingOutput_tx = None, smsCount = 2, mmsCount = 0, callCount = 0\<rparr>)"
    by (simp add: Commit_def appendTx_def emptyStore_def goodSqlite_def)
  have one: "main goodSqlite plainRendering plainMMSRendering sampleUnmarshalSMS
      sampleUnmarshalMMS emptyStore [truncatedBackup]
   = (Return None,
      \<lparr>Store_sms = [?row], Store_mms = [], Store_mms_parts = []\<rparr>,
      [ErrorHandlingFile (Wrap ''unable to decode sms element''
                            (Err ''XML syntax error: unexpected EOF''))])"
    by (simp add: main_def n c Close_def s handleFile_truncatedBackup)
  have two: "main goodSqlite plainRendering plainMMSRendering sampleUnmarshalSMS
      sampleUnmarshalMMS emptyStore [truncatedBackup, completeBackup]
   = (Return None,
      \<lparr>Store_sms = [?row, ?row], Store_mms = [], Store_mms_parts = []\<rparr>,
      [ErrorHandlingFile (Wrap ''unable to decode sms element''
                            (Err ''XML syntax error: unexpected EOF''))])"
    by (simp add: main_def n c2 Close_def s handleFile_truncatedBackup
          handleFile_completeBackup_after)
  from one two show ?thesis by (rule conjI)
qed

text \<open>
  The transaction of the relational sink spans the whole run: it is opened at
  construction and committed once by \<open>main\<close>, after the loop over all paths.  When
  \<open>main\<close> ends before that commit (some path fails \<open>os.Stat\<close> or names a directory,
  or the database cannot be set up), or when the commit fails, the store is left in its
  prior state, whatever the handlers inserted before.  When every file was handled
  without error and the commit succeeds, the store is the prior store extended by the
  rows held in the transaction.
\<close>
theorem main_one_transaction_per_run:
  assumes "main env r mr uS uM store args = (oc, store', printed)"
  shows "((\<exists>f \<in> set args. File_stat f \<noteq> Regular) \<longrightarrow> store' = store)
       \<and> (setup_error env \<noteq> None \<longrightarrow> store' = store)
       \<and> (commit_error env \<noteq> None \<longrightarrow> store' = store)
       \<and> (\<forall>s0 out. NewStreamingOutput env store = Inr s0
             \<and> handleFiles env r mr uS uM args s0 [] = (Completed, out, [])
             \<and> commit_error env = None
           \<longrightarrow> (\<exists>tx. StreamingOutput_tx out = Some tx \<and> store' = appendTx store tx))"
proof (cases "args = []")
  case True
  with assms show ?thesis
    by (auto simp: main_def NewStreamingOutput_def appendTx_def emptyTx_def split: option.splits)
next
  case args: False
  show ?thesis
  proof (cases "NewStreamingOutput env store")
    case (Inl err)
    then have "setup_error env \<noteq> None"
      by (auto simp: NewStreamingOutput_def split: option.splits)
    with assms args Inl show ?thesis by (simp add: main_def)
  next
    case (Inr s0)
    then have se: "setup_error env = None"
      by (auto simp: NewStreamingOutput_def split: option.splits)
    note p0 = NewStreamingOutput_pendingOn [OF Inr]
    obtain le out ps where hf: "handleFiles env r mr uS uM args s0 [] = (le, out, ps)"
      by (cases "handleFiles env r mr uS uM args s0 []")
    from handleFiles_pendingOn [OF p0, of env r mr uS uM args "[]"] hf
    have po: "pendingOn store out" by simp
    then have db: "StreamingOutput_db out = store" by (simp add: pendingOn_def)
    show ?thesis
    proof (cases le)
      case Returned
      with assms args Inr hf db have "store' = store" by (simp add: main_def Close_def)
      with hf Returned Inr show ?thesis by simp
    next
      case (Panicked msg)
      with assms args Inr hf db have "store' = store" by (simp add: main_def Close_def)
      with hf Panicked Inr show ?thesis by simp
    next
      case Completed
      have nr: "\<not> (\<exists>f \<in> set args. File_stat f \<noteq> Regular)"
        using handleFiles_not_Completed [of args env r mr uS uM s0 "[]"] hf Completed by auto
      obtain ce out' where cm: "Commit env out = (ce, out')" by (cases "Commit env out")
      from assms args Inr hf Completed cm have s': "store' = StreamingOutput_db out'"
        by (simp add: main_def Close_def split: option.splits)
      have c1: "commit_error env \<noteq> None \<longrightarrow> store' = store"
        using Commit_failed [of env out] cm db s' by simp
      have c2: "commit_error env = None \<longrightarrow>
          (\<exists>tx. StreamingOutput_tx out = Some tx \<and> store' = appendTx store tx)"
        using po cm s' by (auto simp: Commit_def pendingOn_def split: option.splits)
      from nr se c1 c2 hf Completed show ?thesis by (simp add: Inr)
    qed
  qed
qed

text \<open>
  Two runs.  The broken backup followed by a path that names a directory: \<open>main\<close>
  returns from the loop, the deferred \<open>Close\<close> rolls back, and the store is as before.
  A complete backup of one message: its row is in the store after the commit.
\<close>
theorem main_one_transaction_per_run_witness:
  "main goodSqlite plainRendering plainMMSRendering sampleUnmarshalSMS sampleUnmarshalMMS
     emptyStore [truncatedBackup, directoryPath]
   = (Return None, emptyStore,
      [ErrorHandlingFile (Wrap ''unable to decode sms element''
                            (Err ''XML syntax error: unexpected EOF'')),
       PathIsDirectory])
   \<and> main goodSqlite plainRendering plainMMSRendering sampleUnmarshalSMS sampleUnmarshalMMS
     emptyStore [completeBackup]
   = (Return None,
      \<lparr>Store_sms = [smsRow plainRendering (mkSMS ''111'' ''Ann'')],
       Store_mms = [], Store_mms_parts = []\<rparr>, [])"
proof -
  let ?m = "main goodSqlite plainRendering plainMMSRendering sampleUnmarshalSMS
      sampleUnmarshalMMS emptyStore [truncatedBackup, directoryPath]"
  let ?m2 = "main goodSqlite plainRendering plainMMSRendering sampleUnmarshalSMS
      sampleUnmarshalMMS emptyStore [completeBackup]"
  let ?s0 = "\<lparr>StreamingOutput_db = emptyStore, StreamingOutput_tx = Some emptyTx,
             smsCount = 0, mmsCount = 0, callCount = 0\<rparr>"
  let ?tx = "\<lparr>Tx_sms = [smsRow plainRendering (mkSMS ''111'' ''Ann'')],
             Tx_mms = [], Tx_mms_parts = [], Tx_stmts = Suc 0\<rparr>"
  have n: "NewStreamingOutput goodSqlite emptyStore = Inr ?s0"
    by (simp add: NewStreamingOutput_def goodSqlite_def)
  have s: "File_stat truncatedBackup = Regular" "File_stat directoryPath = IsDir"
      "File_stat completeBackup = Regular"
    by (simp_all add: truncatedBackup_def directoryPath_def completeBackup_def)
  have p: "fst ?m = Return None"
      "snd (snd ?m) = [ErrorHandlingFile (Wrap ''unable to decode sms element''
                            (Err ''XML syntax error: unexpected EOF'')), PathIsDirectory]"
    unfolding main_def n
    by (simp_all add: s handleFile_truncatedBackup)
  obtain oc store' printed where m: "?m = (oc, store', printed)" by (cases ?m)
  have d: "\<exists>f \<in> set [truncatedBackup, directoryPath]. File_stat f \<noteq> Regular"
    by (simp add: s)
  from main_one_transaction_per_run [OF m] d have "store' = emptyStore" by blast
  with m p have one: "?m = (Return None, emptyStore,
      [ErrorHandlingFile (Wrap ''unable to decode sms element''
                            (Err ''XML syntax error: unexpected EOF'')), PathIsDirectory])"
    by simp
  have l: "handleFiles goodSqlite plainRendering plainMMSRendering sampleUnmarshalSMS
        sampleUnmarshalMMS [completeBackup] ?s0 []
      = (Completed, ?s0\<lparr>StreamingOutput_tx := Some ?tx, smsCount := 1\<rparr>, [])"
    by (simp add: s handleFile_completeBackup)
  have ce: "commit_error goodSqlite = None" by (simp add: goodSqlite_def)
  have p2: "fst ?m2 = Return None" "snd (snd ?m2) = []"
    unfolding main_def n
    by (simp_all add: s handleFile_completeBackup Commit_def ce)
  obtain oc2 store2 printed2 where m2: "?m2 = (oc2, store2, printed2)" by (cases ?m2)
  from main_one_transaction_per_run [OF m2, THEN conjunct2, THEN conjunct2, THEN conjunct2,
      rule_format, OF conjI [OF n conjI [OF l ce]]]
  have "store2 = appendTx emptyStore ?tx" by simp
  then have "store2 = \<lparr>Store_sms = [smsRow plainRendering (mkSMS ''111'' ''Ann'')],
       Store_mms = [], Store_mms_parts = []\<rparr>"
    by (simp add: appendTx_def emptyStore_def)
  with m2 p2 have two: "?m2 = (Return None,
      \<lparr>Store_sms = [smsRow plainRendering (mkSMS ''111'' ''Ann'')],
       Store_mms = [], Store_mms_parts = []\<rparr>, [])"
    by simp
  from one two show ?thesis by (rule conjI)
qed

text \<open>
  C10.  \<open>strOrNil\<close> yields \<open>nil\<close> (SQL NULL) exactly for the empty string and for the
  string \<open>null\<close>, and the string itself otherwise; the columns \<open>subject\<close> and
  \<open>service_center\<close> of the row that \<open>onSms\<close> inserts are bound through it.
\<close>
theorem strOrNil_null:
  "(strOrNil s = None \<longleftrightarrow> s = [] \<or> s = ''null'')
   \<and> (s \<noteq> [] \<and> s \<noteq> ''null'' \<longrightarrow> strOrNil s = Some s)
   \<and> SmsRow_subject (smsRow r sms) = strOrNil (SMS_Subject sms)
   \<and> SmsRow_service_center (smsRow r sms)
       = strOrNil (ServiceCenter_String r (SMS_ServiceCenter sms))
   \<and> (StreamingOutput_tx out = Some tx \<and> exec_error env (Tx_stmts tx) = None \<longrightarrow>
        onSms env r out sms
          = (None, out\<lparr>smsCount := smsCount out + 1,
                        StreamingOutput_tx :=
                          Some (tx\<lparr>Tx_sms := Tx_sms tx @ [smsRow r sms],
                                   Tx_stmts := Suc (Tx_stmts tx)\<rparr>)\<rparr>))"
  by (simp add: strOrNil_def smsRow_def onSms_def Exec_def Let_def)

theorem strOrNil_null_witness:
  "strOrNil ''null'' = None \<and> strOrNil [] = None \<and> strOrNil ''Re: hi'' = Some ''Re: hi''
   \<and> SmsRow_subject (smsRow plainRendering (mkSMS ''111'' ''Ann'')) = None
   \<and> SmsRow_subject (smsRow plainRendering ((mkSMS ''111'' ''Ann'')\<lparr>SMS_Subject := ''Re: hi''\<rparr>))
       = Some ''Re: hi''
   \<and> onSms goodSqlite plainRendering
        \<lparr>StreamingOutput_db = emptyStore, StreamingOutput_tx = Some emptyTx,
         smsCount = 0, mmsCount = 0, callCount = 0\<rparr> (mkSMS ''111'' ''Ann'')
       = (None,
          \<lparr>StreamingOutput_db = emptyStore,
           StreamingOutput_tx =
             Some \<lparr>Tx_sms = [smsRow plainRendering (mkSMS ''111'' ''Ann'')],
                   Tx_mms = [], Tx_mms_parts = [], Tx_stmts = Suc 0\<rparr>,
           smsCount = 1, mmsCount = 0, callCount = 0\<rparr>)"
proof -
  note t = strOrNil_null [where r = plainRendering]
  have a: "strOrNil ''null'' = None" using t [of "''null''"] by simp
  have b: "strOrNil [] = None" using t [of "[]"] by simp
  have c: "strOrNil ''Re: hi'' = Some ''Re: hi''" using t [of "''Re: hi''"] by simp
  have d: "SMS_Subject (mkSMS ''111'' ''Ann'') = ''null''" by (simp add: mkSMS_def)
  have e: "SmsRow_subject (smsRow plainRendering (mkSMS ''111'' ''Ann'')) = None"
    using t [of "[]" "mkSMS ''111'' ''Ann''"] d a by simp
  have f: "SmsRow_subject (smsRow plainRendering ((mkSMS ''111'' ''Ann'')\<lparr>SMS_Subject := ''Re: hi''\<rparr>))
      = Some ''Re: hi''"
    using t [of "[]" "(mkSMS ''111'' ''Ann'')\<lparr>SMS_Subject := ''Re: hi''\<rparr>"] c by simp
  let ?s0 = "\<lparr>StreamingOutput_db = emptyStore, StreamingOutput_tx = Some emptyTx,
         smsCount = 0, mmsCount = 0, callCount = 0\<rparr>"
  have h: "StreamingOutput_tx ?s0 = Some emptyTx \<and> exec_error goodSqlite (Tx_stmts emptyTx) = None"
    by (simp add: goodSqlite_def)
  have g: "onSms goodSqlite plainRendering ?s0 (mkSMS ''111'' ''Ann'')
       = (None,
          \<lparr>StreamingOutput_db = emptyStore,
           StreamingOutput_tx =
             Some \<lparr>Tx_sms = [smsRow plainRendering (mkSMS ''111'' ''Ann'')],
                   Tx_mms = [], Tx_mms_parts = [], Tx_stmts = Suc 0\<rparr>,
           smsCount = 1, mmsCount = 0, callCount = 0\<rparr>)"
    using t [where env = goodSqlite and out = ?s0 and tx = emptyTx and sms = "mkSMS ''111'' ''Ann''"
        and s = "[]", THEN conjunct2, THEN conjunct2, THEN conjunct2, THEN conjunct2,
        rule_format, OF h]
    by (simp add: emptyTx_def)
  from a b c e f g show ?thesis by simp
qed

end
